(* ===== verification/Prelude.thy ===== *)
theory Prelude
  imports Main "HOL-Library.Word"
begin

text \<open>
  Shared vocabulary of the development.

  It holds the names of Go's machine types, the lemma collections the component theories
  add to, the combinator that stands for Go's \<open>if err != nil { cleanup; return }\<close>, and a
  few generic facts on words, maps and lists.
\<close>

unbundle bit_operations_syntax

named_theorems go_defs \<open>definitions of the Go operations, for symbolic execution\<close>
named_theorems frame \<open>which parts of the state an operation leaves alone\<close>
named_theorems trace_simps \<open>how calls into libfabric change the ledger of open handles\<close>

section \<open>Machine types\<close>

text \<open>
  \<open>uint64\<close>, \<open>int32\<close> and \<open>uint32\<close> are words of their width: \<open>+\<close> wraps, \<open>sint\<close> reads a
  signed value. Go's \<open>int\<close> is a signed 64-bit value. A C pointer is an address; \<open>0\<close> is
  \<open>NULL\<close>. Lengths of Go slices are naturals (Go bounds them by \<open>2^63 - 1\<close>).
\<close>

type_synonym uint64 = "64 word"
type_synonym int64 = "64 word"
type_synonym uint32 = "32 word"
type_synonym int32 = "32 word"
type_synonym byte = "8 word"
type_synonym ptr = nat

abbreviation (input) NULL :: ptr where
  "NULL \<equiv> 0"

section \<open>Sequencing with early return\<close>

text \<open>
  \<open>try_act m onerr k\<close> runs \<open>m\<close>; when it fails, \<open>onerr\<close> is the body of the code's
  \<open>if err != nil\<close> block, otherwise \<open>k\<close> is the code after it.
\<close>

definition try_act ::
  "('s \<Rightarrow> ('e + 'a) \<times> 's) \<Rightarrow> ('e \<Rightarrow> 's \<Rightarrow> ('f + 'b) \<times> 's) \<Rightarrow>
   ('a \<Rightarrow> 's \<Rightarrow> ('f + 'b) \<times> 's) \<Rightarrow> 's \<Rightarrow> ('f + 'b) \<times> 's" where
  "try_act m onerr k s =
     (case m s of
        (Inl e, s') \<Rightarrow> onerr e s'
      | (Inr a, s') \<Rightarrow> k a s')"

text \<open>The same for an operation that only returns an error (\<open>error\<close> as an option).\<close>

definition try_do ::
  "('s \<Rightarrow> 'e option \<times> 's) \<Rightarrow> ('e \<Rightarrow> 's \<Rightarrow> ('f + 'b) \<times> 's) \<Rightarrow>
   ('s \<Rightarrow> ('f + 'b) \<times> 's) \<Rightarrow> 's \<Rightarrow> ('f + 'b) \<times> 's" where
  "try_do m onerr k s =
     (case m s of
        (Some e, s') \<Rightarrow> onerr e s'
      | (None, s') \<Rightarrow> k s')"

lemma try_act_rule:
  assumes "\<And>e s'. m s = (Inl e, s') \<Longrightarrow> P (onerr e s')"
    and "\<And>a s'. m s = (Inr a, s') \<Longrightarrow> P (k a s')"
  shows "P (try_act m onerr k s)"
proof (cases "m s")
  case (Pair r s')
  then show ?thesis
    using assms by (cases r) (auto simp: try_act_def)
qed

text \<open>What neither part changes, the whole does not change.\<close>

lemma try_act_view:
  assumes "\<And>s. v (snd (m s)) = v s" and "\<And>e s. v (snd (f e s)) = v s" and "\<And>a s. v (snd (k a s)) = v s"
  shows "v (snd (try_act m f k s)) = v s"
proof (rule try_act_rule)
  show "v (snd (f e s')) = v s" if "m s = (Inl e, s')" for e s'
    using assms(1) [of s] assms(2) [of e s'] that by simp
  show "v (snd (k a s')) = v s" if "m s = (Inr a, s')" for a s'
    using assms(1) [of s] assms(3) [of a s'] that by simp
qed

lemma try_do_rule:
  assumes "\<And>e s'. m s = (Some e, s') \<Longrightarrow> P (onerr e s')"
    and "\<And>s'. m s = (None, s') \<Longrightarrow> P (k s')"
  shows "P (try_do m onerr k s)"
proof (cases "m s")
  case (Pair r s')
  then show ?thesis
    using assms by (cases r) (auto simp: try_do_def)
qed

text \<open>Go returns an error interface; \<open>nil\<close> is \<open>None\<close>.\<close>

definition as_sum :: "'e option \<Rightarrow> 'a \<Rightarrow> 'e + 'a" where
  "as_sum e a = (case e of None \<Rightarrow> Inr a | Some x \<Rightarrow> Inl x)"

lemma as_sum_simps [simp]:
  "as_sum None a = Inr a"
  "as_sum (Some e) a = Inl e"
  by (simp_all add: as_sum_def)

section \<open>Bit masks\<close>

text \<open>\<open>has_bits m f\<close> is Go's \<open>m & f == f\<close>, \<open>any_bit m f\<close> is \<open>m & f != 0\<close>.\<close>

definition has_bits :: "uint64 \<Rightarrow> uint64 \<Rightarrow> bool" where
  "has_bits m f \<longleftrightarrow> m AND f = f"

definition any_bit :: "uint64 \<Rightarrow> uint64 \<Rightarrow> bool" where
  "any_bit m f \<longleftrightarrow> m AND f \<noteq> 0"

lemma has_bits_or [simp]: "has_bits (m OR f) f"
  by (auto simp: has_bits_def bit_eq_iff bit_simps)

lemma has_bits_mono: "has_bits m f \<Longrightarrow> has_bits (m OR g) f"
  by (auto simp: has_bits_def bit_eq_iff bit_simps)

lemma any_bit_zero [simp]: "\<not> any_bit m 0" "\<not> any_bit 0 f"
  by (simp_all add: any_bit_def)

section \<open>Decimal text\<close>

text \<open>\<open>show_nat\<close> is \<open>%d\<close> of an unsigned value; \<open>read_nat\<close> is its left inverse.\<close>

definition digit :: "nat \<Rightarrow> char" where
  "digit d = char_of (48 + d)"

fun show_nat :: "nat \<Rightarrow> string" where
  "show_nat n = (if n < 10 then [digit n] else show_nat (n div 10) @ [digit (n mod 10)])"

declare show_nat.simps [simp del]

definition read_nat :: "string \<Rightarrow> nat" where
  "read_nat s = foldl (\<lambda>a c. 10 * a + (of_char c - 48)) 0 s"

lemma of_char_digit [simp]: "d < 10 \<Longrightarrow> (of_char (digit d) :: nat) = 48 + d"
  by (simp add: digit_def)

lemma read_show_nat [simp]: "read_nat (show_nat n) = n"
proof (induction n rule: show_nat.induct)
  case (1 n)
  show ?case
  proof (cases "n < 10")
    case True
    then show ?thesis by (simp add: show_nat.simps [of n] read_nat_def)
  next
    case False
    with 1 have IH: "read_nat (show_nat (n div 10)) = n div 10" by simp
    from False have "show_nat n = show_nat (n div 10) @ [digit (n mod 10)]"
      by (simp add: show_nat.simps [of n])
    with IH show ?thesis by (simp add: read_nat_def)
  qed
qed

lemma show_nat_digits: "c \<in> set (show_nat n) \<Longrightarrow> 48 \<le> (of_char c :: nat) \<and> (of_char c :: nat) < 58"
proof (induction n rule: show_nat.induct)
  case (1 n)
  show ?case
  proof (cases "n < 10")
    case True
    with 1 show ?thesis by (simp add: show_nat.simps [of n])
  next
    case False
    with "1.prems" have "c \<in> set (show_nat (n div 10)) \<or> c = digit (n mod 10)"
      by (auto simp: show_nat.simps [of n])
    with "1.IH" [OF False] show ?thesis by (elim disjE) simp_all
  qed
qed

section \<open>Lists and maps\<close>

lemma mset_snoc_count [simp]: "count_list (xs @ [x]) y = count_list xs y + (if x = y then 1 else 0)"
  by (induction xs) auto

lemma count_list_append_eq: "count_list (xs @ ys) y = count_list xs y + count_list ys y"
  by (induction xs) auto

lemma map_upd_other [simp]: "k \<noteq> k' \<Longrightarrow> (m(k \<mapsto> v)) k' = m k'"
  by simp

end
