(* ===== verification/Header.thy ===== *)
theory Header
  imports Prelude
begin

text \<open>
  The constants the program takes from the C headers of libfabric
  (\<open>rdma/fi_errno.h\<close>, \<open>rdma/fabric.h\<close>, \<open>rdma/fi_domain.h\<close>, ...).

  Their values are not in the repository and differ between platforms, so they are a
  parameter: a record of the numbers the preprocessor would supply. What the code relies on
  about them is stated as the predicates \<open>errno_spec\<close> and \<open>enum_spec\<close>, which are documented
  behaviour of libfabric.
\<close>

type_synonym errno = int32

record fi_hdr =
  FI_SUCCESS :: errno
  FI_EAGAIN :: errno
  FI_ENOMEM :: errno
  FI_ETIMEDOUT :: errno
  FI_EAVAIL :: errno
  FI_ENOSPC :: errno
  FI_ETOOSMALL :: errno
  FI_EBUSY :: errno
  FI_MSG :: uint64
  FI_TAGGED :: uint64
  FI_RMA :: uint64
  FI_ATOMIC :: uint64
  FI_INJECT :: uint64
  FI_REMOTE_READ :: uint64
  FI_REMOTE_WRITE :: uint64
  FI_SEND :: uint64
  FI_RECV :: uint64
  FI_SOURCE :: uint64
  FI_MR_LOCAL :: uint64
  FI_MR_RAW :: uint64
  FI_MR_VIRT_ADDR :: uint64
  FI_MR_ALLOCATED :: uint64
  FI_MR_PROV_KEY :: uint64
  FI_MR_MMU_NOTIFY :: uint64
  FI_MR_RMA_EVENT :: uint64
  FI_EP_UNSPEC :: int
  FI_EP_MSG :: int
  FI_EP_DGRAM :: int
  FI_EP_RDM :: int
  FI_CQ_FORMAT_UNSPEC :: int
  FI_CQ_FORMAT_CONTEXT :: int
  FI_CQ_FORMAT_MSG :: int
  FI_CQ_FORMAT_DATA :: int
  FI_CQ_FORMAT_TAGGED :: int
  FI_AV_UNSPEC :: int
  FI_AV_MAP :: int
  FI_AV_TABLE :: int
  FI_CONNREQ :: uint32
  FI_CONNECTED :: uint32
  FI_SHUTDOWN :: uint32

text \<open>
  \<open>fi_errno(3)\<close>: success is zero, error codes are positive and distinct.
\<close>

definition errno_spec :: "fi_hdr \<Rightarrow> bool" where
  "errno_spec H \<longleftrightarrow>
     FI_SUCCESS H = 0 \<and>
     distinct [0, FI_EAGAIN H, FI_ENOMEM H, FI_ETIMEDOUT H, FI_EAVAIL H, FI_ENOSPC H,
       FI_ETOOSMALL H, FI_EBUSY H] \<and>
     (\<forall>c \<in> {FI_EAGAIN H, FI_ENOMEM H, FI_ETIMEDOUT H, FI_EAVAIL H, FI_ENOSPC H,
       FI_ETOOSMALL H, FI_EBUSY H}. 0 < sint c)"

text \<open>
  \<open>enum fi_ep_type\<close> is distinct and starts at the unspecified type (0); so do the completion
  queue formats; the connection events are distinct.
\<close>

definition enum_spec :: "fi_hdr \<Rightarrow> bool" where
  "enum_spec H \<longleftrightarrow>
     FI_EP_UNSPEC H = 0 \<and>
     distinct [FI_EP_UNSPEC H, FI_EP_MSG H, FI_EP_DGRAM H, FI_EP_RDM H] \<and>
     distinct [FI_CQ_FORMAT_UNSPEC H, FI_CQ_FORMAT_CONTEXT H, FI_CQ_FORMAT_MSG H,
       FI_CQ_FORMAT_DATA H, FI_CQ_FORMAT_TAGGED H] \<and>
     distinct [FI_CONNREQ H, FI_CONNECTED H, FI_SHUTDOWN H]"

text \<open>The values of the Linux headers of libfabric 1.x, used by the concrete instances.\<close>

definition linux_hdr :: fi_hdr where
  "linux_hdr =
     \<lparr> FI_SUCCESS = 0, FI_EAGAIN = 11, FI_ENOMEM = 12, FI_ETIMEDOUT = 110, FI_EAVAIL = 259,
       FI_ENOSPC = 28, FI_ETOOSMALL = 257, FI_EBUSY = 16,
       FI_MSG = 2, FI_TAGGED = 8, FI_RMA = 4, FI_ATOMIC = 16, FI_INJECT = 33554432,
       FI_REMOTE_READ = 4096, FI_REMOTE_WRITE = 8192, FI_SEND = 2048, FI_RECV = 1024,
       FI_SOURCE = 144115188075855872,
       FI_MR_LOCAL = 4, FI_MR_RAW = 8, FI_MR_VIRT_ADDR = 16, FI_MR_ALLOCATED = 32,
       FI_MR_PROV_KEY = 64, FI_MR_MMU_NOTIFY = 128, FI_MR_RMA_EVENT = 256,
       FI_EP_UNSPEC = 0, FI_EP_MSG = 1, FI_EP_DGRAM = 2, FI_EP_RDM = 3,
       FI_CQ_FORMAT_UNSPEC = 0, FI_CQ_FORMAT_CONTEXT = 1, FI_CQ_FORMAT_MSG = 2,
       FI_CQ_FORMAT_DATA = 3, FI_CQ_FORMAT_TAGGED = 4,
       FI_AV_UNSPEC = 0, FI_AV_MAP = 1, FI_AV_TABLE = 2,
       FI_CONNREQ = 1, FI_CONNECTED = 2, FI_SHUTDOWN = 3 \<rparr>"

lemma linux_errno_spec: "errno_spec linux_hdr"
  by (simp add: errno_spec_def linux_hdr_def)

lemma linux_enum_spec: "enum_spec linux_hdr"
  by (simp add: enum_spec_def linux_hdr_def)

end
