(* ===== verification/Errors.thy ===== *)
theory Errors
  imports Header
begin

text \<open>
  Error values and their translation: \<open>internal/capi/errors.go\<close>, \<open>fi/errors.go\<close>, the
  \<open>ErrInvalidHandle\<close> type and \<open>translateErr\<close> of \<open>fi/endpoint.go\<close>, and the
  \<open>OperationError\<close> type of \<open>client/client.go\<close>.

  A Go \<open>error\<close> is a value of \<open>goerr\<close>; a nil error is \<open>None\<close> (or the right side of a
  sum). Wrapping with \<open>%w\<close> is the constructor \<open>Wrap\<close>, and \<open>errors_Is\<close> follows the chain
  as \<open>errors.Is\<close> does.
\<close>

section \<open>Error values\<close>

text \<open>The package-level error variables; each is equal to itself only.\<close>

datatype sentinel =
    ErrNoCompletion
  | ErrNoEvent
  | ErrTimeout
  | ErrContextUnknown
  | ErrCapabilityUnsupported
  | ErrInsufficientAccess
  | ErrClosed

datatype OperationKind = OperationSend | OperationReceive

text \<open>The two errors of Go's \<open>context\<close> package.\<close>

datatype ctxerr = Canceled | DeadlineExceeded

record operation_error =
  oe_Kind :: OperationKind
  oe_Errno :: errno
  oe_ProviderErr :: int
  oe_Flags :: uint64
  oe_Length :: uint64
  oe_Data :: uint64
  oe_Tag :: uint64

datatype goerr =
    Errno errno
  | Sentinel sentinel
  | Msg string
  | Wrap string goerr
  | ErrInvalidHandle string
  | OperationError operation_error
  | CtxErr ctxerr

type_synonym 'a result = "goerr + 'a"

text \<open>One step of \<open>errors.Unwrap\<close>: \<open>%w\<close>-wrapped errors and \<open>OperationError.Unwrap\<close>.\<close>

fun unwrap :: "goerr \<Rightarrow> goerr option" where
  "unwrap (Wrap _ e) = Some e"
| "unwrap (OperationError oe) = Some (Errno (oe_Errno oe))"
| "unwrap _ = None"

function errors_Is :: "goerr \<Rightarrow> goerr \<Rightarrow> bool" where
  "errors_Is e t \<longleftrightarrow>
     e = t \<or> (case unwrap e of None \<Rightarrow> False | Some e' \<Rightarrow> errors_Is e' t)"
  by pat_completeness auto

text \<open>The chain is finite: a wrapper is larger than what it wraps.\<close>

fun err_depth :: "goerr \<Rightarrow> nat" where
  "err_depth (Wrap _ e) = Suc (err_depth e)"
| "err_depth (OperationError _) = 1"
| "err_depth _ = 0"

lemma unwrap_depth: "unwrap e = Some e' \<Longrightarrow> err_depth e' < err_depth e"
  by (cases e) auto

termination errors_Is
  by (relation "measure (\<lambda>(e, t). err_depth e)") (auto dest: unwrap_depth)

declare errors_Is.simps [simp del]

lemma errors_Is_refl [simp]: "errors_Is e e"
  by (subst errors_Is.simps) simp

lemma errors_Is_Wrap [simp]: "errors_Is (Wrap s e) t \<longleftrightarrow> Wrap s e = t \<or> errors_Is e t"
  by (subst errors_Is.simps) simp

lemma errors_Is_simps [simp]:
  "errors_Is (Errno c) t \<longleftrightarrow> Errno c = t"
  "errors_Is (Sentinel s) t \<longleftrightarrow> Sentinel s = t"
  "errors_Is (Msg m) t \<longleftrightarrow> Msg m = t"
  "errors_Is (ErrInvalidHandle r) t \<longleftrightarrow> ErrInvalidHandle r = t"
  "errors_Is (CtxErr x) t \<longleftrightarrow> CtxErr x = t"
  "errors_Is (OperationError oe) t \<longleftrightarrow> OperationError oe = t \<or> Errno (oe_Errno oe) = t"
  by (simp_all add: errors_Is.simps [of "Errno c" t] errors_Is.simps [of "Sentinel s" t]
      errors_Is.simps [of "Msg m" t] errors_Is.simps [of "ErrInvalidHandle r" t]
      errors_Is.simps [of "CtxErr x" t] errors_Is.simps [of "OperationError oe" t]
      errors_Is.simps [of "Errno (oe_Errno oe)" t])

section \<open>Status codes\<close>

text \<open>
  \<open>Success\<close>, \<open>ErrAgain\<close>, ... are \<open>Errno(C.FI_...)\<close>: the header's numbers as 32-bit values.
  \<open>WithOp\<close> adds the operation's name unless it is empty.
\<close>

definition WithOp :: "errno \<Rightarrow> string \<Rightarrow> goerr" where
  "WithOp e op = (if op = '''' then Errno e else Wrap op (Errno e))"

text \<open>
  \<open>ErrorFromStatus\<close>: the status is a signed 64-bit \<open>int\<close>, the negation wraps, and the
  conversion \<open>Errno(-status)\<close> keeps the low 32 bits.
\<close>

definition ErrorFromStatus :: "fi_hdr \<Rightarrow> int64 \<Rightarrow> string \<Rightarrow> goerr option" where
  "ErrorFromStatus H status op =
     (if 0 \<le> sint status then None
      else
        let code = (ucast (- status) :: errno)
        in if code = FI_SUCCESS H then None else Some (WithOp code op))"

definition ErrUnavailable :: "fi_hdr \<Rightarrow> string \<Rightarrow> goerr" where
  "ErrUnavailable H op = WithOp (FI_EAVAIL H) op"

text \<open>\<open>MustSucceed\<close> panics with the error; a panic is the left side of the sum.\<close>

definition MustSucceed :: "fi_hdr \<Rightarrow> int64 \<Rightarrow> string \<Rightarrow> goerr + unit" where
  "MustSucceed H status op = as_sum (ErrorFromStatus H status op) ()"

text \<open>\<open>translateErr\<close> of the queues: \<open>FI_EAGAIN\<close> means the queue is empty.\<close>

definition translateErr :: "fi_hdr \<Rightarrow> goerr option \<Rightarrow> sentinel \<Rightarrow> goerr option" where
  "translateErr H err sent =
     (case err of
        None \<Rightarrow> None
      | Some e \<Rightarrow>
          if errors_Is e (Errno (FI_EAGAIN H)) then Some (Sentinel sent)
          else if errors_Is e (Errno (FI_ETIMEDOUT H)) then Some (Sentinel ErrTimeout)
          else Some e)"

section \<open>Lemmas\<close>

lemma errors_Is_WithOp [simp]: "errors_Is (WithOp c op) (Errno d) \<longleftrightarrow> c = d"
  by (simp add: WithOp_def)

lemma errors_Is_WithOp_Sentinel [simp]: "\<not> errors_Is (WithOp c op) (Sentinel s)"
  by (simp add: WithOp_def)

lemma WithOp_not_Sentinel [simp]: "WithOp c op \<noteq> Sentinel s" "Sentinel s \<noteq> WithOp c op"
  by (simp_all add: WithOp_def)

lemma ErrorFromStatus_nonneg [simp]: "0 \<le> sint status \<Longrightarrow> ErrorFromStatus H status op = None"
  by (simp add: ErrorFromStatus_def)

lemma ucast_neg_zero_iff:
  fixes st :: int64
  shows "(ucast (- st) :: int32) = 0 \<longleftrightarrow> 2 ^ 32 dvd uint st"
proof -
  have "uint (ucast (- st) :: int32) = take_bit 32 (- uint st)"
    by (simp add: unsigned_ucast_eq uint_word_arith_bintrs)
  moreover have "(ucast (- st) :: int32) = 0 \<longleftrightarrow> uint (ucast (- st) :: int32) = 0"
    by (simp add: unsigned_eq_0_iff)
  ultimately show ?thesis
    by (simp only: take_bit_eq_0_iff dvd_minus_iff)
qed

text \<open>A C function that fails with code \<open>c\<close> returns \<open>-c\<close>, sign-extended to Go's \<open>int\<close>.\<close>

abbreviation neg_status :: "errno \<Rightarrow> int64" where
  "neg_status c \<equiv> - scast c"

lemma ucast_scast_errno [simp]: "(ucast (scast (c :: errno) :: int64) :: errno) = c"
  by (rule bit_word_eqI) (simp add: bit_simps)

lemma sint_neg_status [simp]: "sint (neg_status c) = - sint c"
proof -
  have b: "- (2 ^ 31) \<le> sint c" "sint c < 2 ^ 31"
    using sint_ge [of c] sint_lt [of c] by simp_all
  have "sint (neg_status c) = sint (word_of_int (- sint c) :: int64)"
    by simp
  also have "\<dots> = signed_take_bit 63 (- sint c)"
    by (simp only: signed_of_int) simp
  also have "\<dots> = - sint c"
    by (rule signed_take_bit_int_eq_self) (use b in simp_all)
  finally show ?thesis .
qed

lemma ErrorFromStatus_neg:
  assumes "FI_SUCCESS H = 0" and "0 < sint c"
  shows "ErrorFromStatus H (neg_status c) op = Some (WithOp c op)"
proof -
  from assms(2) have "c \<noteq> 0" by auto
  with assms show ?thesis by (simp add: ErrorFromStatus_def)
qed

lemma ErrorFromStatus_code:
  "ErrorFromStatus H st op = Some e \<Longrightarrow> e = WithOp (ucast (- st)) op \<and> sint st < 0"
  by (auto simp: ErrorFromStatus_def Let_def split: if_splits)

lemma MustSucceed_Inl: "MustSucceed H st op = Inl e \<longleftrightarrow> ErrorFromStatus H st op = Some e"
  by (cases "ErrorFromStatus H st op") (simp_all add: MustSucceed_def)

lemma translateErr_None [simp]: "translateErr H None s = None"
  by (simp add: translateErr_def)

lemma translateErr_None_iff: "translateErr H err s = None \<longleftrightarrow> err = None"
  by (auto simp: translateErr_def split: option.splits)

lemma translateErr_WithOp:
  "translateErr H (Some (WithOp c op)) s =
     Some (if c = FI_EAGAIN H then Sentinel s
           else if c = FI_ETIMEDOUT H then Sentinel ErrTimeout else WithOp c op)"
  by (simp add: translateErr_def)

section \<open>Properties\<close>

text \<open>
  A status is reported as an error exactly when it is negative and not a multiple of
  \<open>2^32\<close>: the conversion to the 32-bit \<open>Errno\<close> drops the high half, so a 64-bit status such as
  \<open>-2^32\<close> counts as success. Every status a C \<open>int\<close> can hold is classified by its sign.
\<close>

theorem ErrorFromStatus_None_iff:
  assumes "FI_SUCCESS H = 0"
  shows "ErrorFromStatus H st op = None \<longleftrightarrow> 0 \<le> sint st \<or> 2 ^ 32 dvd uint st"
  using assms by (auto simp: ErrorFromStatus_def Let_def ucast_neg_zero_iff)

theorem ErrorFromStatus_None_iff_witness:
  "FI_SUCCESS linux_hdr = 0 \<and> ErrorFromStatus linux_hdr (- 4294967296) ''fi_send'' = None"
proof -
  have h: "FI_SUCCESS linux_hdr = 0" by (simp add: linux_hdr_def)
  have "2 ^ 32 dvd uint (- 4294967296 :: int64)" by simp
  then show ?thesis using h ErrorFromStatus_None_iff [OF h] by blast
qed

text \<open>
  What a queue read reports for a C error code: \<open>FI_EAGAIN\<close> becomes the queue's "nothing
  there" sentinel, \<open>FI_ETIMEDOUT\<close> becomes \<open>ErrTimeout\<close>, and every other code reaches the
  caller wrapped with the operation's name, still matching its \<open>Errno\<close> under \<open>errors.Is\<close>
  and no sentinel.
\<close>

theorem translateErr_status:
  assumes "errno_spec H" and "0 < sint c"
  shows "\<exists>e. translateErr H (ErrorFromStatus H (neg_status c) op) s = Some e \<and>
     e = (if c = FI_EAGAIN H then Sentinel s
          else if c = FI_ETIMEDOUT H then Sentinel ErrTimeout else WithOp c op) \<and>
     (c = FI_EAGAIN H \<or> c = FI_ETIMEDOUT H \<or>
        errors_Is e (Errno c) \<and> (\<forall>t. \<not> errors_Is e (Sentinel t)))"
proof -
  from assms(1) have "FI_SUCCESS H = 0" by (simp add: errno_spec_def)
  with assms(2) have "ErrorFromStatus H (neg_status c) op = Some (WithOp c op)"
    by (simp add: ErrorFromStatus_neg)
  then show ?thesis by (simp add: translateErr_WithOp)
qed

theorem translateErr_status_witness:
  "errno_spec linux_hdr \<and> (0::int) < sint (259 :: errno) \<and>
   translateErr linux_hdr (ErrorFromStatus linux_hdr (neg_status 259) ''fi_cq_read'') ErrNoCompletion
     = Some (WithOp 259 ''fi_cq_read'')"
proof -
  have p: "0 < sint (259 :: errno)" by simp
  show ?thesis
    using p linux_errno_spec translateErr_status [OF linux_errno_spec p]
    by (simp add: linux_hdr_def)
qed

end
