(* ===== verification/Versions.thy ===== *)
theory Versions
  imports Errors
begin

text \<open>
  \<open>internal/capi/version.go\<close>: versions, their comparison and the runtime checks that guard
  discovery. The linked library's version number and the header's version macros are not
  under \<open>src/\<close>; they are the record \<open>ver_api\<close> (\<open>libfabric_fi_version\<close> is \<open>FI_VERSION\<close>).
\<close>

section \<open>Versions\<close>

text \<open>\<open>Major\<close> and \<open>Minor\<close> are Go's 64-bit \<open>uint\<close>.\<close>

datatype Version = Version (Major: uint64) (Minor: uint64)

text \<open>\<open>Version.String\<close> (\<open>"%d.%d"\<close>).\<close>

definition Version_String :: "Version \<Rightarrow> string" where
  "Version_String v = show_nat (unat (Major v)) @ ''.'' @ show_nat (unat (Minor v))"

text \<open>\<open>Version.Compare\<close>, in the order of the code's cases.\<close>

definition Compare :: "Version \<Rightarrow> Version \<Rightarrow> int" where
  "Compare v other =
     (if Major v < Major other then -1
      else if Major v > Major other then 1
      else if Minor v < Minor other then -1
      else if Minor v > Minor other then 1
      else 0)"

record ver_api =
  libfabric_version :: uint32
  libfabric_version_major :: "uint32 \<Rightarrow> uint32"
  libfabric_version_minor :: "uint32 \<Rightarrow> uint32"
  libfabric_fi_version :: "uint32 \<Rightarrow> uint32 \<Rightarrow> uint32"
  libfabric_build_version_major :: uint32
  libfabric_build_version_minor :: uint32

definition RuntimeVersion :: "ver_api \<Rightarrow> Version" where
  "RuntimeVersion A =
     (let ver = libfabric_version A
      in Version (ucast (libfabric_version_major A ver)) (ucast (libfabric_version_minor A ver)))"

definition BuildVersion :: "ver_api \<Rightarrow> Version" where
  "BuildVersion A =
     Version (ucast (libfabric_build_version_major A)) (ucast (libfabric_build_version_minor A))"

definition EnsureRuntimeAtLeast :: "ver_api \<Rightarrow> Version \<Rightarrow> goerr option" where
  "EnsureRuntimeAtLeast A minimum =
     (let runtime = RuntimeVersion A
      in if Compare runtime minimum < 0
         then Some (Msg (''libfabric runtime '' @ Version_String runtime @
                         '' is older than required '' @ Version_String minimum))
         else None)"

definition EnsureRuntimeCompatible :: "ver_api \<Rightarrow> goerr option" where
  "EnsureRuntimeCompatible A =
     (let build = BuildVersion A; runtime = RuntimeVersion A
      in if Major runtime \<noteq> Major build
         then Some (Msg (''libfabric major version mismatch: runtime '' @ Version_String runtime @
                         '', headers '' @ Version_String build))
         else if Minor runtime < Minor build
         then Some (Msg (''libfabric runtime '' @ Version_String runtime @
                         '' predates header minor version '' @ Version_String build))
         else None)"

section \<open>Versions as a linear order\<close>

text \<open>The order the comparison is meant to implement: major first, then minor.\<close>

instantiation Version :: linorder
begin

definition less_eq_Version :: "Version \<Rightarrow> Version \<Rightarrow> bool" where
  "less_eq_Version v w \<longleftrightarrow> Major v < Major w \<or> Major v = Major w \<and> Minor v \<le> Minor w"

definition less_Version :: "Version \<Rightarrow> Version \<Rightarrow> bool" where
  "less_Version v w \<longleftrightarrow> v \<le> w \<and> \<not> w \<le> (v :: Version)"

instance
  by standard (auto simp: less_eq_Version_def less_Version_def Version.expand)

end

lemma less_Version_iff:
  "v < w \<longleftrightarrow> Major v < Major w \<or> Major v = Major w \<and> Minor v < Minor w"
  by (auto simp: less_Version_def less_eq_Version_def)

lemma Compare_neg_iff: "Compare v w < 0 \<longleftrightarrow> v < w"
  by (auto simp: Compare_def less_Version_iff)

lemma Compare_swap: "Compare w v = - Compare v w"
  by (auto simp: Compare_def)

text \<open>The text of a version, read back: digits up to the dot, digits after it.\<close>

definition parse_version :: "string \<Rightarrow> Version" where
  "parse_version s =
     (let a = takeWhile (\<lambda>c. c \<noteq> CHR ''.'') s; b = drop (Suc (length a)) s
      in Version (of_nat (read_nat a)) (of_nat (read_nat b)))"

lemma takeWhile_show_nat:
  "takeWhile (\<lambda>c. c \<noteq> CHR ''.'') (show_nat n @ CHR ''.'' # r) = show_nat n"
proof -
  have "\<forall>c \<in> set (show_nat n). c \<noteq> CHR ''.''"
    using show_nat_digits by fastforce
  then show ?thesis by (simp add: takeWhile_append2)
qed

section \<open>Properties\<close>

text \<open>
  \<open>Compare\<close> is the three-way comparison of the lexicographic order on
  (major, minor): -1, 0 or 1 as its left argument is smaller, equal or larger.
\<close>

theorem Compare_linorder:
  "Compare v w = (if v < w then -1 else if v = w then 0 else 1)"
  by (auto simp: Compare_def less_Version_iff Version.expand)


text \<open>
  The compatibility check passes exactly when the runtime has the headers' major
  version and is at least the headers' version; so whenever it passes,
  \<open>EnsureRuntimeAtLeast\<close> accepts the build version too.
\<close>

theorem EnsureRuntimeCompatible_iff:
  "(EnsureRuntimeCompatible A = None \<longleftrightarrow>
      Major (RuntimeVersion A) = Major (BuildVersion A) \<and> BuildVersion A \<le> RuntimeVersion A) \<and>
   (EnsureRuntimeAtLeast A v = None \<longleftrightarrow> v \<le> RuntimeVersion A)"
  by (auto simp: EnsureRuntimeCompatible_def EnsureRuntimeAtLeast_def Let_def Compare_neg_iff
      less_eq_Version_def not_less less_Version_iff)

end
