(* ===== verification/World.thy ===== *)
theory World
  imports Versions
begin

text \<open>
  The state the packages \<open>internal/capi\<close> and \<open>fi\<close> work on, and their boundary.

  \<open>world\<close> is the program's state: the C heap, the Go byte arrays callers pass in, the wrapper
  objects of the \<open>fi\<close> package, the registry of completion contexts, and the state of the
  native library. libfabric, the provider and \<open>malloc\<close> are not under \<open>src/\<close>: they are the
  functions of the record \<open>cenv\<close>, which every operation takes as its first argument. Every
  call into libfabric is a value of \<open>call\<close> and is logged with its result in \<open>calls\<close>; the log
  is an observation of the model and no operation reads it.

  Freeing or copying memory that is not allocated, or past the end of a block, sets \<open>fault\<close>.
\<close>

section \<open>Native descriptors and attributes\<close>

text \<open>The parts of C's \<open>struct fi_info\<close> the program reads or writes.\<close>

record fabric_attr =
  fa_prov_name :: "string option"
  fa_name :: "string option"
  fa_prov_version :: uint32
  fa_api_version :: uint32

record domain_attr =
  da_name :: "string option"
  da_mr_mode :: uint64
  da_mr_key_size :: nat
  da_mr_iov_limit :: nat

record fi_info =
  fi_caps :: uint64
  fi_mode :: uint64
  fi_ep_type :: "int option"
  fi_fabric_attr :: "fabric_attr option"
  fi_domain_attr :: "domain_attr option"
  fi_inject_size :: "nat option"

text \<open>Queue, address-vector and wait-set attributes, as the code fills them in.\<close>

record CQAttr =
  cqa_Size :: int
  cqa_Flags :: uint64
  cqa_Format :: int
  cqa_WaitObj :: int
  cqa_SignalingVector :: int
  cqa_WaitCondition :: int

record EQAttr =
  eqa_Size :: int
  eqa_Flags :: uint64
  eqa_WaitObj :: int
  eqa_SignalingVector :: int

record AVAttr =
  ava_Type :: int
  ava_RXCtxBits :: int
  ava_Count :: uint64
  ava_EPPerNode :: uint64
  ava_Name :: string
  ava_Flags :: uint64

record WaitAttr =
  wa_WaitObj :: int
  wa_Flags :: uint64

section \<open>Calls into libfabric\<close>

datatype kind =
    KFabric | KDomain | KEndpoint | KPassive | KCQ | KEQ | KAV | KMR | KWait | KInfo

datatype (plugins only: code size) call =
    C_getinfo uint32 "string option" "string option" uint64 "fi_info option"
  | C_freeinfo ptr
  | C_allocinfo
  | C_fabric fi_info
  | C_domain ptr fi_info
  | C_endpoint ptr fi_info
  | C_passive_ep ptr fi_info
  | C_cq_open ptr "CQAttr option"
  | C_eq_open ptr "EQAttr option"
  | C_av_open ptr "AVAttr option"
  | C_wait_open ptr "WaitAttr option"
  | C_mr_reg ptr ptr nat uint64 uint64 uint64 uint64
  | C_mr_regv ptr "(ptr \<times> nat) list" uint64 uint64 uint64 uint64
  | C_mr_desc ptr
  | C_mr_key ptr
  | C_mr_close ptr
  | C_close kind ptr
  | C_ep_bind ptr kind ptr uint64
  | C_pep_bind ptr ptr uint64
  | C_enable ptr
  | C_listen ptr
  | C_accept ptr "byte list"
  | C_connect ptr "byte list"
  | C_getname kind ptr ptr nat
  | C_send ptr ptr nat ptr uint64 ptr
  | C_recv ptr ptr nat ptr uint64 ptr
  | C_inject ptr "byte list" uint64
  | C_tsend ptr ptr nat ptr uint64 uint64 ptr
  | C_trecv ptr ptr nat ptr uint64 uint64 uint64 ptr
  | C_tinject ptr "byte list" uint64 uint64
  | C_read ptr ptr nat ptr uint64 uint64 uint64 ptr
  | C_write ptr ptr nat ptr uint64 uint64 uint64 ptr
  | C_cq_read ptr
  | C_cq_readfrom ptr
  | C_cq_readerr ptr uint64
  | C_eq_read ptr uint64
  | C_eq_readerr ptr uint64
  | C_eq_sread ptr int32
  | C_av_insertsvc ptr "string option" "string option" uint64
  | C_av_insert ptr ptr uint64
  | C_av_remove ptr "uint64 list" uint64
  | C_wait ptr int32
  | C_getwait ptr

text \<open>
  What a call returns: its return value (\<open>int\<close> or \<open>ssize_t\<close>, sign-extended) and the values of
  its out-parameters; each call uses the ones it has.
\<close>

record resp =
  r_ret :: int64
  r_ptr :: ptr
  r_addr :: uint64
  r_infos :: "fi_info list"
  r_len :: nat
  r_ctx :: ptr
  r_tag :: uint64
  r_data :: uint64
  r_flags :: uint64
  r_elen :: uint64
  r_err :: errno
  r_prov_errno :: int
  r_event :: uint32
  r_fid :: ptr

section \<open>Memory\<close>

text \<open>
  Every C block carries the ghost \<open>owner\<close> it was allocated for (completion context, staging
  buffer of a context, memory region, temporary); no operation branches on it.
\<close>

datatype owner = OCtx nat | OBuf nat | ORegion nat | OTemp

record block =
  blk_owner :: owner
  blk_bytes :: "byte list"

text \<open>
  A Go byte slice: where its bytes live and how many there are (\<open>0\<close>: nil or empty). \<open>GoMem\<close> is
  an array some caller keeps, \<open>GoVal\<close> a temporary one that is only read.
\<close>

datatype loc = GoMem nat | GoVal "byte list" | CMem ptr

record slice =
  sl_loc :: loc
  sl_len :: nat

definition nil_slice :: slice where
  "nil_slice = \<lparr>sl_loc = CMem NULL, sl_len = 0\<rparr>"

section \<open>Objects of the fi package\<close>

text \<open>The value a caller attaches to a completion context (Go's \<open>any\<close>).\<close>

datatype any_val = NilVal | OpVal nat | OtherVal nat

record cctx =
  cc_ptr :: ptr
  cc_value :: any_val
  cc_onComplete :: "nat list"
  cc_cleanups :: "nat list"
  cc_buffer :: ptr
  cc_bufCap :: nat
  cc_closed :: bool
  cc_copyBack :: "slice option"

record mregion =
  mr_handle :: "ptr option"
  mr_buffer :: ptr
  mr_length :: nat
  mr_access :: uint64
  mr_descSize :: nat
  mr_ownsBuf :: bool

text \<open>
  The other wrapper types (\<open>Fabric\<close>, \<open>Domain\<close>, \<open>Endpoint\<close>, ...) have one mutable field, their
  \<open>handle\<close>. It lives in a cell: \<open>handles w i\<close> is the Go type of wrapper \<open>i\<close> and the native
  pointer of its handle, \<open>None\<close> when the handle (or the wrapper) is nil. The cell number
  stands for the Go pointer, so copies of a pointer share the cell.

  Callbacks are named by numbers; running one appends to the log \<open>ran\<close>.
\<close>

datatype callback_run = RanComplete nat nat | RanCleanup nat nat

record 'p world =
  heap :: "ptr \<rightharpoonup> block"
  fault :: bool
  native :: 'p
  gomem :: "nat \<Rightarrow> byte list"
  handles :: "nat \<rightharpoonup> kind \<times> ptr"
  next_id :: nat
  registry :: "ptr \<rightharpoonup> nat"
  ctxs :: "nat \<rightharpoonup> cctx"
  regions :: "nat \<rightharpoonup> mregion"
  ran :: "callback_run list"
  calls :: "(call \<times> resp) list"

text \<open>
  The environment. \<open>lib c h p\<close> is the answer of libfabric to call \<open>c\<close> when the C heap has
  contents \<open>h\<close> and the library's own state is \<open>p\<close>; it may rewrite the contents of allocated
  blocks (a provider filling a posted buffer), never their number or size. \<open>malloc n\<close> returns
  an address (\<open>NULL\<close> when out of memory) and the bytes found there.
\<close>

type_synonym memory = "ptr \<rightharpoonup> byte list"

record 'p cenv =
  hdr :: fi_hdr
  lib :: "call \<Rightarrow> memory \<Rightarrow> 'p \<Rightarrow> resp \<times> (ptr \<Rightarrow> byte list) \<times> 'p"
  malloc :: "nat \<Rightarrow> memory \<Rightarrow> 'p \<Rightarrow> ptr \<times> byte list \<times> 'p"

definition contents :: "'p world \<Rightarrow> memory" where
  "contents w = (\<lambda>p. map_option blk_bytes (heap w p))"

definition provider_writes :: "(ptr \<Rightarrow> byte list) \<Rightarrow> (ptr \<rightharpoonup> block) \<Rightarrow> (ptr \<rightharpoonup> block)" where
  "provider_writes f h =
     (\<lambda>p. case h p of
        None \<Rightarrow> None
      | Some b \<Rightarrow> if length (f p) = length (blk_bytes b) then Some (b\<lparr>blk_bytes := f p\<rparr>) else Some b)"

definition ccall :: "'p cenv \<Rightarrow> call \<Rightarrow> 'p world \<Rightarrow> resp \<times> 'p world" where
  "ccall E c w =
     (case lib E c (contents w) (native w) of
        (r, f, p) \<Rightarrow>
          (r, w\<lparr>heap := provider_writes f (heap w), native := p, calls := calls w @ [(c, r)]\<rparr>))"

text \<open>\<open>malloc(3)\<close>: a non-null result is not an allocated block.\<close>

definition malloc_spec :: "'p cenv \<Rightarrow> bool" where
  "malloc_spec E \<longleftrightarrow>
     (\<forall>n h p a b q. malloc E n h p = (a, b, q) \<and> a \<noteq> NULL \<longrightarrow> h a = None)"

section \<open>Frame facts of a library call\<close>

text \<open>
  \<open>shape\<close> is what the program knows of the C heap without looking at contents: which
  blocks are allocated, for whom, and how large they are. A library call keeps it.
\<close>

definition shape :: "'p world \<Rightarrow> ptr \<rightharpoonup> owner \<times> nat" where
  "shape w = (\<lambda>p. map_option (\<lambda>b. (blk_owner b, length (blk_bytes b))) (heap w p))"

lemma shape_provider_writes [simp]:
  "map_option (\<lambda>b. (blk_owner b, length (blk_bytes b))) (provider_writes f h p) =
   map_option (\<lambda>b. (blk_owner b, length (blk_bytes b))) (h p)"
  by (simp add: provider_writes_def split: option.split)

lemma ccall_frame [simp, frame]:
  "shape (snd (ccall E c w)) = shape w"
  "fault (snd (ccall E c w)) = fault w"
  "gomem (snd (ccall E c w)) = gomem w"
  "handles (snd (ccall E c w)) = handles w"
  "next_id (snd (ccall E c w)) = next_id w"
  "registry (snd (ccall E c w)) = registry w"
  "ctxs (snd (ccall E c w)) = ctxs w"
  "regions (snd (ccall E c w)) = regions w"
  "ran (snd (ccall E c w)) = ran w"
  "calls (snd (ccall E c w)) = calls w @ [(c, fst (ccall E c w))]"
  by (simp_all add: ccall_def shape_def split: prod.splits)

text \<open>\<open>shape\<close> sees only the heap.\<close>

lemma shape_update [simp]:
  "shape (w\<lparr>fault := b\<rparr>) = shape w"
  "shape (w\<lparr>native := p\<rparr>) = shape w"
  "shape (w\<lparr>gomem := g\<rparr>) = shape w"
  "shape (w\<lparr>handles := hd'\<rparr>) = shape w"
  "shape (w\<lparr>next_id := n\<rparr>) = shape w"
  "shape (w\<lparr>registry := r\<rparr>) = shape w"
  "shape (w\<lparr>ctxs := cs\<rparr>) = shape w"
  "shape (w\<lparr>regions := rs\<rparr>) = shape w"
  "shape (w\<lparr>ran := l\<rparr>) = shape w"
  "shape (w\<lparr>calls := t\<rparr>) = shape w"
  by (simp_all add: shape_def)

lemma shape_heap_upd [simp]:
  "shape (w\<lparr>heap := (heap w)(p := Some b)\<rparr>) = (shape w)(p \<mapsto> (blk_owner b, length (blk_bytes b)))"
  "shape (w\<lparr>heap := (heap w)(p := None)\<rparr>) = (shape w)(p := None)"
  by (auto simp: shape_def)

lemma shape_None_iff: "shape w p = None \<longleftrightarrow> heap w p = None"
  by (simp add: shape_def)

lemma shape_Some_iff:
  "shape w p = Some (o', n) \<longleftrightarrow> (\<exists>b. heap w p = Some b \<and> blk_owner b = o' \<and> length (blk_bytes b) = n)"
  by (auto simp: shape_def)

end
