(* ===== verification/CMemory.thy ===== *)
theory CMemory
  imports World
begin

text \<open>
  \<open>internal/capi/memory.go\<close> and the allocation half of \<open>internal/capi/context.go\<close>:
  C-managed memory. Freeing an address that is not allocated, and copying outside a block,
  is undefined behaviour in C; the model records it in \<open>fault\<close>.
\<close>

section \<open>Allocation\<close>

text \<open>\<open>C.malloc\<close>, tagged with the ghost owner of the new block.\<close>

definition c_malloc :: "'p cenv \<Rightarrow> owner \<Rightarrow> nat \<Rightarrow> 'p world \<Rightarrow> ptr \<times> 'p world" where
  "c_malloc E own n w =
     (case malloc E n (contents w) (native w) of
        (p, junk, q) \<Rightarrow>
          if p = NULL then (NULL, w\<lparr>native := q\<rparr>)
          else (p, w\<lparr>native := q,
                     heap := (heap w)(p \<mapsto> \<lparr>blk_owner = own, blk_bytes = take n (junk @ replicate n 0)\<rparr>)\<rparr>))"

text \<open>\<open>C.free\<close>.\<close>

definition c_free :: "ptr \<Rightarrow> 'p world \<Rightarrow> 'p world" where
  "c_free p w =
     (case heap w p of
        None \<Rightarrow> w\<lparr>fault := True\<rparr>
      | Some _ \<Rightarrow> w\<lparr>heap := (heap w)(p := None)\<rparr>)"

definition AllocBytes :: "'p cenv \<Rightarrow> owner \<Rightarrow> nat \<Rightarrow> 'p world \<Rightarrow> ptr \<times> 'p world" where
  "AllocBytes E own n w = (if n = 0 then (NULL, w) else c_malloc E own n w)"

definition FreeBytes :: "ptr \<Rightarrow> 'p world \<Rightarrow> 'p world" where
  "FreeBytes p w = (if p = NULL then w else c_free p w)"

definition CompletionContextAlloc :: "'p cenv \<Rightarrow> owner \<Rightarrow> 'p world \<Rightarrow> ptr \<times> 'p world" where
  "CompletionContextAlloc E own w = c_malloc E own 1 w"

definition CompletionContextFree :: "ptr \<Rightarrow> 'p world \<Rightarrow> 'p world" where
  "CompletionContextFree p w = (if p = NULL then w else c_free p w)"

section \<open>Copying\<close>

text \<open>The bytes at a location; \<open>None\<close> when a C address is not allocated.\<close>

definition load :: "loc \<Rightarrow> 'p world \<Rightarrow> byte list option" where
  "load l w =
     (case l of
        GoMem a \<Rightarrow> Some (gomem w a)
      | GoVal bs \<Rightarrow> Some bs
      | CMem p \<Rightarrow> map_option blk_bytes (heap w p))"

definition store :: "loc \<Rightarrow> byte list \<Rightarrow> 'p world \<Rightarrow> 'p world" where
  "store l bs w =
     (case l of
        GoMem a \<Rightarrow> w\<lparr>gomem := (gomem w)(a := bs)\<rparr>
      | GoVal _ \<Rightarrow> w
      | CMem p \<Rightarrow>
          (case heap w p of
             None \<Rightarrow> w\<lparr>fault := True\<rparr>
           | Some b \<Rightarrow> w\<lparr>heap := (heap w)(p \<mapsto> b\<lparr>blk_bytes := bs\<rparr>)\<rparr>))"

definition Memcpy :: "loc \<Rightarrow> loc \<Rightarrow> nat \<Rightarrow> 'p world \<Rightarrow> 'p world" where
  "Memcpy dst src n w =
     (if n = 0 \<or> dst = CMem NULL \<or> src = CMem NULL then w
      else
        (case (load dst w, load src w) of
           (Some d, Some s) \<Rightarrow>
             if n \<le> length d \<and> n \<le> length s then store dst (take n s @ drop n d) w
             else w\<lparr>fault := True\<rparr>
         | _ \<Rightarrow> w\<lparr>fault := True\<rparr>))"

text \<open>The contents of a slice, and \<open>C.GoBytes\<close>: a copy of the first \<open>n\<close> bytes of a block.\<close>

definition slice_bytes :: "slice \<Rightarrow> 'p world \<Rightarrow> byte list" where
  "slice_bytes s w = (case load (sl_loc s) w of None \<Rightarrow> [] | Some bs \<Rightarrow> take (sl_len s) bs)"

definition GoBytes :: "ptr \<Rightarrow> nat \<Rightarrow> 'p world \<Rightarrow> byte list \<times> 'p world" where
  "GoBytes p n w =
     (case load (CMem p) w of
        Some bs \<Rightarrow> if n \<le> length bs then (take n bs, w) else (bs, w\<lparr>fault := True\<rparr>)
      | None \<Rightarrow> ([], w\<lparr>fault := True\<rparr>))"

definition valid_slice :: "'p world \<Rightarrow> slice \<Rightarrow> bool" where
  "valid_slice w s \<longleftrightarrow> (\<exists>bs. load (sl_loc s) w = Some bs \<and> sl_len s \<le> length bs) \<or> sl_len s = 0"

section \<open>Frame facts\<close>

lemma c_malloc_frame [simp, frame]:
  "fault (snd (c_malloc E own n w)) = fault w"
  "gomem (snd (c_malloc E own n w)) = gomem w"
  "handles (snd (c_malloc E own n w)) = handles w"
  "next_id (snd (c_malloc E own n w)) = next_id w"
  "registry (snd (c_malloc E own n w)) = registry w"
  "ctxs (snd (c_malloc E own n w)) = ctxs w"
  "regions (snd (c_malloc E own n w)) = regions w"
  "ran (snd (c_malloc E own n w)) = ran w"
  "calls (snd (c_malloc E own n w)) = calls w"
  by (simp_all add: c_malloc_def split: prod.splits)

lemma shape_c_malloc:
  "shape (snd (c_malloc E own n w)) =
     (if fst (c_malloc E own n w) = NULL then shape w
      else (shape w)(fst (c_malloc E own n w) \<mapsto> (own, n)))"
  by (auto simp: c_malloc_def shape_def fun_eq_iff split: prod.splits)

lemma c_malloc_fresh:
  assumes "malloc_spec E" and "fst (c_malloc E own n w) \<noteq> NULL"
  shows "shape w (fst (c_malloc E own n w)) = None"
proof -
  obtain p junk q where m: "malloc E n (contents w) (native w) = (p, junk, q)"
    by (cases "malloc E n (contents w) (native w)")
  with assms(2) have p: "fst (c_malloc E own n w) = p" "p \<noteq> NULL"
    by (auto simp: c_malloc_def split: if_splits)
  with m assms(1) have "contents w p = None"
    unfolding malloc_spec_def by metis
  with p show ?thesis by (simp add: contents_def shape_None_iff)
qed

lemma c_free_frame [simp, frame]:
  "gomem (c_free p w) = gomem w"
  "handles (c_free p w) = handles w"
  "next_id (c_free p w) = next_id w"
  "registry (c_free p w) = registry w"
  "ctxs (c_free p w) = ctxs w"
  "regions (c_free p w) = regions w"
  "ran (c_free p w) = ran w"
  "calls (c_free p w) = calls w"
  "native (c_free p w) = native w"
  by (simp_all add: c_free_def split: option.split)

lemma shape_c_free [simp]: "shape (c_free p w) = (shape w)(p := None)"
  by (auto simp: c_free_def shape_def split: option.split)

lemma fault_c_free [simp]: "fault (c_free p w) \<longleftrightarrow> fault w \<or> shape w p = None"
  by (auto simp: c_free_def shape_None_iff split: option.split)

lemma store_frame [simp, frame]:
  "handles (store l bs w) = handles w"
  "next_id (store l bs w) = next_id w"
  "registry (store l bs w) = registry w"
  "ctxs (store l bs w) = ctxs w"
  "regions (store l bs w) = regions w"
  "ran (store l bs w) = ran w"
  "calls (store l bs w) = calls w"
  by (simp_all add: store_def split: loc.split option.split)

lemma Memcpy_frame [simp, frame]:
  "handles (Memcpy d s n w) = handles w"
  "next_id (Memcpy d s n w) = next_id w"
  "registry (Memcpy d s n w) = registry w"
  "ctxs (Memcpy d s n w) = ctxs w"
  "regions (Memcpy d s n w) = regions w"
  "ran (Memcpy d s n w) = ran w"
  "calls (Memcpy d s n w) = calls w"
  by (simp_all add: Memcpy_def split: option.split)

lemma shape_store:
  assumes "load l w = Some d" and "length bs = length d"
  shows "shape (store l bs w) = shape w"
  using assms by (auto simp: store_def load_def shape_def fun_eq_iff split: loc.splits option.splits)

lemma shape_Memcpy [simp]: "shape (Memcpy d s n w) = shape w"
proof (cases "n = 0 \<or> d = CMem NULL \<or> s = CMem NULL")
  case False
  show ?thesis
  proof (cases "load d w")
    case (Some bd)
    then show ?thesis
      using False by (auto simp: Memcpy_def shape_store [OF Some] split: option.split)
  qed (use False in \<open>simp add: Memcpy_def\<close>)
qed (auto simp: Memcpy_def)

text \<open>A location holds at least \<open>n\<close> bytes.\<close>

definition holds_bytes :: "'p world \<Rightarrow> loc \<Rightarrow> nat \<Rightarrow> bool" where
  "holds_bytes w l n \<longleftrightarrow> (\<exists>bs. load l w = Some bs \<and> n \<le> length bs)"

lemma holds_bytes_CMem [simp]:
  "holds_bytes w (CMem p) n \<longleftrightarrow> (\<exists>own m. shape w p = Some (own, m) \<and> n \<le> m)"
  by (auto simp: holds_bytes_def load_def shape_def)

lemma holds_bytes_GoMem [simp]:
  "holds_bytes w (GoMem a) n \<longleftrightarrow> n \<le> length (gomem w a)"
  "holds_bytes w (GoVal bs) n \<longleftrightarrow> n \<le> length bs"
  by (simp_all add: holds_bytes_def load_def)

lemma fault_Memcpy:
  assumes "holds_bytes w d n" and "holds_bytes w s n"
  shows "fault (Memcpy d s n w) = fault w"
  using assms
  by (auto simp: Memcpy_def holds_bytes_def store_def load_def split: option.split loc.splits)

lemma GoBytes_frame [simp, frame]:
  "shape (snd (GoBytes p n w)) = shape w"
  "gomem (snd (GoBytes p n w)) = gomem w"
  "handles (snd (GoBytes p n w)) = handles w"
  "next_id (snd (GoBytes p n w)) = next_id w"
  "registry (snd (GoBytes p n w)) = registry w"
  "ctxs (snd (GoBytes p n w)) = ctxs w"
  "regions (snd (GoBytes p n w)) = regions w"
  "ran (snd (GoBytes p n w)) = ran w"
  "calls (snd (GoBytes p n w)) = calls w"
  by (simp_all add: GoBytes_def split: option.split)

section \<open>Available memory and concrete environments\<close>

text \<open>Memory is available: \<open>malloc\<close> does not fail while finitely many blocks are allocated.\<close>

definition malloc_total :: "'p cenv \<Rightarrow> bool" where
  "malloc_total E \<longleftrightarrow> (\<forall>n h p. finite (dom h) \<longrightarrow> fst (malloc E n h p) \<noteq> NULL)"

definition finite_heap :: "'p world \<Rightarrow> bool" where
  "finite_heap w \<longleftrightarrow> finite (dom (shape w))"

lemma finite_heap_simps [simp]:
  "finite_heap (snd (ccall E c w)) = finite_heap w"
  "finite_heap (snd (c_malloc E own n w)) = finite_heap w"
  "finite_heap (c_free p w) = finite_heap w"
  by (simp_all add: finite_heap_def shape_c_malloc)

lemma c_malloc_total:
  assumes "malloc_total E" and "finite_heap w"
  shows "fst (c_malloc E own n w) \<noteq> NULL"
    and "\<exists>b. heap (snd (c_malloc E own n w)) (fst (c_malloc E own n w)) = Some b \<and>
      length (blk_bytes b) = n"
proof -
  obtain a j q where m: "malloc E n (contents w) (native w) = (a, j, q)"
    by (cases "malloc E n (contents w) (native w)")
  have "dom (contents w) = dom (shape w)"
    by (auto simp: contents_def shape_def)
  with m assms have "a \<noteq> NULL"
    unfolding malloc_total_def finite_heap_def by (metis fst_conv)
  with m show "fst (c_malloc E own n w) \<noteq> NULL"
    and "\<exists>b. heap (snd (c_malloc E own n w)) (fst (c_malloc E own n w)) = Some b \<and>
      length (blk_bytes b) = n"
    by (simp_all add: c_malloc_def)
qed

text \<open>
  Two allocators for closed instances: in \<open>bump_malloc\<close> the native state counts allocations and
  the next address is taken; \<open>scan_malloc\<close> takes the first free one.
\<close>

definition bump_malloc :: "nat \<Rightarrow> memory \<Rightarrow> nat \<Rightarrow> ptr \<times> byte list \<times> nat" where
  "bump_malloc n h q = (if h (Suc q) = None then (Suc q, [], Suc q) else (NULL, [], q))"

definition scan_malloc :: "nat \<Rightarrow> memory \<Rightarrow> nat \<Rightarrow> ptr \<times> byte list \<times> nat" where
  "scan_malloc n h q =
     (if finite (dom h) then (LEAST a. a \<noteq> NULL \<and> h a = None, [], q) else (NULL, [], q))"

definition resp0 :: resp where
  "resp0 = \<lparr>r_ret = 0, r_ptr = NULL, r_addr = 0, r_infos = [], r_len = 0, r_ctx = NULL, r_tag = 0,
     r_data = 0, r_flags = 0, r_elen = 0, r_err = 0, r_prov_errno = 0, r_event = 0, r_fid = NULL\<rparr>"

definition world0 :: "nat world" where
  "world0 = \<lparr>heap = Map.empty, fault = False, native = 0, gomem = (\<lambda>_. []), handles = Map.empty,
     next_id = 0, registry = Map.empty, ctxs = Map.empty, regions = Map.empty, ran = [], calls = []\<rparr>"

lemma bump_malloc_spec: "malloc E = bump_malloc \<Longrightarrow> malloc_spec E"
  by (auto simp: malloc_spec_def bump_malloc_def split: if_splits)

lemma scan_first_free:
  assumes "finite (dom h)"
  shows "(LEAST a. a \<noteq> NULL \<and> h a = None) \<noteq> NULL \<and> h (LEAST a. a \<noteq> NULL \<and> h a = None) = None"
proof -
  from assms have "finite (insert NULL (dom h))" by simp
  then obtain a where "a \<notin> insert NULL (dom h)"
    using ex_new_if_finite infinite_UNIV_nat by blast
  then have "a \<noteq> NULL \<and> h a = None" by auto
  then show ?thesis by (rule LeastI)
qed

lemma scan_malloc_spec: "malloc E = scan_malloc \<Longrightarrow> malloc_spec E"
  using scan_first_free by (auto simp: malloc_spec_def scan_malloc_def split: if_splits)

lemma scan_malloc_total: "malloc E = scan_malloc \<Longrightarrow> malloc_total E"
  using scan_first_free by (auto simp: malloc_total_def scan_malloc_def)

lemma finite_heap_world0 [simp]: "finite_heap world0"
  by (simp add: finite_heap_def world0_def shape_def)

text \<open>A library that does nothing and always succeeds.\<close>

definition quiet_env :: "nat cenv" where
  "quiet_env = \<lparr>hdr = linux_hdr, lib = (\<lambda>c h q. (resp0, \<lambda>_. [], q)), malloc = bump_malloc\<rparr>"

lemma quiet_malloc [simp]: "malloc_spec quiet_env"
  by (simp add: bump_malloc_spec quiet_env_def)

end
