(* ===== verification/Handles.thy ===== *)
theory Handles
  imports CMemory
begin

text \<open>
  The handle discipline all wrapper types share: opening a native object, closing it,
  calling an operation on it, and the ledger of the native objects the program holds.

  The packages repeat one pattern per type: the \<open>capi\<close> method checks its pointer and calls
  C, the \<open>fi\<close> method checks its handle and calls the \<open>capi\<close> method. The combinators of
  this theory are that pattern; \<open>Capi\<close> and the component theories instantiate it.
\<close>

section \<open>The call pattern of the capi package\<close>

text \<open>\<open>status := C.f(...); return ErrorFromStatus(int(status), op)\<close>.\<close>

definition status_call :: "'p cenv \<Rightarrow> call \<Rightarrow> string \<Rightarrow> 'p world \<Rightarrow> goerr option \<times> 'p world" where
  "status_call E c op w =
     (case ccall E c w of (r, w') \<Rightarrow> (ErrorFromStatus (hdr E) (r_ret r) op, w'))"

text \<open>An opening call: on success the pointer the call stored.\<close>

definition open_call :: "'p cenv \<Rightarrow> call \<Rightarrow> string \<Rightarrow> 'p world \<Rightarrow> ptr result \<times> 'p world" where
  "open_call E c op w =
     (case ccall E c w of
        (r, w') \<Rightarrow>
          (case ErrorFromStatus (hdr E) (r_ret r) op of
             Some e \<Rightarrow> (Inl e, w')
           | None \<Rightarrow> (Inr (r_ptr r), w')))"

text \<open>
  \<open>Close\<close> of a \<open>capi\<close> type: nothing for a nil pointer; on success the pointer becomes nil.
  The result is the error and the new pointer.
\<close>

definition close_native ::
  "'p cenv \<Rightarrow> kind \<Rightarrow> string \<Rightarrow> ptr \<Rightarrow> 'p world \<Rightarrow> (goerr option \<times> ptr) \<times> 'p world" where
  "close_native E k op p w =
     (if p = NULL then ((None, NULL), w)
      else
        (case status_call E (C_close k p) op w of
           (Some e, w') \<Rightarrow> ((Some e, p), w')
         | (None, w') \<Rightarrow> ((None, NULL), w')))"

section \<open>The call pattern of the fi package\<close>

definition new_wrapper :: "kind \<Rightarrow> ptr \<Rightarrow> 'p world \<Rightarrow> nat \<times> 'p world" where
  "new_wrapper k p w =
     (next_id w, w\<lparr>handles := (handles w)(next_id w \<mapsto> (k, p)), next_id := Suc (next_id w)\<rparr>)"

text \<open>\<open>handle, err := capi.Open...; if err != nil \<dots>; return &T{handle: handle}\<close>.\<close>

definition wrap_open :: "kind \<Rightarrow> ('p world \<Rightarrow> ptr result \<times> 'p world) \<Rightarrow> 'p world \<Rightarrow> nat result \<times> 'p world" where
  "wrap_open k m w =
     (case m w of
        (Inl e, w') \<Rightarrow> (Inl e, w')
      | (Inr p, w') \<Rightarrow> (case new_wrapper k p w' of (i, w'') \<Rightarrow> (Inr i, w'')))"

text \<open>
  \<open>Close\<close> of an \<open>fi\<close> type: nil receiver or handle is a no-op; otherwise the handle is set to nil
  whatever the native close returned.
\<close>

definition close_wrapper ::
  "(ptr \<Rightarrow> 'p world \<Rightarrow> (goerr option \<times> ptr) \<times> 'p world) \<Rightarrow> nat \<Rightarrow> 'p world \<Rightarrow> goerr option \<times> 'p world" where
  "close_wrapper capi_close i w =
     (case handles w i of
        None \<Rightarrow> (None, w)
      | Some (k, p) \<Rightarrow>
          (case capi_close p w of
             ((err, p'), w') \<Rightarrow> (err, w'\<lparr>handles := (handles w')(i := None)\<rparr>)))"

text \<open>\<open>if x == nil || x.handle == nil { return ErrInvalidHandle{res} }\<close>, for both result shapes.\<close>

definition with_handle ::
  "nat \<Rightarrow> (goerr \<Rightarrow> 'r) \<Rightarrow> goerr \<Rightarrow> (ptr \<Rightarrow> 'p world \<Rightarrow> 'r \<times> 'p world) \<Rightarrow> 'p world \<Rightarrow> 'r \<times> 'p world" where
  "with_handle i mk e k w =
     (case handles w i of
        None \<Rightarrow> (mk e, w)
      | Some (_, p) \<Rightarrow> k p w)"

section \<open>The ledger of native objects\<close>

text \<open>What a call opens, if it succeeds.\<close>

fun opens :: "call \<Rightarrow> kind option" where
  "opens (C_getinfo _ _ _ _ _) = Some KInfo"
| "opens (C_fabric _) = Some KFabric"
| "opens (C_domain _ _) = Some KDomain"
| "opens (C_endpoint _ _) = Some KEndpoint"
| "opens (C_passive_ep _ _) = Some KPassive"
| "opens (C_cq_open _ _) = Some KCQ"
| "opens (C_eq_open _ _) = Some KEQ"
| "opens (C_av_open _ _) = Some KAV"
| "opens (C_wait_open _ _) = Some KWait"
| "opens (C_mr_reg _ _ _ _ _ _ _) = Some KMR"
| "opens (C_mr_regv _ _ _ _ _ _) = Some KMR"
| "opens _ = None"

definition tally :: "kind \<Rightarrow> ptr \<Rightarrow> kind \<times> ptr \<Rightarrow> int" where
  "tally k p h = (if p \<noteq> NULL \<and> h = (k, p) then 1 else 0)"

text \<open>
  The change one logged call makes to the number of times object \<open>h\<close> is held. Lists of
  \<open>fi_info\<close> are held too: from \<open>fi_getinfo\<close>, \<open>fi_allocinfo\<close>, or a connection event that
  carries one, until \<open>fi_freeinfo\<close>. A wrapper forgets its handle whatever its close returned, a
  memory region only when the close succeeded; the ledger counts accordingly.
\<close>

fun delta :: "fi_hdr \<Rightarrow> call \<times> resp \<Rightarrow> kind \<times> ptr \<Rightarrow> int" where
  "delta H (C_close k p, r) h = - tally k p h"
| "delta H (C_mr_close p, r) h =
     (if ErrorFromStatus H (r_ret r) '''' = None then - tally KMR p h else 0)"
| "delta H (C_freeinfo p, r) h = - tally KInfo p h"
| "delta H (C_allocinfo, r) h = tally KInfo (r_ptr r) h"
| "delta H (C_eq_sread e t, r) h =
     (if 0 < sint (r_ret r) \<and> r_infos r \<noteq> [] then tally KInfo (r_ptr r) h else 0)"
| "delta H (c, r) h =
     (case opens c of
        None \<Rightarrow> 0
      | Some k \<Rightarrow> if ErrorFromStatus H (r_ret r) '''' = None then tally k (r_ptr r) h else 0)"

text \<open>\<open>held H tr h\<close>: successful opens of \<open>h\<close> minus closes of \<open>h\<close> in the log \<open>tr\<close>.\<close>

definition held :: "fi_hdr \<Rightarrow> (call \<times> resp) list \<Rightarrow> kind \<times> ptr \<Rightarrow> int" where
  "held H tr h = (\<Sum>e\<leftarrow>tr. delta H e h)"

lemma held_Nil [simp]: "held H [] h = 0"
  by (simp add: held_def)

lemma held_append [simp]: "held H (tr @ tr') h = held H tr h + held H tr' h"
  by (simp add: held_def)

lemma held_Cons [simp]: "held H (e # tr) h = delta H e h + held H tr h"
  by (simp add: held_def)

text \<open>Calls that neither open nor close are neutral.\<close>

fun neutral :: "call \<Rightarrow> bool" where
  "neutral (C_close _ _) = False"
| "neutral (C_mr_close _) = False"
| "neutral (C_freeinfo _) = False"
| "neutral C_allocinfo = False"
| "neutral (C_eq_sread _ _) = False"
| "neutral c = (opens c = None)"

lemma delta_neutral [simp]: "neutral c \<Longrightarrow> delta H (c, r) h = 0"
  by (cases c) auto

lemma delta_opens: "opens c = Some k \<Longrightarrow>
  delta H (c, r) h = (if ErrorFromStatus H (r_ret r) '''' = None then tally k (r_ptr r) h else 0)"
  by (cases c) auto

lemma ErrorFromStatus_None_op: "ErrorFromStatus H st op = None \<longleftrightarrow> ErrorFromStatus H st op' = None"
  by (simp add: ErrorFromStatus_def Let_def)

definition ledger :: "'p cenv \<Rightarrow> 'p world \<Rightarrow> kind \<times> ptr \<Rightarrow> int" where
  "ledger E w = held (hdr E) (calls w)"

definition acct :: "(kind \<times> ptr) option \<Rightarrow> kind \<times> ptr \<Rightarrow> int" where
  "acct x h = (case x of None \<Rightarrow> 0 | Some (k, p) \<Rightarrow> tally k p h)"

lemma acct_simps [simp]: "acct None h = 0" "acct (Some (k, p)) h = tally k p h"
  by (simp_all add: acct_def)

lemma tally_NULL [simp]: "tally k NULL h = 0"
  by (simp add: tally_def)

section \<open>Effects of the patterns\<close>

lemma ledger_cong: "calls w = calls w' \<Longrightarrow> ledger E w = ledger E w'"
  by (simp add: ledger_def)

lemma ledger_ccall_neutral [simp]: "neutral c \<Longrightarrow> ledger E (snd (ccall E c w)) = ledger E w"
  by (simp add: ledger_def fun_eq_iff)

lemma ledger_update [simp]:
  "ledger E (w\<lparr>heap := h\<rparr>) = ledger E w"
  "ledger E (w\<lparr>fault := b\<rparr>) = ledger E w"
  "ledger E (w\<lparr>native := q\<rparr>) = ledger E w"
  "ledger E (w\<lparr>gomem := g\<rparr>) = ledger E w"
  "ledger E (w\<lparr>handles := hs\<rparr>) = ledger E w"
  "ledger E (w\<lparr>next_id := n\<rparr>) = ledger E w"
  "ledger E (w\<lparr>registry := rg\<rparr>) = ledger E w"
  "ledger E (w\<lparr>ctxs := cs\<rparr>) = ledger E w"
  "ledger E (w\<lparr>regions := rs\<rparr>) = ledger E w"
  "ledger E (w\<lparr>ran := l\<rparr>) = ledger E w"
  by (simp_all add: ledger_def)

lemma ledger_memory [simp]:
  "ledger E (snd (c_malloc E' own n w)) = ledger E w"
  "ledger E (c_free p w) = ledger E w"
  "ledger E (Memcpy d s n w) = ledger E w"
  by (simp_all add: ledger_def)

lemma status_call_frame [simp, frame]:
  "shape (snd (status_call E c op w)) = shape w"
  "fault (snd (status_call E c op w)) = fault w"
  "gomem (snd (status_call E c op w)) = gomem w"
  "handles (snd (status_call E c op w)) = handles w"
  "next_id (snd (status_call E c op w)) = next_id w"
  "registry (snd (status_call E c op w)) = registry w"
  "ctxs (snd (status_call E c op w)) = ctxs w"
  "regions (snd (status_call E c op w)) = regions w"
  "ran (snd (status_call E c op w)) = ran w"
  by (simp_all add: status_call_def split_beta)

lemma calls_status_call: "\<exists>r. calls (snd (status_call E c op w)) = calls w @ [(c, r)]"
  by (simp add: status_call_def split_beta)

lemma ledger_status_call [simp]: "neutral c \<Longrightarrow> ledger E (snd (status_call E c op w)) = ledger E w"
  by (simp add: status_call_def split_beta)

lemma open_call_frame [simp, frame]:
  "shape (snd (open_call E c op w)) = shape w"
  "fault (snd (open_call E c op w)) = fault w"
  "gomem (snd (open_call E c op w)) = gomem w"
  "handles (snd (open_call E c op w)) = handles w"
  "next_id (snd (open_call E c op w)) = next_id w"
  "registry (snd (open_call E c op w)) = registry w"
  "ctxs (snd (open_call E c op w)) = ctxs w"
  "regions (snd (open_call E c op w)) = regions w"
  "ran (snd (open_call E c op w)) = ran w"
  by (simp_all add: open_call_def split_beta split: option.split)

text \<open>A successful open adds its object to the ledger; a failed one adds nothing.\<close>

lemma ledger_open_call:
  assumes "opens c = Some k"
  shows "ledger E (snd (open_call E c op w)) h =
    ledger E w h + (case fst (open_call E c op w) of Inl _ \<Rightarrow> 0 | Inr p \<Rightarrow> tally k p h)"
  using ErrorFromStatus_None_op [of "hdr E" "r_ret (fst (ccall E c w))" op "''''"] assms
  by (auto simp: open_call_def ledger_def split_beta delta_opens split: option.split)

lemma close_native_frame [simp, frame]:
  "shape (snd (close_native E k op p w)) = shape w"
  "fault (snd (close_native E k op p w)) = fault w"
  "gomem (snd (close_native E k op p w)) = gomem w"
  "handles (snd (close_native E k op p w)) = handles w"
  "next_id (snd (close_native E k op p w)) = next_id w"
  "registry (snd (close_native E k op p w)) = registry w"
  "ctxs (snd (close_native E k op p w)) = ctxs w"
  "regions (snd (close_native E k op p w)) = regions w"
  "ran (snd (close_native E k op p w)) = ran w"
  by (auto simp: close_native_def split_beta split: option.split)

lemma ledger_close_native [simp]:
  "ledger E (snd (close_native E k op p w)) h = ledger E w h - tally k p h"
proof (cases "p = NULL")
  case False
  obtain r where "calls (snd (status_call E (C_close k p) op w)) = calls w @ [(C_close k p, r)]"
    using calls_status_call by blast
  with False show ?thesis
    by (simp add: close_native_def ledger_def split_beta split: option.split)
qed (simp add: close_native_def)

text \<open>The ledger and the cells after a wrapper is opened or closed.\<close>

lemma wrap_open_Inl:
  "wrap_open k m w = (Inl e, w') \<longleftrightarrow> m w = (Inl e, w')"
  by (auto simp: wrap_open_def new_wrapper_def split: prod.splits sum.splits)

lemma wrap_open_Inr:
  "wrap_open k m w = (Inr i, w') \<longleftrightarrow>
     (\<exists>p w0. m w = (Inr p, w0) \<and> i = next_id w0 \<and>
        w' = w0\<lparr>handles := (handles w0)(next_id w0 \<mapsto> (k, p)), next_id := Suc (next_id w0)\<rparr>)"
  by (auto simp: wrap_open_def new_wrapper_def split: prod.splits sum.splits)

section \<open>Closing a list of wrappers\<close>

text \<open>
  The contract between the code that closes resources (error paths, \<open>Close\<close> of the client
  and the listener) and the wrapper types: closing cell \<open>i\<close> empties it, leaves the others,
  and takes its object off the ledger once.
\<close>

locale resource_table =
  fixes cell :: "'s \<Rightarrow> 'i \<Rightarrow> 'h option"
    and debt :: "'s \<Rightarrow> 'h \<Rightarrow> int"
    and cls :: "'i \<Rightarrow> 's \<Rightarrow> 's"
    and wgt :: "'h option \<Rightarrow> 'h \<Rightarrow> int"
  assumes cell_cls: "cell (cls i s) = (cell s)(i := None)"
    and debt_cls: "debt (cls i s) h = debt s h - wgt (cell s i) h"
    and wgt_None: "wgt None h = 0"
begin

lemma cell_fold: "cell (fold cls is s) j = (if j \<in> set is then None else cell s j)"
  by (induction "is" arbitrary: s) (auto simp: cell_cls)

lemma debt_fold:
  assumes "distinct is"
  shows "debt (fold cls is s) h = debt s h - (\<Sum>i\<leftarrow>is. wgt (cell s i) h)"
  using assms
proof (induction "is" arbitrary: s)
  case (Cons i "is")
  then have "map (\<lambda>j. wgt (cell (cls i s) j) h) is = map (\<lambda>j. wgt (cell s j) h) is"
    by (auto simp: cell_cls)
  then have "(\<Sum>j\<leftarrow>is. wgt (cell (cls i s) j) h) = (\<Sum>j\<leftarrow>is. wgt (cell s j) h)"
    by (rule arg_cong)
  with Cons show ?case by (simp add: debt_cls)
qed simp

text \<open>Closing again changes nothing.\<close>

lemma cls_closed: "cell s i = None \<Longrightarrow> debt (cls i s) h = debt s h"
  by (simp add: debt_cls wgt_None)

end

text \<open>The native close of a wrapper, by its Go type.\<close>

fun close_op :: "kind \<Rightarrow> string" where
  "close_op KFabric = ''fi_close(fabric)''"
| "close_op KDomain = ''fi_close(domain)''"
| "close_op KEndpoint = ''fi_close(endpoint)''"
| "close_op KPassive = ''fi_close(pep)''"
| "close_op KCQ = ''fi_close(cq)''"
| "close_op KEQ = ''fi_close(eq)''"
| "close_op KAV = ''fi_close(av)''"
| "close_op KMR = ''fi_close(mr)''"
| "close_op KWait = ''fi_close(waitset)''"
| "close_op KInfo = ''fi_freeinfo''"

definition close_cell :: "'p cenv \<Rightarrow> nat \<Rightarrow> 'p world \<Rightarrow> 'p world" where
  "close_cell E i w =
     (case handles w i of
        None \<Rightarrow> w
      | Some (k, _) \<Rightarrow> snd (close_wrapper (close_native E k (close_op k)) i w))"

lemma close_wrapper_frame [simp, frame]:
  "shape (snd (close_wrapper (close_native E k op) i w)) = shape w"
  "fault (snd (close_wrapper (close_native E k op) i w)) = fault w"
  "gomem (snd (close_wrapper (close_native E k op) i w)) = gomem w"
  "next_id (snd (close_wrapper (close_native E k op) i w)) = next_id w"
  "registry (snd (close_wrapper (close_native E k op) i w)) = registry w"
  "ctxs (snd (close_wrapper (close_native E k op) i w)) = ctxs w"
  "regions (snd (close_wrapper (close_native E k op) i w)) = regions w"
  "ran (snd (close_wrapper (close_native E k op) i w)) = ran w"
  "handles (snd (close_wrapper (close_native E k op) i w)) = (handles w)(i := None)"
  by (auto simp: close_wrapper_def split_beta split: option.split)

lemma close_cell_frame [simp, frame]:
  "shape (close_cell E i w) = shape w"
  "fault (close_cell E i w) = fault w"
  "gomem (close_cell E i w) = gomem w"
  "next_id (close_cell E i w) = next_id w"
  "registry (close_cell E i w) = registry w"
  "ctxs (close_cell E i w) = ctxs w"
  "regions (close_cell E i w) = regions w"
  "ran (close_cell E i w) = ran w"
  "handles (close_cell E i w) = (handles w)(i := None)"
  by (auto simp: close_cell_def split: option.split)

lemma ledger_close_cell: "ledger E (close_cell E i w) h = ledger E w h - acct (handles w i) h"
  by (auto simp: close_cell_def close_wrapper_def split_beta split: option.split)

interpretation cells: resource_table handles "ledger E" "close_cell E" acct for E
  by unfold_locales (simp_all add: ledger_close_cell)

end
