(* ===== verification/Capi.thy ===== *)
theory Capi
  imports Handles
begin

text \<open>
  The native operations of \<open>internal/capi\<close>: \<open>fabric.go\<close>, \<open>endpoint.go\<close>, \<open>av.go\<close>, \<open>wait.go\<close>,
  \<open>tagged.go\<close>, \<open>rma.go\<close>, \<open>mr.go\<close>. A \<open>capi\<close> object is the native pointer it wraps
  (\<open>NULL\<close> once it is closed); each function checks it, makes one C call and translates the
  status.
\<close>

definition unavailable :: "'p cenv \<Rightarrow> string \<Rightarrow> goerr" where
  "unavailable E op = ErrUnavailable (hdr E) op"

text \<open>The pattern of a method that only returns an error.\<close>

definition guarded :: "'p cenv \<Rightarrow> ptr \<Rightarrow> call \<Rightarrow> string \<Rightarrow> 'p world \<Rightarrow> goerr option \<times> 'p world" where
  "guarded E p c op w = (if p = NULL then (Some (unavailable E op), w) else status_call E c op w)"

section \<open>Opening and closing\<close>

definition capi_OpenFabric :: "'p cenv \<Rightarrow> fi_info option \<Rightarrow> 'p world \<Rightarrow> ptr result \<times> 'p world" where
  "capi_OpenFabric E entry w =
     (case entry of
        None \<Rightarrow> (Inl (unavailable E ''fi_fabric''), w)
      | Some info \<Rightarrow>
          if fi_fabric_attr info = None then (Inl (unavailable E ''fi_fabric''), w)
          else open_call E (C_fabric info) ''fi_fabric'' w)"

definition capi_Fabric_Close :: "'p cenv \<Rightarrow> ptr \<Rightarrow> 'p world \<Rightarrow> (goerr option \<times> ptr) \<times> 'p world" where
  "capi_Fabric_Close E = close_native E KFabric (close_op KFabric)"

definition capi_OpenDomain :: "'p cenv \<Rightarrow> ptr \<Rightarrow> fi_info option \<Rightarrow> 'p world \<Rightarrow> ptr result \<times> 'p world" where
  "capi_OpenDomain E fabric entry w =
     (if fabric = NULL then (Inl (unavailable E ''fi_domain''), w)
      else (case entry of
              None \<Rightarrow> (Inl (unavailable E ''fi_domain''), w)
            | Some info \<Rightarrow> open_call E (C_domain fabric info) ''fi_domain'' w))"

definition capi_Domain_Close :: "'p cenv \<Rightarrow> ptr \<Rightarrow> 'p world \<Rightarrow> (goerr option \<times> ptr) \<times> 'p world" where
  "capi_Domain_Close E = close_native E KDomain (close_op KDomain)"

definition capi_OpenEndpoint :: "'p cenv \<Rightarrow> ptr \<Rightarrow> fi_info option \<Rightarrow> 'p world \<Rightarrow> ptr result \<times> 'p world" where
  "capi_OpenEndpoint E domain entry w =
     (if domain = NULL then (Inl (unavailable E ''fi_endpoint''), w)
      else (case entry of
              None \<Rightarrow> (Inl (unavailable E ''fi_endpoint''), w)
            | Some info \<Rightarrow> open_call E (C_endpoint domain info) ''fi_endpoint'' w))"

definition capi_OpenEndpointWithInfo :: "'p cenv \<Rightarrow> ptr \<Rightarrow> fi_info option \<Rightarrow> 'p world \<Rightarrow> ptr result \<times> 'p world" where
  "capi_OpenEndpointWithInfo E domain entry w =
     (if domain = NULL then (Inl (unavailable E ''fi_endpoint''), w)
      else (case entry of
              None \<Rightarrow> (Inl (unavailable E ''fi_endpoint''), w)
            | Some info \<Rightarrow> open_call E (C_endpoint domain info) ''fi_endpoint'' w))"

definition capi_Endpoint_Close :: "'p cenv \<Rightarrow> ptr \<Rightarrow> 'p world \<Rightarrow> (goerr option \<times> ptr) \<times> 'p world" where
  "capi_Endpoint_Close E = close_native E KEndpoint (close_op KEndpoint)"

text \<open>A queue remembers the completion format it was opened with.\<close>

definition capi_OpenCompletionQueue ::
  "'p cenv \<Rightarrow> ptr \<Rightarrow> CQAttr option \<Rightarrow> 'p world \<Rightarrow> ptr result \<times> 'p world" where
  "capi_OpenCompletionQueue E domain attr w =
     (if domain = NULL then (Inl (unavailable E ''fi_cq_open''), w)
      else open_call E (C_cq_open domain attr) ''fi_cq_open'' w)"

definition capi_cq_format :: "'p cenv \<Rightarrow> CQAttr option \<Rightarrow> int" where
  "capi_cq_format E attr =
     (case attr of None \<Rightarrow> FI_CQ_FORMAT_UNSPEC (hdr E) | Some a \<Rightarrow> cqa_Format a)"

definition capi_CQ_Close :: "'p cenv \<Rightarrow> ptr \<Rightarrow> 'p world \<Rightarrow> (goerr option \<times> ptr) \<times> 'p world" where
  "capi_CQ_Close E = close_native E KCQ (close_op KCQ)"

definition capi_OpenEventQueue ::
  "'p cenv \<Rightarrow> ptr \<Rightarrow> EQAttr option \<Rightarrow> 'p world \<Rightarrow> ptr result \<times> 'p world" where
  "capi_OpenEventQueue E fabric attr w =
     (if fabric = NULL then (Inl (unavailable E ''fi_eq_open''), w)
      else open_call E (C_eq_open fabric attr) ''fi_eq_open'' w)"

definition capi_EQ_Close :: "'p cenv \<Rightarrow> ptr \<Rightarrow> 'p world \<Rightarrow> (goerr option \<times> ptr) \<times> 'p world" where
  "capi_EQ_Close E = close_native E KEQ (close_op KEQ)"

definition capi_OpenPassiveEndpoint ::
  "'p cenv \<Rightarrow> ptr \<Rightarrow> fi_info option \<Rightarrow> 'p world \<Rightarrow> ptr result \<times> 'p world" where
  "capi_OpenPassiveEndpoint E fabric entry w =
     (if fabric = NULL then (Inl (unavailable E ''fi_passive_ep''), w)
      else (case entry of
              None \<Rightarrow> (Inl (unavailable E ''fi_passive_ep''), w)
            | Some info \<Rightarrow> open_call E (C_passive_ep fabric info) ''fi_passive_ep'' w))"

definition capi_Passive_Close :: "'p cenv \<Rightarrow> ptr \<Rightarrow> 'p world \<Rightarrow> (goerr option \<times> ptr) \<times> 'p world" where
  "capi_Passive_Close E = close_native E KPassive (close_op KPassive)"

definition capi_OpenAV ::
  "'p cenv \<Rightarrow> ptr \<Rightarrow> AVAttr option \<Rightarrow> 'p world \<Rightarrow> ptr result \<times> 'p world" where
  "capi_OpenAV E domain attr w =
     (if domain = NULL then (Inl (unavailable E ''fi_av_open''), w)
      else open_call E (C_av_open domain attr) ''fi_av_open'' w)"

definition capi_AV_Close :: "'p cenv \<Rightarrow> ptr \<Rightarrow> 'p world \<Rightarrow> (goerr option \<times> ptr) \<times> 'p world" where
  "capi_AV_Close E = close_native E KAV (close_op KAV)"

definition capi_OpenWaitSet ::
  "'p cenv \<Rightarrow> ptr \<Rightarrow> WaitAttr option \<Rightarrow> 'p world \<Rightarrow> ptr result \<times> 'p world" where
  "capi_OpenWaitSet E fabric attr w =
     (if fabric = NULL then (Inl (unavailable E ''fi_wait_open''), w)
      else open_call E (C_wait_open fabric attr) ''fi_wait_open'' w)"

definition capi_Wait_Close :: "'p cenv \<Rightarrow> ptr \<Rightarrow> 'p world \<Rightarrow> (goerr option \<times> ptr) \<times> 'p world" where
  "capi_Wait_Close E = close_native E KWait (close_op KWait)"

section \<open>Endpoint control\<close>

definition capi_Bind ::
  "'p cenv \<Rightarrow> string \<Rightarrow> ptr \<Rightarrow> kind \<Rightarrow> ptr \<Rightarrow> uint64 \<Rightarrow> 'p world \<Rightarrow> goerr option \<times> 'p world" where
  "capi_Bind E op e k b flags w =
     (if e = NULL \<or> b = NULL then (Some (unavailable E op), w)
      else status_call E (C_ep_bind e k b flags) op w)"

definition capi_BindCompletionQueue ::
  "'p cenv \<Rightarrow> ptr \<Rightarrow> ptr \<Rightarrow> uint64 \<Rightarrow> 'p world \<Rightarrow> goerr option \<times> 'p world" where
  "capi_BindCompletionQueue E e cq flags = capi_Bind E ''fi_ep_bind(cq)'' e KCQ cq flags"

definition capi_BindEventQueue ::
  "'p cenv \<Rightarrow> ptr \<Rightarrow> ptr \<Rightarrow> uint64 \<Rightarrow> 'p world \<Rightarrow> goerr option \<times> 'p world" where
  "capi_BindEventQueue E e eq flags = capi_Bind E ''fi_ep_bind(eq)'' e KEQ eq flags"

definition capi_BindAddressVector ::
  "'p cenv \<Rightarrow> ptr \<Rightarrow> ptr \<Rightarrow> uint64 \<Rightarrow> 'p world \<Rightarrow> goerr option \<times> 'p world" where
  "capi_BindAddressVector E e av flags = capi_Bind E ''fi_ep_bind(av)'' e KAV av flags"

definition capi_Passive_BindEventQueue ::
  "'p cenv \<Rightarrow> ptr \<Rightarrow> ptr \<Rightarrow> uint64 \<Rightarrow> 'p world \<Rightarrow> goerr option \<times> 'p world" where
  "capi_Passive_BindEventQueue E p eq flags w =
     (if p = NULL \<or> eq = NULL then (Some (unavailable E ''fi_pep_bind''), w)
      else status_call E (C_pep_bind p eq flags) ''fi_pep_bind'' w)"

definition capi_Enable :: "'p cenv \<Rightarrow> ptr \<Rightarrow> 'p world \<Rightarrow> goerr option \<times> 'p world" where
  "capi_Enable E e = guarded E e (C_enable e) ''fi_enable''"

definition capi_Listen :: "'p cenv \<Rightarrow> ptr \<Rightarrow> 'p world \<Rightarrow> goerr option \<times> 'p world" where
  "capi_Listen E p = guarded E p (C_listen p) ''fi_listen''"

definition capi_Accept :: "'p cenv \<Rightarrow> ptr \<Rightarrow> byte list \<Rightarrow> 'p world \<Rightarrow> goerr option \<times> 'p world" where
  "capi_Accept E e param = guarded E e (C_accept e param) ''fi_accept''"

definition capi_Connect :: "'p cenv \<Rightarrow> ptr \<Rightarrow> byte list \<Rightarrow> 'p world \<Rightarrow> goerr option \<times> 'p world" where
  "capi_Connect E e param = guarded E e (C_connect e param) ''fi_connect''"

section \<open>Data transfer\<close>

definition capi_Send ::
  "'p cenv \<Rightarrow> ptr \<Rightarrow> ptr \<Rightarrow> nat \<Rightarrow> ptr \<Rightarrow> uint64 \<Rightarrow> ptr \<Rightarrow> 'p world \<Rightarrow> goerr option \<times> 'p world" where
  "capi_Send E e buffer len desc dest ctx =
     guarded E e (C_send e buffer len desc dest ctx) ''fi_send''"

definition capi_Recv ::
  "'p cenv \<Rightarrow> ptr \<Rightarrow> ptr \<Rightarrow> nat \<Rightarrow> ptr \<Rightarrow> uint64 \<Rightarrow> ptr \<Rightarrow> 'p world \<Rightarrow> goerr option \<times> 'p world" where
  "capi_Recv E e buffer len desc src ctx =
     guarded E e (C_recv e buffer len desc src ctx) ''fi_recv''"

definition capi_Inject ::
  "'p cenv \<Rightarrow> ptr \<Rightarrow> byte list \<Rightarrow> uint64 \<Rightarrow> 'p world \<Rightarrow> goerr option \<times> 'p world" where
  "capi_Inject E e data dest = guarded E e (C_inject e data dest) ''fi_inject''"

definition capi_TSend ::
  "'p cenv \<Rightarrow> ptr \<Rightarrow> ptr \<Rightarrow> nat \<Rightarrow> ptr \<Rightarrow> uint64 \<Rightarrow> uint64 \<Rightarrow> ptr \<Rightarrow> 'p world \<Rightarrow> goerr option \<times> 'p world" where
  "capi_TSend E e buffer len desc dest tag ctx =
     guarded E e (C_tsend e buffer len desc dest tag ctx) ''fi_tsend''"

definition capi_TRecv ::
  "'p cenv \<Rightarrow> ptr \<Rightarrow> ptr \<Rightarrow> nat \<Rightarrow> ptr \<Rightarrow> uint64 \<Rightarrow> uint64 \<Rightarrow> uint64 \<Rightarrow> ptr \<Rightarrow> 'p world \<Rightarrow> goerr option \<times> 'p world" where
  "capi_TRecv E e buffer len desc src tag ign ctx =
     guarded E e (C_trecv e buffer len desc src tag ign ctx) ''fi_trecv''"

definition capi_TInject ::
  "'p cenv \<Rightarrow> ptr \<Rightarrow> byte list \<Rightarrow> uint64 \<Rightarrow> uint64 \<Rightarrow> 'p world \<Rightarrow> goerr option \<times> 'p world" where
  "capi_TInject E e data dest tag = guarded E e (C_tinject e data dest tag) ''fi_tinject''"

text \<open>
  The Go methods take the key before the address; the C calls take the address first.
\<close>

definition capi_Read ::
  "'p cenv \<Rightarrow> ptr \<Rightarrow> ptr \<Rightarrow> nat \<Rightarrow> ptr \<Rightarrow> uint64 \<Rightarrow> uint64 \<Rightarrow> uint64 \<Rightarrow> ptr \<Rightarrow> 'p world \<Rightarrow> goerr option \<times> 'p world" where
  "capi_Read E e buf len desc srcAddr key addr ctx =
     guarded E e (C_read e buf len desc srcAddr addr key ctx) ''fi_read''"

definition capi_Write ::
  "'p cenv \<Rightarrow> ptr \<Rightarrow> ptr \<Rightarrow> nat \<Rightarrow> ptr \<Rightarrow> uint64 \<Rightarrow> uint64 \<Rightarrow> uint64 \<Rightarrow> ptr \<Rightarrow> 'p world \<Rightarrow> goerr option \<times> 'p world" where
  "capi_Write E e buf len desc destAddr key addr ctx =
     guarded E e (C_write e buf len desc destAddr addr key ctx) ''fi_write''"

section \<open>Queues\<close>

record CQEvent =
  ce_Context :: ptr
  ce_Tag :: uint64
  ce_Data :: uint64
  ce_SrcAddr :: uint64

record CQError =
  cqe_Context :: ptr
  cqe_Flags :: uint64
  cqe_Length :: uint64
  cqe_Data :: uint64
  cqe_Tag :: uint64
  cqe_Err :: errno
  cqe_ProviderErr :: int
  cqe_SrcAddr :: uint64

record EQEvent =
  eqv_Event :: uint32
  eqv_FID :: ptr
  eqv_Context :: ptr
  eqv_Data :: uint64

record EQError =
  eqe_FID :: ptr
  eqe_Context :: ptr
  eqe_Data :: uint64
  eqe_Err :: errno
  eqe_ProviderErr :: int

record CMEvent =
  cm_Event :: uint32
  cm_FID :: ptr
  cm_Info :: "fi_info option"
  cm_InfoPtr :: ptr
  cm_Data :: "byte list"
  cm_ownsInfo :: bool

text \<open>
  The tail every read shares: a positive count yields the entry, zero yields nothing, a
  negative value is an error. (A negative value that \<open>ErrorFromStatus\<close> does not report gives
  nil and no error, like zero.)
\<close>

definition read_result :: "'p cenv \<Rightarrow> string \<Rightarrow> resp \<Rightarrow> 'a \<Rightarrow> 'a option result" where
  "read_result E op r entry =
     (if 0 < sint (r_ret r) then Inr (Some entry)
      else if sint (r_ret r) = 0 then Inr None
      else as_sum (ErrorFromStatus (hdr E) (r_ret r) op) None)"

definition capi_ReadContext ::
  "'p cenv \<Rightarrow> ptr \<Rightarrow> int \<Rightarrow> 'p world \<Rightarrow> CQEvent option result \<times> 'p world" where
  "capi_ReadContext E c fmt w =
     (if c = NULL then (Inl (unavailable E ''fi_cq_read''), w)
      else if fmt = FI_CQ_FORMAT_TAGGED (hdr E) then
        (case ccall E (C_cq_read c) w of
           (r, w') \<Rightarrow>
             (read_result E ''fi_cq_read'' r
                \<lparr>ce_Context = r_ctx r, ce_Tag = r_tag r, ce_Data = r_data r, ce_SrcAddr = 0\<rparr>, w'))
      else if fmt = FI_CQ_FORMAT_MSG (hdr E) then
        (case ccall E (C_cq_readfrom c) w of
           (r, w') \<Rightarrow>
             (read_result E ''fi_cq_readfrom'' r
                \<lparr>ce_Context = r_ctx r, ce_Tag = 0, ce_Data = 0, ce_SrcAddr = r_addr r\<rparr>, w'))
      else
        (case ccall E (C_cq_read c) w of
           (r, w') \<Rightarrow>
             (read_result E ''fi_cq_read'' r
                \<lparr>ce_Context = r_ctx r, ce_Tag = 0, ce_Data = 0, ce_SrcAddr = 0\<rparr>, w')))"

text \<open>\<open>go_cq_err_src_addr\<close> returns 0, so an error entry never carries a source address.\<close>

definition capi_CQ_ReadError ::
  "'p cenv \<Rightarrow> ptr \<Rightarrow> uint64 \<Rightarrow> 'p world \<Rightarrow> CQError option result \<times> 'p world" where
  "capi_CQ_ReadError E c flags w =
     (if c = NULL then (Inl (unavailable E ''fi_cq_readerr''), w)
      else
        (case ccall E (C_cq_readerr c flags) w of
           (r, w') \<Rightarrow>
             (read_result E ''fi_cq_readerr'' r
                \<lparr>cqe_Context = r_ctx r, cqe_Flags = r_flags r, cqe_Length = r_elen r,
                 cqe_Data = r_data r, cqe_Tag = r_tag r, cqe_Err = r_err r,
                 cqe_ProviderErr = r_prov_errno r, cqe_SrcAddr = 0\<rparr>, w')))"

definition capi_EQ_Read ::
  "'p cenv \<Rightarrow> ptr \<Rightarrow> uint64 \<Rightarrow> 'p world \<Rightarrow> EQEvent option result \<times> 'p world" where
  "capi_EQ_Read E e flags w =
     (if e = NULL then (Inl (unavailable E ''fi_eq_read''), w)
      else
        (case ccall E (C_eq_read e flags) w of
           (r, w') \<Rightarrow>
             (read_result E ''fi_eq_read'' r
                \<lparr>eqv_Event = r_event r, eqv_FID = r_fid r, eqv_Context = r_ctx r,
                 eqv_Data = r_data r\<rparr>, w')))"

definition capi_EQ_ReadError ::
  "'p cenv \<Rightarrow> ptr \<Rightarrow> uint64 \<Rightarrow> 'p world \<Rightarrow> EQError option result \<times> 'p world" where
  "capi_EQ_ReadError E e flags w =
     (if e = NULL then (Inl (unavailable E ''fi_eq_readerr''), w)
      else
        (case ccall E (C_eq_readerr e flags) w of
           (r, w') \<Rightarrow>
             (read_result E ''fi_eq_readerr'' r
                \<lparr>eqe_FID = r_fid r, eqe_Context = r_ctx r, eqe_Data = r_data r,
                 eqe_Err = r_err r, eqe_ProviderErr = r_prov_errno r\<rparr>, w')))"

text \<open>
  \<open>C.int(timeout / time.Millisecond)\<close>: nanoseconds to milliseconds, cut to 32 bits; a negative
  duration is -1 (wait for ever).
\<close>

definition millis :: "int \<Rightarrow> int32" where
  "millis timeout = (if 0 \<le> timeout then word_of_int (timeout div 1000000) else -1)"

text \<open>
  \<open>ReadCM\<close>. \<open>cm_size\<close> is \<open>sizeof(struct fi_eq_cm_entry)\<close>; connection data behind the entry would
  be read past the end of the local variable, which the model records as a fault.
\<close>

definition capi_ReadCM ::
  "'p cenv \<Rightarrow> nat \<Rightarrow> ptr \<Rightarrow> int \<Rightarrow> 'p world \<Rightarrow> CMEvent option result \<times> 'p world" where
  "capi_ReadCM E cm_size e timeout w =
     (if e = NULL then (Inl (unavailable E ''fi_eq_sread''), w)
      else
        (case ccall E (C_eq_sread e (millis timeout)) w of
           (r, w') \<Rightarrow>
             (read_result E ''fi_eq_sread'' r
                \<lparr>cm_Event = r_event r, cm_FID = r_fid r,
                 cm_Info = (case r_infos r of [] \<Rightarrow> None | i # _ \<Rightarrow> Some i),
                 cm_InfoPtr = r_ptr r, cm_Data = [], cm_ownsInfo = (r_infos r \<noteq> [])\<rparr>,
              if int cm_size < sint (r_ret r) then w'\<lparr>fault := True\<rparr> else w')))"

definition capi_FreeInfo :: "'p cenv \<Rightarrow> ptr \<Rightarrow> 'p world \<Rightarrow> 'p world" where
  "capi_FreeInfo E p w = (if p = NULL then w else snd (ccall E (C_freeinfo p) w))"

text \<open>\<open>CMEvent.FreeInfo\<close>: only when owned, and at most once.\<close>

definition capi_CMEvent_FreeInfo :: "'p cenv \<Rightarrow> CMEvent \<Rightarrow> 'p world \<Rightarrow> CMEvent \<times> 'p world" where
  "capi_CMEvent_FreeInfo E ev w =
     (if \<not> cm_ownsInfo ev then (ev, w)
      else (ev\<lparr>cm_ownsInfo := False\<rparr>, capi_FreeInfo E (cm_InfoPtr ev) w))"

section \<open>Names\<close>

text \<open>
  The loop of \<open>Endpoint.Name\<close> and \<open>PassiveEndpoint.Name\<close>: \<open>attempts\<close> tries left, a buffer of
  \<open>sz\<close> bytes, doubled when the provider reports \<open>FI_ENOSPC\<close>. Every buffer is freed.
\<close>

fun name_loop ::
  "'p cenv \<Rightarrow> kind \<Rightarrow> ptr \<Rightarrow> string \<Rightarrow> nat \<Rightarrow> nat \<Rightarrow> 'p world \<Rightarrow> byte list result \<times> 'p world" where
  "name_loop E k p what 0 sz w = (Inl (Msg (''libfabric: unable to retrieve '' @ what @ '' name'')), w)"
| "name_loop E k p what (Suc attempts) sz w =
     (case c_malloc E OTemp sz w of
        (buf, w1) \<Rightarrow>
          if buf = NULL then (Inl (Msg ''libfabric: unable to allocate name buffer''), w1)
          else
            (case ccall E (C_getname k p buf sz) w1 of
               (r, w2) \<Rightarrow>
                 if r_ret r = 0 then
                   (case GoBytes buf (r_len r) w2 of (bs, w3) \<Rightarrow> (Inr bs, c_free buf w3))
                 else if r_ret r = neg_status (FI_ENOSPC (hdr E)) then
                   name_loop E k p what attempts (2 * sz) (c_free buf w2)
                 else
                   (as_sum (ErrorFromStatus (hdr E) (r_ret r) ''fi_getname'') [], c_free buf w2)))"

definition capi_Endpoint_Name :: "'p cenv \<Rightarrow> ptr \<Rightarrow> 'p world \<Rightarrow> byte list result \<times> 'p world" where
  "capi_Endpoint_Name E e w =
     (if e = NULL then (Inl (unavailable E ''fi_getname''), w)
      else name_loop E KEndpoint e ''endpoint'' 6 128 w)"

definition capi_Passive_Name :: "'p cenv \<Rightarrow> ptr \<Rightarrow> 'p world \<Rightarrow> byte list result \<times> 'p world" where
  "capi_Passive_Name E p w =
     (if p = NULL then (Inl (unavailable E ''fi_getname''), w)
      else name_loop E KPassive p ''passive endpoint'' 6 128 w)"

section \<open>Address vectors\<close>

definition c_string :: "string \<Rightarrow> string option" where
  "c_string s = (if s = '''' then None else Some s)"

text \<open>A zero return of \<open>fi_av_insertsvc\<close> (nothing inserted) is an error here.\<close>

definition capi_AV_InsertService ::
  "'p cenv \<Rightarrow> ptr \<Rightarrow> string \<Rightarrow> string \<Rightarrow> uint64 \<Rightarrow> 'p world \<Rightarrow> uint64 result \<times> 'p world" where
  "capi_AV_InsertService E a node service flags w =
     (if a = NULL then (Inl (unavailable E ''fi_av_insertsvc''), w)
      else
        (case ccall E (C_av_insertsvc a (c_string node) (c_string service) flags) w of
           (r, w') \<Rightarrow>
             (case ErrorFromStatus (hdr E) (r_ret r) ''fi_av_insertsvc'' of
                Some e \<Rightarrow> (Inl e, w')
              | None \<Rightarrow>
                  if r_ret r = 0 then (Inl (unavailable E ''fi_av_insertsvc''), w')
                  else (Inr (r_addr r), w'))))"

text \<open>\<open>InsertRaw\<close> has no such check: any non-negative return yields the out-parameter.\<close>

definition capi_AV_InsertRaw ::
  "'p cenv \<Rightarrow> ptr \<Rightarrow> ptr \<Rightarrow> uint64 \<Rightarrow> 'p world \<Rightarrow> uint64 result \<times> 'p world" where
  "capi_AV_InsertRaw E a addr flags w =
     (if a = NULL \<or> addr = NULL then (Inl (unavailable E ''fi_av_insert''), w)
      else
        (case ccall E (C_av_insert a addr flags) w of
           (r, w') \<Rightarrow> (as_sum (ErrorFromStatus (hdr E) (r_ret r) ''fi_av_insert'') (r_addr r), w')))"

definition capi_AV_Remove ::
  "'p cenv \<Rightarrow> ptr \<Rightarrow> uint64 list \<Rightarrow> uint64 \<Rightarrow> 'p world \<Rightarrow> goerr option \<times> 'p world" where
  "capi_AV_Remove E a addrs flags w =
     (if a = NULL then (Some (unavailable E ''fi_av_remove''), w)
      else if addrs = [] then (None, w)
      else status_call E (C_av_remove a addrs flags) ''fi_av_remove'' w)"

end
