(* ===== verification/Names.thy ===== *)
theory Names
  imports Capi
begin

text \<open>
  The address query of \<open>internal/capi/endpoint.go\<close> (\<open>Endpoint.Name\<close>, \<open>PassiveEndpoint.Name\<close>): the
  retry loop stops after six calls, frees every buffer, and finds every name of at most
  4096 bytes from a provider that reports a short buffer as \<open>FI_ENOSPC\<close>.
\<close>

section \<open>Provider behaviour\<close>

text \<open>
  \<open>fi_getname(3)\<close>: the address of an object is a fixed byte string. A large enough buffer
  receives it; otherwise the call fails with a code, here the parameter \<open>c\<close>.
\<close>

definition getname_spec :: "'p cenv \<Rightarrow> (kind \<Rightarrow> ptr \<Rightarrow> byte list) \<Rightarrow> errno \<Rightarrow> bool" where
  "getname_spec E addr c \<longleftrightarrow>
     (\<forall>k p buf sz h q.
        let (r, f, _) = lib E (C_getname k p buf sz) h q
        in if length (addr k p) \<le> sz
           then r_ret r = 0 \<and> r_len r = length (addr k p) \<and>
                (\<forall>bs. h buf = Some bs \<and> length bs = sz \<longrightarrow>
                   f buf = addr k p @ drop (length (addr k p)) bs)
           else r_ret r = neg_status c)"

section \<open>The loop\<close>

lemma ledger_GoBytes [simp]: "ledger E (snd (GoBytes p n w)) = ledger E w"
  by (rule ledger_cong) simp

lemma name_loop_frame [simp, frame]:
  "handles (snd (name_loop E k p what a sz w)) = handles w"
  "next_id (snd (name_loop E k p what a sz w)) = next_id w"
  "registry (snd (name_loop E k p what a sz w)) = registry w"
  "ctxs (snd (name_loop E k p what a sz w)) = ctxs w"
  "regions (snd (name_loop E k p what a sz w)) = regions w"
  "ran (snd (name_loop E k p what a sz w)) = ran w"
  "gomem (snd (name_loop E k p what a sz w)) = gomem w"
  "ledger E (snd (name_loop E k p what a sz w)) = ledger E w"
  by (induction a arbitrary: sz w) (simp_all add: split_beta)

lemma shape_malloc_then_free:
  assumes "malloc_spec E" and "fst (c_malloc E own n w) \<noteq> NULL"
  shows "(shape (snd (c_malloc E own n w)))(fst (c_malloc E own n w) := None) = shape w"
  using c_malloc_fresh [OF assms] by (auto simp: shape_c_malloc assms(2))

lemma shape_name_loop:
  assumes "malloc_spec E"
  shows "shape (snd (name_loop E k p what a sz w)) = shape w"
proof (induction a arbitrary: sz w)
  case (Suc a)
  then show ?case
    using shape_malloc_then_free [OF assms, of OTemp sz w]
    by (auto simp: split_beta shape_c_malloc)
qed simp

lemma calls_name_loop: "length (calls (snd (name_loop E k p what a sz w))) \<le> length (calls w) + a"
proof (induction a arbitrary: sz w)
  case (Suc a)
  let ?w1 = "snd (c_malloc E OTemp sz w)" and ?b = "fst (c_malloc E OTemp sz w)"
  let ?w2 = "c_free ?b (snd (ccall E (C_getname k p ?b sz) ?w1))"
  have "length (calls (snd (name_loop E k p what a (2 * sz) ?w2))) \<le> length (calls ?w2) + a"
    by (rule Suc.IH)
  then show ?case by (auto simp: split_beta)
qed simp

lemma getname_specD:
  assumes "getname_spec E addr c" and "lib E (C_getname k p buf sz) h q = (r, f, q')"
  shows "if length (addr k p) \<le> sz
         then r_ret r = 0 \<and> r_len r = length (addr k p) \<and>
              (\<forall>bs. h buf = Some bs \<and> length bs = sz \<longrightarrow>
                 f buf = addr k p @ drop (length (addr k p)) bs)
         else r_ret r = neg_status c"
proof -
  from assms(1) have "let (r, f, _) = lib E (C_getname k p buf sz) h q
        in if length (addr k p) \<le> sz
           then r_ret r = 0 \<and> r_len r = length (addr k p) \<and>
                (\<forall>bs. h buf = Some bs \<and> length bs = sz \<longrightarrow>
                   f buf = addr k p @ drop (length (addr k p)) bs)
           else r_ret r = neg_status c"
    unfolding getname_spec_def by blast
  with assms(2) show ?thesis by simp
qed

lemma getname_short:
  assumes "getname_spec E addr c" and "sz < length (addr k p)"
  shows "r_ret (fst (ccall E (C_getname k p buf sz) w)) = neg_status c"
proof -
  obtain r f q where l: "lib E (C_getname k p buf sz) (contents w) (native w) = (r, f, q)"
    by (cases "lib E (C_getname k p buf sz) (contents w) (native w)")
  from getname_specD [OF assms(1) l] assms(2) l show ?thesis
    by (simp add: ccall_def)
qed

lemma getname_long:
  assumes spec: "getname_spec E addr c" and len: "length (addr k p) \<le> sz"
    and blk: "heap w buf = Some b" "length (blk_bytes b) = sz"
  shows "r_ret (fst (ccall E (C_getname k p buf sz) w)) = 0"
    and "fst (GoBytes buf (r_len (fst (ccall E (C_getname k p buf sz) w)))
           (snd (ccall E (C_getname k p buf sz) w))) = addr k p"
proof -
  obtain r f q where l: "lib E (C_getname k p buf sz) (contents w) (native w) = (r, f, q)"
    by (cases "lib E (C_getname k p buf sz) (contents w) (native w)")
  have "contents w buf = Some (blk_bytes b)" using blk by (simp add: contents_def)
  with getname_specD [OF spec l] len blk have r: "r_ret r = 0" "r_len r = length (addr k p)"
    "f buf = addr k p @ drop (length (addr k p)) (blk_bytes b)"
    by simp_all
  have cc: "ccall E (C_getname k p buf sz) w =
      (r, w\<lparr>heap := provider_writes f (heap w), native := q,
            calls := calls w @ [(C_getname k p buf sz, r)]\<rparr>)"
    by (simp add: ccall_def l)
  show "r_ret (fst (ccall E (C_getname k p buf sz) w)) = 0"
    using cc r by simp
  show "fst (GoBytes buf (r_len (fst (ccall E (C_getname k p buf sz) w)))
           (snd (ccall E (C_getname k p buf sz) w))) = addr k p"
    using cc r len blk by (simp add: GoBytes_def load_def provider_writes_def)
qed

text \<open>One round: enough room gives the name, too little gives the provider's code.\<close>

lemma name_loop_found:
  assumes "malloc_total E" and "finite_heap w" and "getname_spec E addr c" and "length (addr k p) \<le> sz"
  shows "fst (name_loop E k p what (Suc a) sz w) = Inr (addr k p)"
proof -
  obtain b where b: "heap (snd (c_malloc E OTemp sz w)) (fst (c_malloc E OTemp sz w)) = Some b"
    "length (blk_bytes b) = sz"
    using c_malloc_total(2) [OF assms(1,2)] by blast
  show ?thesis
    using getname_long [OF assms(3,4) b] c_malloc_total(1) [OF assms(1,2), of OTemp sz]
    by (simp add: split_beta)
qed

lemma name_loop_retry:
  assumes "malloc_total E" and "finite_heap w" and "errno_spec (hdr E)" and "getname_spec E addr (FI_ENOSPC (hdr E))"
    and "sz < length (addr k p)"
  shows "\<exists>w'. finite_heap w' \<and>
    fst (name_loop E k p what (Suc a) sz w) = fst (name_loop E k p what a (2 * sz) w')"
proof -
  have "neg_status (FI_ENOSPC (hdr E)) \<noteq> 0"
    using assms(3) sint_neg_status [of "FI_ENOSPC (hdr E)"] by (force simp: errno_spec_def)
  then have "fst (name_loop E k p what (Suc a) sz w) =
      fst (name_loop E k p what a (2 * sz)
        (c_free (fst (c_malloc E OTemp sz w))
          (snd (ccall E (C_getname k p (fst (c_malloc E OTemp sz w)) sz) (snd (c_malloc E OTemp sz w))))))"
    using getname_short [OF assms(4,5)] c_malloc_total(1) [OF assms(1,2), of OTemp sz]
    by (simp add: split_beta)
  moreover have "finite_heap (c_free (fst (c_malloc E OTemp sz w))
      (snd (ccall E (C_getname k p (fst (c_malloc E OTemp sz w)) sz) (snd (c_malloc E OTemp sz w)))))"
    by (simp add: assms(2))
  ultimately show ?thesis by blast
qed

lemma name_loop_enospc:
  assumes "malloc_total E" and "errno_spec (hdr E)" and "getname_spec E addr (FI_ENOSPC (hdr E))"
    and "finite_heap w"
  shows "fst (name_loop E k p what (Suc a) sz w) =
    (if length (addr k p) \<le> 2 ^ a * sz then Inr (addr k p)
     else Inl (Msg (''libfabric: unable to retrieve '' @ what @ '' name'')))"
  using assms(4)
proof (induction a arbitrary: sz w)
  case 0
  show ?case
  proof (cases "length (addr k p) \<le> sz")
    case True
    with name_loop_found [OF assms(1) 0 assms(3) True, of what 0] show ?thesis by simp
  next
    case False
    then obtain w' where "fst (name_loop E k p what (Suc 0) sz w) = fst (name_loop E k p what 0 (2 * sz) w')"
      using name_loop_retry [OF assms(1) 0 assms(2,3), of sz k p what 0] by (auto simp: not_le)
    with False show ?thesis by simp
  qed
next
  case (Suc a)
  show ?case
  proof (cases "length (addr k p) \<le> sz")
    case True
    moreover have "sz \<le> 2 ^ Suc a * sz" by simp
    ultimately have "length (addr k p) \<le> 2 ^ Suc a * sz" by (rule le_trans)
    with name_loop_found [OF assms(1) Suc.prems assms(3) True] show ?thesis by simp
  next
    case False
    then obtain w' where w': "finite_heap w'"
      and "fst (name_loop E k p what (Suc (Suc a)) sz w) =
        fst (name_loop E k p what (Suc a) (2 * sz) w')"
      using name_loop_retry [OF assms(1) Suc.prems assms(2,3), of sz k p what "Suc a"]
      by (auto simp: not_le)
    with Suc.IH [OF w', of "2 * sz"] show ?thesis by (simp add: ac_simps)
  qed
qed

text \<open>A provider that reports the short buffer with any other code ends the loop at once.\<close>

lemma name_loop_other:
  assumes "malloc_total E" and "errno_spec (hdr E)" and "getname_spec E addr c" and "finite_heap w"
    and "0 < sint c" and "c \<noteq> FI_ENOSPC (hdr E)"
  shows "fst (name_loop E k p what (Suc a) sz w) =
    (if length (addr k p) \<le> sz then Inr (addr k p) else Inl (WithOp c ''fi_getname''))"
proof (cases "length (addr k p) \<le> sz")
  case True
  with name_loop_found [OF assms(1,4,3) True] show ?thesis by simp
next
  case False
  then have "sz < length (addr k p)" by simp
  note ret = getname_short [OF assms(3) this]
  have nz: "neg_status c \<noteq> 0"
    using assms(5) sint_neg_status [of c] by fastforce
  have ne: "neg_status c \<noteq> neg_status (FI_ENOSPC (hdr E))"
    using assms(6) ucast_scast_errno by (metis neg_equal_iff_equal)
  have "FI_SUCCESS (hdr E) = 0" using assms(2) by (simp add: errno_spec_def)
  with assms(5) have "ErrorFromStatus (hdr E) (neg_status c) ''fi_getname'' = Some (WithOp c ''fi_getname'')"
    by (simp add: ErrorFromStatus_neg)
  with False ret nz ne c_malloc_total(1) [OF assms(1,4), of OTemp sz] show ?thesis
    by (simp add: split_beta)
qed

section \<open>Concrete environments\<close>

text \<open>A provider whose every object has a 200-byte address, with the given short-buffer code.\<close>

definition addr200 :: "kind \<Rightarrow> ptr \<Rightarrow> byte list" where
  "addr200 k p = replicate 200 7"

definition name_lib :: "errno \<Rightarrow> call \<Rightarrow> memory \<Rightarrow> nat \<Rightarrow> resp \<times> (ptr \<Rightarrow> byte list) \<times> nat" where
  "name_lib c cl h q =
     (case cl of
        C_getname k p buf sz \<Rightarrow>
          if 200 \<le> sz then
            (resp0\<lparr>r_len := 200\<rparr>,
             (\<lambda>a. if a = buf then addr200 k p @ drop 200 (the (h buf)) else []), q)
          else (resp0\<lparr>r_ret := neg_status c\<rparr>, (\<lambda>_. []), q)
      | _ \<Rightarrow> (resp0, (\<lambda>_. []), q))"

definition name_env :: "errno \<Rightarrow> nat cenv" where
  "name_env c = \<lparr>hdr = linux_hdr, lib = name_lib c, malloc = scan_malloc\<rparr>"

lemma name_env_spec: "getname_spec (name_env c) addr200 c"
  by (auto simp: getname_spec_def name_env_def name_lib_def addr200_def resp0_def)

lemma name_env_malloc: "malloc_spec (name_env c)" "malloc_total (name_env c)"
  by (simp_all add: scan_malloc_spec scan_malloc_total name_env_def)

section \<open>Properties\<close>

lemma six_tries: "(6::nat) = Suc 5"
  by simp

text \<open>
  Claim C37. \<open>Endpoint.Name\<close> makes at most six calls of \<open>fi_getname\<close> and leaves the C heap as it found
  it: every buffer it allocates is freed on every path, the error paths included.
\<close>

theorem Endpoint_Name_bounded:
  assumes "malloc_spec E"
  shows "shape (snd (capi_Endpoint_Name E e w)) = shape w \<and>
    length (calls (snd (capi_Endpoint_Name E e w))) \<le> length (calls w) + 6"
  using shape_name_loop [OF assms] calls_name_loop [of E KEndpoint e "''endpoint''" 6 128 w]
  by (simp add: capi_Endpoint_Name_def)

theorem Endpoint_Name_bounded_witness:
  "malloc_spec (name_env 28) \<and>
   shape (snd (capi_Endpoint_Name (name_env 28) 5 world0)) = shape world0"
  using name_env_malloc(1) Endpoint_Name_bounded [OF name_env_malloc(1), of 28 5 world0] by blast

text \<open>
  Claim C38. With memory available and a provider that reports a short buffer as \<open>c\<close>: if \<open>c\<close> is
  \<open>FI_ENOSPC\<close> the query returns every address of at most 4096 bytes and a fixed error for longer
  ones; if \<open>c\<close> is another code it returns addresses of at most 128 bytes only, and \<open>c\<close> itself for
  longer ones.
\<close>

theorem Endpoint_Name_result:
  assumes "malloc_total E" and "errno_spec (hdr E)" and "getname_spec E addr c" and "0 < sint c"
    and "finite_heap w" and "e \<noteq> NULL"
  shows "fst (capi_Endpoint_Name E e w) =
    (if c = FI_ENOSPC (hdr E)
     then (if length (addr KEndpoint e) \<le> 4096 then Inr (addr KEndpoint e)
           else Inl (Msg ''libfabric: unable to retrieve endpoint name''))
     else (if length (addr KEndpoint e) \<le> 128 then Inr (addr KEndpoint e)
           else Inl (WithOp c ''fi_getname'')))"
proof (cases "c = FI_ENOSPC (hdr E)")
  case True
  with assms have "getname_spec E addr (FI_ENOSPC (hdr E))" by simp
  from name_loop_enospc [OF assms(1,2) this assms(5), of KEndpoint e "''endpoint''" 5 128]
  show ?thesis using True assms(6) unfolding capi_Endpoint_Name_def six_tries by (simp del: name_loop.simps)
next
  case False
  from name_loop_other [OF assms(1,2,3,5,4) False, of KEndpoint e "''endpoint''" 5 128]
  show ?thesis using False assms(6) unfolding capi_Endpoint_Name_def six_tries by (simp del: name_loop.simps)
qed

theorem Endpoint_Name_result_witness:
  "fst (capi_Endpoint_Name (name_env 28) 5 world0) = Inr (replicate 200 7) \<and>
   fst (capi_Endpoint_Name (name_env 257) 5 world0) = Inl (WithOp 257 ''fi_getname'')"
proof -
  have h: "errno_spec (hdr (name_env c))" for c
    by (simp add: name_env_def linux_errno_spec)
  have e: "FI_ENOSPC (hdr (name_env c)) = 28" for c
    by (simp add: name_env_def linux_hdr_def)
  show ?thesis
    using Endpoint_Name_result [OF name_env_malloc(2) h name_env_spec, of 28 world0 5]
      Endpoint_Name_result [OF name_env_malloc(2) h name_env_spec, of 257 world0 5]
    by (simp add: e addr200_def)
qed

end
