(* ===== verification/Discovery.thy ===== *)
theory Discovery
  imports Capi
begin

text \<open>
  Provider discovery: \<open>internal/capi/info.go\<close> and \<open>fi/discover.go\<close>. A descriptor is a value of
  \<open>fi_info\<close>, the part of C's structure the program reads; a list returned by the library is
  \<open>info_list\<close>, its head pointer (which \<open>fi_freeinfo\<close> takes) with its nodes.
\<close>

section \<open>Descriptor lists (internal/capi/info.go)\<close>

record info_list =
  il_ptr :: ptr
  il_nodes :: "fi_info list"
  il_owns :: bool

definition EndpointType_String :: "fi_hdr \<Rightarrow> int \<Rightarrow> string" where
  "EndpointType_String H e =
     (if e = FI_EP_UNSPEC H then ''unspec''
      else if e = FI_EP_MSG H then ''msg''
      else if e = FI_EP_DGRAM H then ''dgram''
      else if e = FI_EP_RDM H then ''rdm''
      else ''unknown'')"

definition empty_fabric_attr :: fabric_attr where
  "empty_fabric_attr = \<lparr>fa_prov_name = None, fa_name = None, fa_prov_version = 0, fa_api_version = 0\<rparr>"

definition empty_domain_attr :: domain_attr where
  "empty_domain_attr = \<lparr>da_name = None, da_mr_mode = 0, da_mr_key_size = 0, da_mr_iov_limit = 0\<rparr>"

definition ensureFabricAttr :: "fi_info \<Rightarrow> fabric_attr" where
  "ensureFabricAttr i = (case fi_fabric_attr i of None \<Rightarrow> empty_fabric_attr | Some a \<Rightarrow> a)"

definition ensureDomainAttr :: "fi_info \<Rightarrow> domain_attr" where
  "ensureDomainAttr i = (case fi_domain_attr i of None \<Rightarrow> empty_domain_attr | Some a \<Rightarrow> a)"

text \<open>The setters act on the head node and do nothing on a nil pointer.\<close>

definition upd_head :: "(fi_info \<Rightarrow> fi_info) \<Rightarrow> info_list \<Rightarrow> info_list" where
  "upd_head f il =
     (if il_ptr il = NULL then il
      else case il_nodes il of [] \<Rightarrow> il | n # ns \<Rightarrow> il\<lparr>il_nodes := f n # ns\<rparr>)"

definition SetProvider :: "string \<Rightarrow> info_list \<Rightarrow> info_list" where
  "SetProvider s = upd_head (\<lambda>i. i\<lparr>fi_fabric_attr := Some ((ensureFabricAttr i)\<lparr>fa_prov_name := c_string s\<rparr>)\<rparr>)"

definition SetDomainName :: "string \<Rightarrow> info_list \<Rightarrow> info_list" where
  "SetDomainName s = upd_head (\<lambda>i. i\<lparr>fi_domain_attr := Some ((ensureDomainAttr i)\<lparr>da_name := c_string s\<rparr>)\<rparr>)"

definition SetFabricName :: "string \<Rightarrow> info_list \<Rightarrow> info_list" where
  "SetFabricName s = upd_head (\<lambda>i. i\<lparr>fi_fabric_attr := Some ((ensureFabricAttr i)\<lparr>fa_name := c_string s\<rparr>)\<rparr>)"

definition SetCaps :: "uint64 \<Rightarrow> info_list \<Rightarrow> info_list" where
  "SetCaps m = upd_head (\<lambda>i. i\<lparr>fi_caps := m\<rparr>)"

definition SetMode :: "uint64 \<Rightarrow> info_list \<Rightarrow> info_list" where
  "SetMode m = upd_head (\<lambda>i. i\<lparr>fi_mode := m\<rparr>)"

definition SetEndpointType :: "int \<Rightarrow> info_list \<Rightarrow> info_list" where
  "SetEndpointType e = upd_head (\<lambda>i. i\<lparr>fi_ep_type := Some e\<rparr>)"

definition capi_GetInfo ::
  "'p cenv \<Rightarrow> ver_api \<Rightarrow> Version \<Rightarrow> string \<Rightarrow> string \<Rightarrow> uint64 \<Rightarrow> info_list option \<Rightarrow> 'p world \<Rightarrow>
   info_list result \<times> 'p world" where
  "capi_GetInfo E A ver node service flags hints w =
     (let hint = (case hints of
                    None \<Rightarrow> None
                  | Some il \<Rightarrow> if il_ptr il = NULL then None
                               else (case il_nodes il of [] \<Rightarrow> None | n # _ \<Rightarrow> Some n));
          version = libfabric_fi_version A (ucast (Major ver)) (ucast (Minor ver))
      in case ccall E (C_getinfo version (c_string node) (c_string service) flags hint) w of
           (r, w') \<Rightarrow>
             (as_sum (ErrorFromStatus (hdr E) (r_ret r) ''fi_getinfo'')
                \<lparr>il_ptr = r_ptr r, il_nodes = r_infos r, il_owns = True\<rparr>, w'))"

text \<open>\<open>fi_allocinfo\<close> returns one zeroed node, or a null pointer when memory is exhausted.\<close>

definition zero_info :: fi_info where
  "zero_info = \<lparr>fi_caps = 0, fi_mode = 0, fi_ep_type = Some 0, fi_fabric_attr = Some empty_fabric_attr,
     fi_domain_attr = Some empty_domain_attr, fi_inject_size = Some 0\<rparr>"

definition AllocInfo :: "'p cenv \<Rightarrow> 'p world \<Rightarrow> info_list \<times> 'p world" where
  "AllocInfo E w =
     (case ccall E C_allocinfo w of
        (r, w') \<Rightarrow>
          (\<lparr>il_ptr = r_ptr r, il_nodes = (if r_ptr r = NULL then [] else [zero_info]), il_owns = True\<rparr>, w'))"

definition Info_Free :: "'p cenv \<Rightarrow> info_list \<Rightarrow> 'p world \<Rightarrow> info_list \<times> 'p world" where
  "Info_Free E il w =
     (if il_ptr il = NULL \<or> \<not> il_owns il then (il, w)
      else (il\<lparr>il_ptr := NULL, il_owns := False\<rparr>, snd (ccall E (C_freeinfo (il_ptr il)) w)))"

definition Entries :: "info_list \<Rightarrow> fi_info list" where
  "Entries il = (if il_ptr il = NULL then [] else il_nodes il)"

text \<open>Accessors of an entry. \<open>C.GoString\<close> of a null pointer never happens: the code tests first.\<close>

definition go_string :: "string option \<Rightarrow> string" where
  "go_string s = (case s of None \<Rightarrow> '''' | Some t \<Rightarrow> t)"

definition ProviderName :: "fi_info \<Rightarrow> string" where
  "ProviderName e = (case fi_fabric_attr e of None \<Rightarrow> '''' | Some a \<Rightarrow> go_string (fa_prov_name a))"

definition FabricName :: "fi_info \<Rightarrow> string" where
  "FabricName e = (case fi_fabric_attr e of None \<Rightarrow> '''' | Some a \<Rightarrow> go_string (fa_name a))"

definition DomainName :: "fi_info \<Rightarrow> string" where
  "DomainName e = (case fi_domain_attr e of None \<Rightarrow> '''' | Some a \<Rightarrow> go_string (da_name a))"

definition entry_EndpointType :: "fi_hdr \<Rightarrow> fi_info \<Rightarrow> int" where
  "entry_EndpointType H e = (case fi_ep_type e of None \<Rightarrow> FI_EP_UNSPEC H | Some t \<Rightarrow> t)"

definition entry_version :: "ver_api \<Rightarrow> (fabric_attr \<Rightarrow> uint32) \<Rightarrow> fi_info \<Rightarrow> Version" where
  "entry_version A f e =
     (case fi_fabric_attr e of
        None \<Rightarrow> Version 0 0
      | Some a \<Rightarrow> Version (ucast (libfabric_version_major A (f a))) (ucast (libfabric_version_minor A (f a))))"

definition ProviderVersion :: "ver_api \<Rightarrow> fi_info \<Rightarrow> Version" where
  "ProviderVersion A = entry_version A fa_prov_version"

definition APIVersion :: "ver_api \<Rightarrow> fi_info \<Rightarrow> Version" where
  "APIVersion A = entry_version A fa_api_version"

definition InjectSize :: "fi_info \<Rightarrow> nat" where
  "InjectSize e = (case fi_inject_size e of None \<Rightarrow> 0 | Some n \<Rightarrow> n)"

definition MRMode :: "fi_info \<Rightarrow> uint64" where
  "MRMode e = (case fi_domain_attr e of None \<Rightarrow> 0 | Some a \<Rightarrow> da_mr_mode a)"

definition MRKeySize :: "fi_info \<Rightarrow> nat" where
  "MRKeySize e = (case fi_domain_attr e of None \<Rightarrow> 0 | Some a \<Rightarrow> da_mr_key_size a)"

definition MRIovLimit :: "fi_info \<Rightarrow> nat" where
  "MRIovLimit e = (case fi_domain_attr e of None \<Rightarrow> 0 | Some a \<Rightarrow> da_mr_iov_limit a)"

section \<open>Snapshots and options (fi/discover.go)\<close>

record Info =
  i_Provider :: string
  i_Fabric :: string
  i_Domain :: string
  i_Caps :: uint64
  i_Mode :: uint64
  i_Endpoint :: int
  i_ProviderVersion :: Version
  i_APIVersion :: Version
  i_InjectSize :: nat
  i_MRMode :: uint64
  i_MRKeySize :: nat
  i_MRIovLimit :: nat

definition infoFromEntry :: "fi_hdr \<Rightarrow> ver_api \<Rightarrow> fi_info \<Rightarrow> Info" where
  "infoFromEntry H A e =
     \<lparr>i_Provider = ProviderName e, i_Fabric = FabricName e, i_Domain = DomainName e,
      i_Caps = fi_caps e, i_Mode = fi_mode e, i_Endpoint = entry_EndpointType H e,
      i_ProviderVersion = ProviderVersion A e, i_APIVersion = APIVersion A e,
      i_InjectSize = InjectSize e, i_MRMode = MRMode e, i_MRKeySize = MRKeySize e,
      i_MRIovLimit = MRIovLimit e\<rparr>"

definition SupportsCap :: "Info \<Rightarrow> uint64 \<Rightarrow> bool" where
  "SupportsCap i flag \<longleftrightarrow> any_bit (i_Caps i) flag"

definition Info_SupportsTagged :: "fi_hdr \<Rightarrow> Info \<Rightarrow> bool" where
  "Info_SupportsTagged H i \<longleftrightarrow> SupportsCap i (FI_TAGGED H)"

definition Info_SupportsMsg :: "fi_hdr \<Rightarrow> Info \<Rightarrow> bool" where
  "Info_SupportsMsg H i \<longleftrightarrow> SupportsCap i (FI_MSG H)"

definition Info_SupportsRMA :: "fi_hdr \<Rightarrow> Info \<Rightarrow> bool" where
  "Info_SupportsRMA H i \<longleftrightarrow> SupportsCap i (FI_RMA H)"

definition Info_SupportsRemoteRead :: "fi_hdr \<Rightarrow> Info \<Rightarrow> bool" where
  "Info_SupportsRemoteRead H i \<longleftrightarrow> SupportsCap i (FI_REMOTE_READ H)"

definition Info_SupportsRemoteWrite :: "fi_hdr \<Rightarrow> Info \<Rightarrow> bool" where
  "Info_SupportsRemoteWrite H i \<longleftrightarrow> SupportsCap i (FI_REMOTE_WRITE H)"

definition RequiresMRMode :: "uint64 \<Rightarrow> uint64 \<Rightarrow> bool" where
  "RequiresMRMode mode flag \<longleftrightarrow> (if flag = 0 then False else any_bit mode flag)"

definition SupportsEndpointType :: "Info \<Rightarrow> int \<Rightarrow> bool" where
  "SupportsEndpointType i ep \<longleftrightarrow> i_Endpoint i = ep"

record discoverConfig =
  dc_version :: Version
  dc_node :: string
  dc_service :: string
  dc_flags :: uint64
  dc_provider :: string
  dc_fabric :: string
  dc_domain :: string
  dc_endpointType :: "int option"
  dc_caps :: "uint64 option"
  dc_mode :: "uint64 option"

definition defaultDiscoverConfig :: "ver_api \<Rightarrow> discoverConfig" where
  "defaultDiscoverConfig A =
     \<lparr>dc_version = BuildVersion A, dc_node = '''', dc_service = '''', dc_flags = 0, dc_provider = '''',
      dc_fabric = '''', dc_domain = '''', dc_endpointType = None, dc_caps = None, dc_mode = None\<rparr>"

definition needsHints :: "discoverConfig \<Rightarrow> bool" where
  "needsHints c \<longleftrightarrow> dc_provider c \<noteq> '''' \<or> dc_fabric c \<noteq> '''' \<or> dc_domain c \<noteq> '''' \<or>
     dc_endpointType c \<noteq> None \<or> dc_caps c \<noteq> None \<or> dc_mode c \<noteq> None"

definition applyHints :: "discoverConfig \<Rightarrow> info_list \<Rightarrow> info_list" where
  "applyHints c i0 =
     (if \<not> needsHints c then i0
      else
        let i1 = (if dc_provider c \<noteq> '''' then SetProvider (dc_provider c) i0 else i0);
            i2 = (if dc_fabric c \<noteq> '''' then SetFabricName (dc_fabric c) i1 else i1);
            i3 = (if dc_domain c \<noteq> '''' then SetDomainName (dc_domain c) i2 else i2);
            i4 = (case dc_endpointType c of None \<Rightarrow> i3 | Some t \<Rightarrow> SetEndpointType t i3);
            i5 = (case dc_caps c of None \<Rightarrow> i4 | Some m \<Rightarrow> SetCaps m i4)
        in (case dc_mode c of None \<Rightarrow> i5 | Some m \<Rightarrow> SetMode m i5))"

type_synonym DiscoverOption = "discoverConfig \<Rightarrow> discoverConfig"

definition WithNode :: "string \<Rightarrow> DiscoverOption" where "WithNode s c = c\<lparr>dc_node := s\<rparr>"
definition WithService :: "string \<Rightarrow> DiscoverOption" where "WithService s c = c\<lparr>dc_service := s\<rparr>"
definition WithFlags :: "uint64 \<Rightarrow> DiscoverOption" where "WithFlags f c = c\<lparr>dc_flags := f\<rparr>"
definition WithProvider :: "string \<Rightarrow> DiscoverOption" where "WithProvider s c = c\<lparr>dc_provider := s\<rparr>"
definition WithFabric :: "string \<Rightarrow> DiscoverOption" where "WithFabric s c = c\<lparr>dc_fabric := s\<rparr>"
definition WithDomain :: "string \<Rightarrow> DiscoverOption" where "WithDomain s c = c\<lparr>dc_domain := s\<rparr>"
definition WithEndpointType :: "int \<Rightarrow> DiscoverOption" where
  "WithEndpointType t c = c\<lparr>dc_endpointType := Some t\<rparr>"
definition WithCaps :: "uint64 \<Rightarrow> DiscoverOption" where "WithCaps m c = c\<lparr>dc_caps := Some m\<rparr>"
definition WithMode :: "uint64 \<Rightarrow> DiscoverOption" where "WithMode m c = c\<lparr>dc_mode := Some m\<rparr>"
definition WithVersion :: "Version \<Rightarrow> DiscoverOption" where "WithVersion v c = c\<lparr>dc_version := v\<rparr>"

section \<open>Discovery\<close>

definition DiscoverDescriptors ::
  "'p cenv \<Rightarrow> ver_api \<Rightarrow> DiscoverOption list \<Rightarrow> 'p world \<Rightarrow> info_list result \<times> 'p world" where
  "DiscoverDescriptors E A opts w =
     (case EnsureRuntimeCompatible A of
        Some e \<Rightarrow> (Inl e, w)
      | None \<Rightarrow>
          let cfg = fold (\<lambda>f c. f c) opts (defaultDiscoverConfig A)
          in if needsHints cfg then
               (case AllocInfo E w of
                  (h0, w1) \<Rightarrow>
                    let hints = applyHints cfg h0
                    in case capi_GetInfo E A (dc_version cfg) (dc_node cfg) (dc_service cfg) (dc_flags cfg) (Some hints) w1 of
                         (r, w2) \<Rightarrow> (r, snd (Info_Free E hints w2)))
             else capi_GetInfo E A (dc_version cfg) (dc_node cfg) (dc_service cfg) (dc_flags cfg) None w)"

definition Discovery_Close :: "'p cenv \<Rightarrow> info_list \<Rightarrow> 'p world \<Rightarrow> info_list \<times> 'p world" where
  "Discovery_Close E d w = Info_Free E d w"

definition Descriptors :: "info_list \<Rightarrow> fi_info list" where
  "Descriptors d = Entries d"

definition Discovery_SupportsEndpointType :: "fi_hdr \<Rightarrow> info_list \<Rightarrow> int \<Rightarrow> bool" where
  "Discovery_SupportsEndpointType H d t \<longleftrightarrow> list_ex (\<lambda>e. entry_EndpointType H e = t) (Descriptors d)"

definition Discover ::
  "'p cenv \<Rightarrow> ver_api \<Rightarrow> DiscoverOption list \<Rightarrow> 'p world \<Rightarrow> Info list result \<times> 'p world" where
  "Discover E A opts =
     try_act (DiscoverDescriptors E A opts)
       (\<lambda>e w. (Inl e, w))
       (\<lambda>d w. (Inr (map (infoFromEntry (hdr E) A) (Descriptors d)), snd (Discovery_Close E d w)))"

text \<open>A domain value: its wrapper cell and the attributes it was opened with.\<close>

record godomain =
  gd_ref :: nat
  gd_mrMode :: uint64
  gd_mrKeySize :: nat
  gd_mrIovLimit :: nat

definition OpenFabric :: "'p cenv \<Rightarrow> fi_info \<Rightarrow> 'p world \<Rightarrow> nat result \<times> 'p world" where
  "OpenFabric E d = wrap_open KFabric (capi_OpenFabric E (Some d))"

definition OpenDomain :: "'p cenv \<Rightarrow> fi_info \<Rightarrow> nat \<Rightarrow> 'p world \<Rightarrow> godomain result \<times> 'p world" where
  "OpenDomain E d fabric =
     with_handle fabric Inl (ErrInvalidHandle ''fabric'')
       (\<lambda>f. try_act (wrap_open KDomain (capi_OpenDomain E f (Some d)))
              (\<lambda>e w. (Inl e, w))
              (\<lambda>i w. (Inr \<lparr>gd_ref = i, gd_mrMode = MRMode d, gd_mrKeySize = MRKeySize d,
                           gd_mrIovLimit = MRIovLimit d\<rparr>, w)))"

definition Fabric_Close :: "'p cenv \<Rightarrow> nat \<Rightarrow> 'p world \<Rightarrow> goerr option \<times> 'p world" where
  "Fabric_Close E = close_wrapper (capi_Fabric_Close E)"

definition Domain_Close :: "'p cenv \<Rightarrow> godomain \<Rightarrow> 'p world \<Rightarrow> goerr option \<times> 'p world" where
  "Domain_Close E d = close_wrapper (capi_Domain_Close E) (gd_ref d)"

definition FormatInfo :: "fi_hdr \<Rightarrow> Info \<Rightarrow> string" where
  "FormatInfo H i = ''provider='' @ i_Provider i @ '' fabric='' @ i_Fabric i @ '' domain='' @ i_Domain i @
     '' endpoint='' @ EndpointType_String H (i_Endpoint i)"

section \<open>Hints\<close>

text \<open>The descriptor a configuration asks for: every field the caller set, zero elsewhere.\<close>

definition hint_of :: "discoverConfig \<Rightarrow> fi_info" where
  "hint_of c =
     \<lparr>fi_caps = (case dc_caps c of None \<Rightarrow> 0 | Some m \<Rightarrow> m),
      fi_mode = (case dc_mode c of None \<Rightarrow> 0 | Some m \<Rightarrow> m),
      fi_ep_type = Some (case dc_endpointType c of None \<Rightarrow> 0 | Some t \<Rightarrow> t),
      fi_fabric_attr = Some \<lparr>fa_prov_name = c_string (dc_provider c), fa_name = c_string (dc_fabric c),
                             fa_prov_version = 0, fa_api_version = 0\<rparr>,
      fi_domain_attr = Some \<lparr>da_name = c_string (dc_domain c), da_mr_mode = 0, da_mr_key_size = 0,
                             da_mr_iov_limit = 0\<rparr>,
      fi_inject_size = Some 0\<rparr>"

section \<open>The ledger of discovery\<close>

lemma ledger_ccall_open:
  assumes "opens c = Some k"
  shows "ledger E (snd (ccall E c w)) h = ledger E w h +
    (if ErrorFromStatus (hdr E) (r_ret (fst (ccall E c w))) op = None
     then tally k (r_ptr (fst (ccall E c w))) h else 0)"
  using ErrorFromStatus_None_op [of "hdr E" "r_ret (fst (ccall E c w))" op "[]"] assms
  by (simp add: ledger_def delta_opens)

lemma ledger_freeinfo [simp]:
  "ledger E (snd (ccall E (C_freeinfo p) w)) h = ledger E w h - tally KInfo p h"
  by (simp add: ledger_def)

lemma ledger_Info_Free:
  "ledger E (snd (Info_Free E il w)) h =
     ledger E w h - (if il_owns il then tally KInfo (il_ptr il) h else 0)"
  by (simp add: Info_Free_def)

lemma ledger_AllocInfo:
  "ledger E (snd (AllocInfo E w)) h = ledger E w h + tally KInfo (il_ptr (fst (AllocInfo E w))) h"
  by (simp add: AllocInfo_def ledger_def split_beta)

lemma AllocInfo_owns [simp]: "il_owns (fst (AllocInfo E w))"
  by (simp add: AllocInfo_def split_beta)

lemma ledger_GetInfo:
  "ledger E (snd (capi_GetInfo E A ver node service flags hints w)) h =
     ledger E w h + (case fst (capi_GetInfo E A ver node service flags hints w) of
                       Inl _ \<Rightarrow> 0 | Inr il \<Rightarrow> tally KInfo (il_ptr il) h)"
  by (auto simp: capi_GetInfo_def Let_def split_beta as_sum_def split: option.split
      simp: ledger_ccall_open [where k = KInfo and op = "''fi_getinfo''"])

lemma GetInfo_owns: "fst (capi_GetInfo E A ver node service flags hints w) = Inr il \<Longrightarrow> il_owns il"
  by (auto simp: capi_GetInfo_def Let_def split_beta as_sum_def split: option.splits)

lemma upd_head_ptr [simp]: "il_ptr (upd_head f il) = il_ptr il" "il_owns (upd_head f il) = il_owns il"
  by (simp_all add: upd_head_def split: list.split)

lemma applyHints_ptr [simp]: "il_ptr (applyHints c il) = il_ptr il" "il_owns (applyHints c il) = il_owns il"
  by (simp_all add: applyHints_def Let_def SetProvider_def SetFabricName_def SetDomainName_def
      SetEndpointType_def SetCaps_def SetMode_def split: option.split)

lemma ledger_DiscoverDescriptors:
  "ledger E (snd (DiscoverDescriptors E A opts w)) h =
     ledger E w h + (case fst (DiscoverDescriptors E A opts w) of
                       Inl _ \<Rightarrow> 0 | Inr d \<Rightarrow> tally KInfo (il_ptr d) h)"
  by (simp add: DiscoverDescriptors_def Let_def split_beta ledger_Info_Free ledger_GetInfo ledger_AllocInfo
      split: option.split sum.split)

lemma DiscoverDescriptors_owns: "fst (DiscoverDescriptors E A opts w) = Inr d \<Longrightarrow> il_owns d"
  by (auto simp: DiscoverDescriptors_def Let_def split_beta split: option.splits if_splits dest: GetInfo_owns)

section \<open>Properties\<close>

text \<open>
  The hints discovery sends are exactly what the options asked for: each field that was
  set, whatever the order of the options, and zero elsewhere. Without memory for the hints the
  filter is silently dropped.
\<close>

theorem applyHints_exact:
  "applyHints c \<lparr>il_ptr = p, il_nodes = [zero_info], il_owns = True\<rparr> =
     \<lparr>il_ptr = p, il_nodes = [if p = NULL then zero_info else hint_of c], il_owns = True\<rparr>"
  by (cases "dc_endpointType c"; cases "dc_caps c"; cases "dc_mode c")
    (simp_all add: applyHints_def needsHints_def Let_def SetProvider_def SetFabricName_def SetDomainName_def
      SetEndpointType_def SetCaps_def SetMode_def upd_head_def hint_of_def zero_info_def
      empty_fabric_attr_def empty_domain_attr_def ensureFabricAttr_def ensureDomainAttr_def c_string_def)

text \<open>
  Claim C39. \<open>Discover\<close> frees every descriptor list it obtains, the hints included, once and on every
  path: for any behaviour of the library, the ledger of native objects is what it was.
\<close>

theorem Discover_balanced: "ledger E (snd (Discover E A opts w)) h = ledger E w h"
proof (cases "DiscoverDescriptors E A opts w")
  case (Pair r w')
  have led: "ledger E w' h = ledger E w h + (case r of Inl _ \<Rightarrow> 0 | Inr d \<Rightarrow> tally KInfo (il_ptr d) h)"
    using ledger_DiscoverDescriptors [of E A opts w h] Pair by simp
  show ?thesis
  proof (cases r)
    case (Inr d)
    then have "il_owns d" using DiscoverDescriptors_owns [of E A opts w d] Pair by simp
    with Inr led Pair show ?thesis
      by (simp add: Discover_def try_act_def Discovery_Close_def ledger_Info_Free)
  qed (use led Pair in \<open>simp add: Discover_def try_act_def\<close>)
qed

end
