(* ===== verification/Telemetry.thy ===== *)
theory Telemetry
  imports Discovery
begin

text \<open>
  Logging, tracing and metrics of the client (\<open>client/client.go\<close>): which event is sent to which
  of the four observers a client can have (\<open>Logger\<close>, \<open>StructuredLogger\<close>, \<open>Tracer\<close>, \<open>MetricHook\<close>),
  with which text and attributes. The observers are the caller's objects, named by numbers; what
  they are sent is the list of \<open>tele\<close> values a function returns. \<open>strerror\<close> is \<open>fi_strerror\<close>.
\<close>

section \<open>Text of values\<close>

definition show_int :: "int \<Rightarrow> string" where
  "show_int i = (if i < 0 then ''-'' @ show_nat (nat (- i)) else show_nat (nat i))"

definition hex_digit :: "nat \<Rightarrow> char" where
  "hex_digit d = char_of (if d < 10 then 48 + d else 87 + d)"

fun show_hex :: "nat \<Rightarrow> string" where
  "show_hex n = (if n < 16 then [hex_digit n] else show_hex (n div 16) @ [hex_digit (n mod 16)])"

declare show_hex.simps [simp del]

text \<open>\<open>Error()\<close> of every error value of the program.\<close>

fun sentinel_text :: "sentinel \<Rightarrow> string" where
  "sentinel_text ErrNoCompletion = ''libfabric: no completion available''"
| "sentinel_text ErrNoEvent = ''libfabric: no event available''"
| "sentinel_text ErrTimeout = ''libfabric: wait timed out''"
| "sentinel_text ErrContextUnknown = ''libfabric: completion context not found''"
| "sentinel_text ErrCapabilityUnsupported = ''libfabric: capability not supported''"
| "sentinel_text ErrInsufficientAccess = ''libfabric: memory region missing required access''"
| "sentinel_text ErrClosed = ''libfabric client: closed''"

definition Errno_String :: "fi_hdr \<Rightarrow> (errno \<Rightarrow> string) \<Rightarrow> errno \<Rightarrow> string" where
  "Errno_String H strerror e = (if e = FI_SUCCESS H then ''success'' else strerror e)"

fun OperationKind_String :: "OperationKind \<Rightarrow> string" where
  "OperationKind_String OperationSend = ''send''"
| "OperationKind_String OperationReceive = ''receive''"

definition OperationError_Error :: "fi_hdr \<Rightarrow> (errno \<Rightarrow> string) \<Rightarrow> operation_error \<Rightarrow> string" where
  "OperationError_Error H strerror e =
     ''libfabric '' @ OperationKind_String (oe_Kind e) @ '' completion error: '' @ Errno_String H strerror (oe_Errno e) @
     '' (provider='' @ show_int (oe_ProviderErr e) @ '' flags=0x'' @ show_hex (unat (oe_Flags e)) @
     '' len='' @ show_nat (unat (oe_Length e)) @ '')''"

fun error_text :: "fi_hdr \<Rightarrow> (errno \<Rightarrow> string) \<Rightarrow> goerr \<Rightarrow> string" where
  "error_text H strerror (Errno e) = Errno_String H strerror e"
| "error_text H strerror (Sentinel s) = sentinel_text s"
| "error_text H strerror (Msg m) = m"
| "error_text H strerror (Wrap s e) = s @ '': '' @ error_text H strerror e"
| "error_text H strerror (ErrInvalidHandle r) = ''invalid or closed '' @ r @ '' handle''"
| "error_text H strerror (OperationError oe) = OperationError_Error H strerror oe"
| "error_text H strerror (CtxErr Canceled) = ''context canceled''"
| "error_text H strerror (CtxErr DeadlineExceeded) = ''context deadline exceeded''"

text \<open>The values that are logged (Go's \<open>any\<close>), and \<open>fmt.Sprint\<close> of them.\<close>

datatype fval = FStr string | FInt int | FUint uint64 | FErr goerr

fun sprint :: "fi_hdr \<Rightarrow> (errno \<Rightarrow> string) \<Rightarrow> fval \<Rightarrow> string" where
  "sprint H strerror (FStr s) = s"
| "sprint H strerror (FInt i) = show_int i"
| "sprint H strerror (FUint u) = show_nat (unat u)"
| "sprint H strerror (FErr e) = error_text H strerror e"

section \<open>Observers\<close>

record Config =
  cf_Provider :: string
  cf_EndpointType :: int
  cf_Timeout :: int
  cf_MRPoolSize :: int
  cf_MRPoolCapacity :: int
  cf_MRPoolAccess :: uint64
  cf_Node :: string
  cf_Service :: string
  cf_Logger :: "nat option"
  cf_StructuredLogger :: "nat option"
  cf_Tracer :: "nat option"
  cf_Metrics :: "nat option"

text \<open>
  \<open>structured\<close> of \<open>Dial\<close>, \<open>Connect\<close> and \<open>Listen\<close>: the structured logger, or the plain one if it
  implements the interface (\<open>implements\<close>, the type assertion).
\<close>

definition structured_of :: "(nat \<Rightarrow> bool) \<Rightarrow> nat option \<Rightarrow> nat option \<Rightarrow> nat option" where
  "structured_of implements sl logger =
     (case sl of
        Some s \<Rightarrow> Some s
      | None \<Rightarrow> (case logger of None \<Rightarrow> None | Some l \<Rightarrow> if implements l then Some l else None))"

record observers =
  ob_cfg :: Config
  ob_logger :: "nat option"
  ob_structured :: "nat option"
  ob_tracer :: "nat option"
  ob_metrics :: "nat option"

type_synonym logField = "string \<times> fval"
type_synonym attrs = "string \<rightharpoonup> string"

text \<open>The calls of the \<open>MetricHook\<close> interface.\<close>

datatype metric =
    DispatcherStarted attrs
  | DispatcherStopped attrs
  | DispatcherCQError string goerr attrs
  | SendCompleted attrs
  | SendFailed goerr attrs
  | ReceiveCompleted attrs
  | ReceiveFailed goerr attrs

datatype tele =
    TDebugw string "logField list"
  | TDebugf string
  | TSpanStart string "logField list"
  | TSpanEvent string "logField list"
  | TSpanError goerr
  | TSpanEnd "goerr option"
  | TMetric metric

definition named :: "logField list \<Rightarrow> logField list" where
  "named fs = filter (\<lambda>f. fst f \<noteq> '''') fs"

definition metricAttrs :: "fi_hdr \<Rightarrow> (errno \<Rightarrow> string) \<Rightarrow> Config \<Rightarrow> logField list \<Rightarrow> attrs" where
  "metricAttrs H strerror cfg fs =
     (let a1 = [''endpoint_type'' \<mapsto> EndpointType_String H (cf_EndpointType cfg)];
          a2 = (if cf_Provider cfg \<noteq> '''' then a1(''provider'' \<mapsto> cf_Provider cfg) else a1);
          a3 = (if cf_Node cfg \<noteq> '''' then a2(''node'' \<mapsto> cf_Node cfg) else a2);
          a4 = (if cf_Service cfg \<noteq> '''' then a3(''service'' \<mapsto> cf_Service cfg) else a3)
      in fold (\<lambda>f a. if fst f = '''' then a else a(fst f \<mapsto> sprint H strerror (snd f))) fs a4)"

definition logDispatcherEvent ::
  "fi_hdr \<Rightarrow> (errno \<Rightarrow> string) \<Rightarrow> observers \<Rightarrow> string \<Rightarrow> logField list \<Rightarrow> tele list" where
  "logDispatcherEvent H strerror ob event fs =
     (if ob_structured ob \<noteq> None
      then [TDebugw ''libfabric client dispatcher'' ((''event'', FStr event) # named fs)]
      else if ob_logger ob = None then []
      else [TDebugf (''client dispatcher '' @ event @
              concat (map (\<lambda>f. '' '' @ fst f @ ''='' @ sprint H strerror (snd f)) (named fs)))])"

definition logf :: "observers \<Rightarrow> string \<Rightarrow> tele list" where
  "logf ob text = (if ob_logger ob = None then [] else [TDebugf text])"

text \<open>The seven \<open>metric...\<close> methods: nothing without a hook, else one call with the attributes.\<close>

definition send_metric ::
  "fi_hdr \<Rightarrow> (errno \<Rightarrow> string) \<Rightarrow> observers \<Rightarrow> (attrs \<Rightarrow> metric) \<Rightarrow> logField list \<Rightarrow> tele list" where
  "send_metric H strerror ob mk fs =
     (if ob_metrics ob = None then [] else [TMetric (mk (metricAttrs H strerror (ob_cfg ob) fs))])"

text \<open>Spans: \<open>None\<close> is the nil span of a client without a tracer.\<close>

definition attributesFromFields :: "logField list \<Rightarrow> logField list" where
  "attributesFromFields fs = named fs"

definition spanAddEvent :: "nat option \<Rightarrow> string \<Rightarrow> logField list \<Rightarrow> tele list" where
  "spanAddEvent span name fs = (if span = None then [] else [TSpanEvent name (attributesFromFields fs)])"

definition spanRecordError :: "nat option \<Rightarrow> goerr option \<Rightarrow> tele list" where
  "spanRecordError span err = (case (span, err) of (Some _, Some e) \<Rightarrow> [TSpanError e] | _ \<Rightarrow> [])"

definition startDispatcherSpan :: "fi_hdr \<Rightarrow> observers \<Rightarrow> nat option \<times> tele list" where
  "startDispatcherSpan H ob =
     (case ob_tracer ob of
        None \<Rightarrow> (None, [])
      | Some t \<Rightarrow>
          (Some t,
           [TSpanStart ''libfabric-client-dispatcher''
              ([(''component'', FStr ''libfabric-client''),
                (''endpoint_type'', FStr (EndpointType_String H (cf_EndpointType (ob_cfg ob))))] @
               (if cf_Provider (ob_cfg ob) \<noteq> '''' then [(''provider'', FStr (cf_Provider (ob_cfg ob)))] else []) @
               (if cf_Node (ob_cfg ob) \<noteq> '''' then [(''node'', FStr (cf_Node (ob_cfg ob)))] else []) @
               (if cf_Service (ob_cfg ob) \<noteq> '''' then [(''service'', FStr (cf_Service (ob_cfg ob)))] else []))]))"

definition finishDispatcherSpan :: "nat option \<Rightarrow> goerr option \<Rightarrow> tele list" where
  "finishDispatcherSpan span err = (if span = None then [] else [TSpanEnd err])"

definition recordDispatcherFailure ::
  "fi_hdr \<Rightarrow> (errno \<Rightarrow> string) \<Rightarrow> observers \<Rightarrow> nat option \<Rightarrow> string \<Rightarrow> goerr option \<Rightarrow> tele list" where
  "recordDispatcherFailure H strerror ob span event err =
     (case err of
        None \<Rightarrow> []
      | Some e \<Rightarrow>
          (let fs = [(''error'', FErr e)]
           in logDispatcherEvent H strerror ob event fs @ spanAddEvent span event fs @
              spanRecordError span (Some e) @ send_metric H strerror ob (DispatcherCQError event e) fs))"

text \<open>The start of \<open>dispatch\<close>, and its deferred end.\<close>

definition dispatch_started :: "fi_hdr \<Rightarrow> (errno \<Rightarrow> string) \<Rightarrow> observers \<Rightarrow> nat option \<times> tele list" where
  "dispatch_started H strerror ob =
     (case startDispatcherSpan H ob of
        (span, t) \<Rightarrow>
          (let fs = (''endpoint_type'', FStr (EndpointType_String H (cf_EndpointType (ob_cfg ob)))) #
                 (if cf_Provider (ob_cfg ob) \<noteq> '''' then [(''provider'', FStr (cf_Provider (ob_cfg ob)))] else [])
           in (span, t @ logDispatcherEvent H strerror ob ''start'' fs @ spanAddEvent span ''start'' fs @
                 send_metric H strerror ob DispatcherStarted fs)))"

definition dispatch_stopped ::
  "fi_hdr \<Rightarrow> (errno \<Rightarrow> string) \<Rightarrow> observers \<Rightarrow> nat option \<Rightarrow> goerr option \<Rightarrow> tele list" where
  "dispatch_stopped H strerror ob span err =
     (let fs = (case err of
            None \<Rightarrow> [(''status'', FStr ''ok'')]
          | Some e \<Rightarrow> [(''status'', FStr ''error''), (''error'', FErr e)])
      in spanRecordError span err @ logDispatcherEvent H strerror ob ''stop'' fs @
         spanAddEvent span ''stop'' fs @ send_metric H strerror ob DispatcherStopped fs @
         finishDispatcherSpan span err)"

end
