(* ===== verification/Metrics.thy ===== *)
theory Metrics
  imports Telemetry
begin

text \<open>
  The two implementations of \<open>MetricHook\<close>: \<open>client/metrics_otel.go\<close> and
  \<open>client/metrics_prometheus.go\<close>. Meters and registries are third-party objects: creating an
  OpenTelemetry counter and registering a Prometheus vector are parameters. What a hook does with one
  call of the interface is the list of increments it makes.
\<close>

section \<open>Labels and counters\<close>

text \<open>The seven counters both structures have, in the order of their fields.\<close>

datatype counter =
    CDispatcherStarted | CDispatcherStopped | CDispatcherCQError | CSendCompleted | CSendFailed
  | CReceiveCompleted | CReceiveFailed

definition counters :: "counter list" where
  "counters = [CDispatcherStarted, CDispatcherStopped, CDispatcherCQError, CSendCompleted, CSendFailed,
     CReceiveCompleted, CReceiveFailed]"

definition labelEndpointType :: string where "labelEndpointType = ''endpoint_type''"
definition labelProvider :: string where "labelProvider = ''provider''"
definition labelNode :: string where "labelNode = ''node''"
definition labelService :: string where "labelService = ''service''"
definition labelOperation :: string where "labelOperation = ''operation''"
definition labelStatus :: string where "labelStatus = ''status''"
definition labelKind :: string where "labelKind = ''kind''"

lemmas label_defs = labelEndpointType_def labelProvider_def labelNode_def labelService_def labelOperation_def
  labelStatus_def labelKind_def

text \<open>\<open>attrs[key]\<close>: the zero value for a missing key.\<close>

definition attr :: "attrs \<Rightarrow> string \<Rightarrow> string" where
  "attr a k = (case a k of None \<Rightarrow> '''' | Some v \<Rightarrow> v)"

text \<open>A sequence of fallible constructions, stopping at the first error.\<close>

primrec collect :: "('a \<Rightarrow> 's \<Rightarrow> ('e + 'b) \<times> 's) \<Rightarrow> 'a list \<Rightarrow> 's \<Rightarrow> ('e + 'b list) \<times> 's" where
  "collect f [] s = (Inr [], s)"
| "collect f (x # xs) s =
     (case f x s of
        (Inl e, s1) \<Rightarrow> (Inl e, s1)
      | (Inr y, s1) \<Rightarrow>
          (case collect f xs s1 of
             (Inl e, s2) \<Rightarrow> (Inl e, s2)
           | (Inr ys, s2) \<Rightarrow> (Inr (y # ys), s2)))"

lemma collect_length: "collect f xs s = (Inr ys, s') \<Longrightarrow> length ys = length xs"
  by (induction xs arbitrary: s ys) (auto split: prod.splits sum.splits)

lemma collect_all:
  assumes "\<And>x s y s'. x \<in> set xs \<Longrightarrow> f x s = (Inr y, s') \<Longrightarrow> P x y"
  shows "collect f xs s = (Inr ys, s') \<Longrightarrow> list_all2 P xs ys"
  using assms
proof (induction xs arbitrary: s ys)
  case (Cons x xs)
  from Cons.prems(1) obtain y s1 zs where "f x s = (Inr y, s1)" "collect f xs s1 = (Inr zs, s')" "ys = y # zs"
    by (auto split: prod.splits sum.splits)
  with Cons.IH [of s1 zs] Cons.prems(2) show ?case by auto
qed simp

section \<open>OpenTelemetry (client/metrics_otel.go)\<close>

record ('m, 'p) OTelMetricsOptions =
  oo_MeterProvider :: "'p option"
  oo_Meter :: "'m option"
  oo_InstrumentationName :: string
  oo_InstrumentationVersion :: string

record ('m, 'k) OTelMetrics =
  om_meter :: 'm
  om_counters :: "'k list"

fun otel_name :: "counter \<Rightarrow> string" where
  "otel_name CDispatcherStarted = ''libfabric.client.dispatcher.started''"
| "otel_name CDispatcherStopped = ''libfabric.client.dispatcher.stopped''"
| "otel_name CDispatcherCQError = ''libfabric.client.dispatcher.cq_errors''"
| "otel_name CSendCompleted = ''libfabric.client.send.completed''"
| "otel_name CSendFailed = ''libfabric.client.send.failed''"
| "otel_name CReceiveCompleted = ''libfabric.client.receive.completed''"
| "otel_name CReceiveFailed = ''libfabric.client.receive.failed''"

text \<open>
  \<open>Meter\<close> (of a provider) and \<open>Int64Counter\<close> (of a meter) are parameters; the state is the
  telemetry library's own.
\<close>

definition NewOTelMetrics ::
  "'p \<Rightarrow> ('p \<Rightarrow> string \<Rightarrow> string \<Rightarrow> 'm) \<Rightarrow> ('m \<Rightarrow> string \<Rightarrow> 's \<Rightarrow> ('e + 'k) \<times> 's) \<Rightarrow>
   ('m, 'p) OTelMetricsOptions \<Rightarrow> 's \<Rightarrow> ('e + ('m, 'k) OTelMetrics) \<times> 's" where
  "NewOTelMetrics global Meter Int64Counter opts s =
     (let meter =
            (case oo_Meter opts of
               Some m \<Rightarrow> m
             | None \<Rightarrow>
                 Meter (case oo_MeterProvider opts of Some p \<Rightarrow> p | None \<Rightarrow> global)
                   (if oo_InstrumentationName opts = '''' then ''github.com/rocketbitz/libfabric-go/client''
                    else oo_InstrumentationName opts)
                   (oo_InstrumentationVersion opts))
      in case collect (\<lambda>c. Int64Counter meter (otel_name c)) counters s of
           (Inl e, s1) \<Rightarrow> (Inl e, s1)
         | (Inr ks, s1) \<Rightarrow> (Inr \<lparr>om_meter = meter, om_counters = ks\<rparr>, s1))"

definition otelAttrs :: "attrs \<Rightarrow> (string \<times> string) list" where
  "otelAttrs a =
     [(labelEndpointType, attr a labelEndpointType), (labelProvider, attr a labelProvider)] @
     (if attr a labelNode \<noteq> '''' then [(labelNode, attr a labelNode)] else []) @
     (if attr a labelService \<noteq> '''' then [(labelService, attr a labelService)] else [])"

definition otelAttrsWithOperation :: "attrs \<Rightarrow> (string \<times> string) list" where
  "otelAttrsWithOperation a =
     otelAttrs a @
     (if attr a labelOperation \<noteq> '''' then [(labelOperation, attr a labelOperation)] else []) @
     (if attr a labelStatus \<noteq> '''' then [(labelStatus, attr a labelStatus)] else [])"

text \<open>The methods: the counter that is added to, by one, and the attributes of the measurement.\<close>

fun otel_hook :: "metric \<Rightarrow> (counter \<times> (string \<times> string) list) list" where
  "otel_hook (DispatcherStarted a) = [(CDispatcherStarted, otelAttrs a)]"
| "otel_hook (DispatcherStopped a) = [(CDispatcherStopped, otelAttrs a)]"
| "otel_hook (DispatcherCQError k e a) = [(CDispatcherCQError, otelAttrs a @ [(labelKind, k)])]"
| "otel_hook (SendCompleted a) = [(CSendCompleted, otelAttrsWithOperation a)]"
| "otel_hook (SendFailed e a) = [(CSendFailed, otelAttrsWithOperation a)]"
| "otel_hook (ReceiveCompleted a) = [(CReceiveCompleted, otelAttrsWithOperation a)]"
| "otel_hook (ReceiveFailed e a) = [(CReceiveFailed, otelAttrsWithOperation a)]"

section \<open>Prometheus (client/metrics_prometheus.go)\<close>

record CounterVec =
  cv_Namespace :: string
  cv_Subsystem :: string
  cv_Name :: string
  cv_Help :: string
  cv_ConstLabels :: "string \<rightharpoonup> string"
  cv_keys :: "string list"

record 'r PrometheusMetricsOptions =
  po_Registerer :: "'r option"
  po_Namespace :: string
  po_Subsystem :: string
  po_ConstLabels :: "string \<rightharpoonup> string"

record PrometheusMetrics =
  pm_counters :: "CounterVec list"

definition dispatcherLabelKeys :: "string list" where
  "dispatcherLabelKeys = [labelEndpointType, labelProvider, labelNode, labelService]"

definition cqErrorLabelKeys :: "string list" where
  "cqErrorLabelKeys = [labelEndpointType, labelProvider, labelNode, labelService, labelKind]"

definition completionLabelKeys :: "string list" where
  "completionLabelKeys = [labelEndpointType, labelProvider, labelNode, labelService, labelOperation, labelStatus]"

definition failureLabelKeys :: "string list" where
  "failureLabelKeys = [labelEndpointType, labelProvider, labelNode, labelService, labelOperation]"

lemmas key_defs = dispatcherLabelKeys_def cqErrorLabelKeys_def completionLabelKeys_def failureLabelKeys_def

text \<open>Name, help text and label keys of the vectors \<open>NewPrometheusMetrics\<close> builds.\<close>

fun prom_desc :: "counter \<Rightarrow> string \<times> string \<times> string list" where
  "prom_desc CDispatcherStarted =
     (''libfabric_client_dispatcher_started_total'', ''Number of times the dispatcher loop started'', dispatcherLabelKeys)"
| "prom_desc CDispatcherStopped =
     (''libfabric_client_dispatcher_stopped_total'', ''Number of times the dispatcher loop stopped'', dispatcherLabelKeys)"
| "prom_desc CDispatcherCQError =
     (''libfabric_client_dispatcher_cq_errors_total'',
      ''Number of completion queue read errors surfaced by the dispatcher'', cqErrorLabelKeys)"
| "prom_desc CSendCompleted =
     (''libfabric_client_send_completed_total'', ''Number of successful send completions'', completionLabelKeys)"
| "prom_desc CSendFailed =
     (''libfabric_client_send_failed_total'', ''Number of errored send completions'', failureLabelKeys)"
| "prom_desc CReceiveCompleted =
     (''libfabric_client_receive_completed_total'', ''Number of successful receive completions'', completionLabelKeys)"
| "prom_desc CReceiveFailed =
     (''libfabric_client_receive_failed_total'', ''Number of errored receive completions'', failureLabelKeys)"

definition prom_vec :: "'r PrometheusMetricsOptions \<Rightarrow> counter \<Rightarrow> CounterVec" where
  "prom_vec opts c =
     (case prom_desc c of
        (n, h, ks) \<Rightarrow>
          \<lparr>cv_Namespace = po_Namespace opts, cv_Subsystem = po_Subsystem opts, cv_Name = n, cv_Help = h,
           cv_ConstLabels = po_ConstLabels opts, cv_keys = ks\<rparr>)"

text \<open>
  The answer of \<open>Registerer.Register\<close>: registered, already registered (with the existing collector
  if it is a counter vector), or another error.
\<close>

datatype 'e registration = Registered | AlreadyRegistered 'e "CounterVec option" | Refused 'e

definition registerCounterVec ::
  "('r \<Rightarrow> CounterVec \<Rightarrow> 's \<Rightarrow> 'e registration \<times> 's) \<Rightarrow> 'r \<Rightarrow> CounterVec \<Rightarrow> 's \<Rightarrow> ('e + CounterVec) \<times> 's" where
  "registerCounterVec Register reg vec s =
     (case Register reg vec s of
        (Registered, s1) \<Rightarrow> (Inr vec, s1)
      | (AlreadyRegistered e (Some existing), s1) \<Rightarrow> (Inr existing, s1)
      | (AlreadyRegistered e None, s1) \<Rightarrow> (Inl e, s1)
      | (Refused e, s1) \<Rightarrow> (Inl e, s1))"

definition NewPrometheusMetrics ::
  "'r \<Rightarrow> ('r \<Rightarrow> CounterVec \<Rightarrow> 's \<Rightarrow> 'e registration \<times> 's) \<Rightarrow> 'r PrometheusMetricsOptions \<Rightarrow> 's \<Rightarrow>
   ('e + PrometheusMetrics) \<times> 's" where
  "NewPrometheusMetrics DefaultRegisterer Register opts s =
     (let reg = (case po_Registerer opts of Some r \<Rightarrow> r | None \<Rightarrow> DefaultRegisterer)
      in case collect (\<lambda>c. registerCounterVec Register reg (prom_vec opts c)) counters s of
           (Inl e, s1) \<Rightarrow> (Inl e, s1)
         | (Inr vs, s1) \<Rightarrow> (Inr \<lparr>pm_counters = vs\<rparr>, s1))"

definition labels :: "attrs \<Rightarrow> string list \<Rightarrow> attrs" where
  "labels a keys = fold (\<lambda>k l. l(k \<mapsto> attr a k)) keys Map.empty"

text \<open>The methods: the vector incremented, and the labels it is given.\<close>

fun prom_hook :: "metric \<Rightarrow> (counter \<times> attrs) list" where
  "prom_hook (DispatcherStarted a) = [(CDispatcherStarted, labels a dispatcherLabelKeys)]"
| "prom_hook (DispatcherStopped a) = [(CDispatcherStopped, labels a dispatcherLabelKeys)]"
| "prom_hook (DispatcherCQError k e a) = [(CDispatcherCQError, (labels a cqErrorLabelKeys)(labelKind \<mapsto> k))]"
| "prom_hook (SendCompleted a) = [(CSendCompleted, labels a completionLabelKeys)]"
| "prom_hook (SendFailed e a) = [(CSendFailed, labels a failureLabelKeys)]"
| "prom_hook (ReceiveCompleted a) = [(CReceiveCompleted, labels a completionLabelKeys)]"
| "prom_hook (ReceiveFailed e a) = [(CReceiveFailed, labels a failureLabelKeys)]"

section \<open>The contract of a hook\<close>

text \<open>The counter each call of the interface is about.\<close>

fun counter_of :: "metric \<Rightarrow> counter" where
  "counter_of (DispatcherStarted a) = CDispatcherStarted"
| "counter_of (DispatcherStopped a) = CDispatcherStopped"
| "counter_of (DispatcherCQError k e a) = CDispatcherCQError"
| "counter_of (SendCompleted a) = CSendCompleted"
| "counter_of (SendFailed e a) = CSendFailed"
| "counter_of (ReceiveCompleted a) = CReceiveCompleted"
| "counter_of (ReceiveFailed e a) = CReceiveFailed"

fun metric_of :: "tele \<Rightarrow> metric option" where
  "metric_of (TMetric m) = Some m"
| "metric_of _ = None"

text \<open>What a hook has added to a counter after a log of observer calls.\<close>

definition added :: "(metric \<Rightarrow> (counter \<times> 'a) list) \<Rightarrow> counter \<Rightarrow> tele list \<Rightarrow> nat" where
  "added hook c ts = count_list (map fst (concat (map hook (List.map_filter metric_of ts)))) c"

locale metric_hook =
  fixes hook :: "metric \<Rightarrow> (counter \<times> 'a) list"
  assumes once: "map fst (hook m) = [counter_of m]"
begin

lemma adds_once: "added hook c ts = count_list (map counter_of (List.map_filter metric_of ts)) c"
proof (induction ts)
  case (Cons t ts)
  then show ?case
    by (cases "metric_of t") (simp_all add: added_def List.map_filter_def count_list_append_eq once)
qed (simp add: added_def List.map_filter_def)

end

interpretation otel: metric_hook otel_hook
proof
  show "map fst (otel_hook m) = [counter_of m]" for m by (cases m) simp_all
qed

interpretation prom: metric_hook prom_hook
proof
  show "map fst (prom_hook m) = [counter_of m]" for m by (cases m) simp_all
qed

section \<open>Labels\<close>

lemma labels_eq: "labels a keys = (\<lambda>k. if k \<in> set keys then Some (attr a k) else None)"
proof -
  have "fold (\<lambda>k l. l(k \<mapsto> attr a k)) keys l = (\<lambda>k. if k \<in> set keys then Some (attr a k) else l k)" for l
    by (induction keys arbitrary: l) (auto simp: fun_eq_iff)
  then show ?thesis by (simp add: labels_def fun_eq_iff)
qed

lemma dom_labels [simp]: "dom (labels a keys) = set keys"
  by (auto simp: labels_eq dom_def)

text \<open>The label keys each call uses are those its vector is declared with.\<close>

lemma kind_key [simp]: "insert labelKind (set cqErrorLabelKeys) = set cqErrorLabelKeys"
  by (auto simp: cqErrorLabelKeys_def)

lemma prom_keys:
  assumes "prom_hook m = [(c, l)]"
  shows "dom l = set (cv_keys (prom_vec opts c))"
proof -
  have "dom (snd (hd (prom_hook m))) = set (cv_keys (prom_vec opts (fst (hd (prom_hook m)))))"
    by (cases m) (simp_all add: prom_vec_def)
  with assms show ?thesis by simp
qed

lemma labels_distinct:
  "distinct [labelEndpointType, labelProvider, labelNode, labelService, labelOperation, labelStatus, labelKind]"
  by (simp add: label_defs)

lemma otelAttrs_carries: "k \<in> set dispatcherLabelKeys \<Longrightarrow> attr a k \<noteq> '''' \<Longrightarrow> map_of (otelAttrs a) k = Some (attr a k)"
  using labels_distinct by (auto simp: otelAttrs_def dispatcherLabelKeys_def)

lemma otelAttrs_keys: "k \<notin> set dispatcherLabelKeys \<Longrightarrow> map_of (otelAttrs a) k = None"
  by (auto simp: otelAttrs_def dispatcherLabelKeys_def)

lemma otelAttrsWithOperation_carries:
  assumes "k \<in> set completionLabelKeys" and "attr a k \<noteq> ''''"
  shows "map_of (otelAttrsWithOperation a) k = Some (attr a k)"
proof (cases "k \<in> set dispatcherLabelKeys")
  case True
  with otelAttrs_carries [OF this assms(2)] show ?thesis by (simp add: otelAttrsWithOperation_def map_add_def)
next
  case False
  with assms have "k = labelOperation \<or> k = labelStatus" by (auto simp: completionLabelKeys_def dispatcherLabelKeys_def)
  with assms(2) labels_distinct otelAttrs_keys [OF False, of a] show ?thesis
    by (auto simp: otelAttrsWithOperation_def map_add_def)
qed

lemma failure_subset: "k \<in> set failureLabelKeys \<Longrightarrow> k \<in> set completionLabelKeys"
  by (auto simp: failureLabelKeys_def completionLabelKeys_def)

lemma otel_carries:
  assumes "prom_hook m = [(c, l)]" and "otel_hook m = [(d, kvs)]" and "l k = Some v" and "v \<noteq> ''''"
  shows "map_of kvs k = Some v"
proof (cases m)
  case (DispatcherCQError kind e a)
  have kn: "labelKind \<notin> set dispatcherLabelKeys"
    using labels_distinct by (auto simp: dispatcherLabelKeys_def)
  have "k \<in> set dispatcherLabelKeys \<or> k = labelKind"
    using assms(1,3) DispatcherCQError
    by (auto simp: labels_eq cqErrorLabelKeys_def dispatcherLabelKeys_def split: if_splits)
  then show ?thesis
    using assms DispatcherCQError kn otelAttrs_carries [of k a] otelAttrs_keys [OF kn, of a]
    by (auto simp: labels_eq map_add_def split: if_splits)
qed (use assms in \<open>auto simp: labels_eq otelAttrs_carries otelAttrsWithOperation_carries failure_subset split: if_splits\<close>)

text \<open>
  \<open>AlreadyRegisteredError\<close> is returned for a collector with the same descriptor, so with the same
  label names.
\<close>

definition registry_spec :: "('r \<Rightarrow> CounterVec \<Rightarrow> 's \<Rightarrow> 'e registration \<times> 's) \<Rightarrow> bool" where
  "registry_spec Register \<longleftrightarrow>
     (\<forall>r v s e v' s'. Register r v s = (AlreadyRegistered e (Some v'), s') \<longrightarrow> set (cv_keys v') = set (cv_keys v))"

lemma registerCounterVec_keys:
  "registry_spec Register \<Longrightarrow> registerCounterVec Register reg v s = (Inr v', s') \<Longrightarrow> set (cv_keys v') = set (cv_keys v)"
  by (fastforce simp: registerCounterVec_def registry_spec_def split: prod.splits registration.splits option.splits)

lemma NewPrometheusMetrics_keys:
  assumes "registry_spec Register" and "NewPrometheusMetrics dr Register opts s = (Inr p, s')"
  shows "list_all2 (\<lambda>c v. set (cv_keys v) = set (cv_keys (prom_vec opts c))) counters (pm_counters p)"
proof -
  obtain vs where vs: "collect (\<lambda>c. registerCounterVec Register (case po_Registerer opts of Some r \<Rightarrow> r | None \<Rightarrow> dr)
      (prom_vec opts c)) counters s = (Inr vs, s')" "pm_counters p = vs"
    using assms(2) by (auto simp: NewPrometheusMetrics_def Let_def split: prod.splits sum.splits)
  show ?thesis
    unfolding vs(2) by (rule collect_all [OF _ vs(1)]) (rule registerCounterVec_keys [OF assms(1)])
qed

text \<open>The vector a structure keeps for a counter.\<close>

definition vec_of :: "PrometheusMetrics \<Rightarrow> counter \<Rightarrow> CounterVec option" where
  "vec_of p c = map_of (zip counters (pm_counters p)) c"

lemma vec_of_keys:
  assumes "list_all2 (\<lambda>c v. set (cv_keys v) = K c) counters vs"
  shows "\<exists>v. map_of (zip counters vs) c = Some v \<and> set (cv_keys v) = K c"
  using assms by (cases c) (auto simp: counters_def list_all2_Cons1)


text \<open>A registry that accepts everything.\<close>

definition open_registry :: "unit \<Rightarrow> CounterVec \<Rightarrow> nat \<Rightarrow> string registration \<times> nat" where
  "open_registry r v n = (Registered, Suc n)"


end
