(* ===== verification/Contexts.thy ===== *)
theory Contexts
  imports Capi
begin

text \<open>
  Completion contexts (\<open>fi/context.go\<close>): the registry that maps the C pointer handed to
  libfabric back to a Go object, and the life of such an object from allocation to the one
  time it is resolved or released.

  A \<open>*CompletionContext\<close> is the number of its record in \<open>ctxs\<close>. The mutex of the object and
  the atomicity of \<open>sync.Map\<close> and \<open>CompareAndSwap\<close> make each definition one step.
\<close>

section \<open>Operations\<close>

definition cc_new :: "ptr \<Rightarrow> cctx" where
  "cc_new p = \<lparr>cc_ptr = p, cc_value = NilVal, cc_onComplete = [], cc_cleanups = [],
     cc_buffer = NULL, cc_bufCap = 0, cc_closed = False, cc_copyBack = None\<rparr>"

definition NewCompletionContext :: "'p cenv \<Rightarrow> 'p world \<Rightarrow> nat result \<times> 'p world" where
  "NewCompletionContext E w =
     (let c = next_id w
      in case CompletionContextAlloc E (OCtx c) w of
           (p, w') \<Rightarrow>
             if p = NULL then (Inl (Msg ''libfabric: unable to allocate completion context''), w')
             else (Inr c, w'\<lparr>ctxs := (ctxs w')(c \<mapsto> cc_new p), registry := (registry w')(p \<mapsto> c),
                             next_id := Suc c\<rparr>))"

text \<open>Access to a live Go object; the record of a context is never removed.\<close>

definition upd_ctx :: "nat \<Rightarrow> (cctx \<Rightarrow> cctx) \<Rightarrow> 'p world \<Rightarrow> 'p world" where
  "upd_ctx c f w =
     (case ctxs w c of None \<Rightarrow> w | Some x \<Rightarrow> w\<lparr>ctxs := (ctxs w)(c \<mapsto> f x)\<rparr>)"

definition Value :: "nat \<Rightarrow> 'p world \<Rightarrow> any_val" where
  "Value c w = (case ctxs w c of None \<Rightarrow> NilVal | Some x \<Rightarrow> cc_value x)"

definition SetValue :: "nat \<Rightarrow> any_val \<Rightarrow> 'p world \<Rightarrow> 'p world" where
  "SetValue c v w = upd_ctx c (\<lambda>x. x\<lparr>cc_value := v\<rparr>) w"

definition Pointer :: "nat \<Rightarrow> 'p world \<Rightarrow> ptr" where
  "Pointer c w = (case ctxs w c of None \<Rightarrow> NULL | Some x \<Rightarrow> cc_ptr x)"

definition AddOnComplete :: "nat \<Rightarrow> nat option \<Rightarrow> 'p world \<Rightarrow> 'p world" where
  "AddOnComplete c fn w =
     (case fn of None \<Rightarrow> w
      | Some f \<Rightarrow> upd_ctx c (\<lambda>x. x\<lparr>cc_onComplete := cc_onComplete x @ [f]\<rparr>) w)"

definition AddCleanup :: "nat \<Rightarrow> nat option \<Rightarrow> 'p world \<Rightarrow> 'p world" where
  "AddCleanup c fn w =
     (case fn of None \<Rightarrow> w
      | Some f \<Rightarrow> upd_ctx c (\<lambda>x. x\<lparr>cc_cleanups := cc_cleanups x @ [f]\<rparr>) w)"

definition setCopyBack :: "nat \<Rightarrow> slice \<Rightarrow> 'p world \<Rightarrow> 'p world" where
  "setCopyBack c buf w = upd_ctx c (\<lambda>x. x\<lparr>cc_copyBack := Some buf\<rparr>) w"

definition IsReleased :: "nat \<Rightarrow> 'p world \<Rightarrow> bool" where
  "IsReleased c w = (case ctxs w c of None \<Rightarrow> False | Some x \<Rightarrow> cc_closed x)"

text \<open>
  \<open>release\<close>, in the order of the code: mark closed (once), leave the registry, run the
  completion callbacks first-in first-out, copy the staging buffer back to the caller, free
  it, run the cleanups last-in first-out, free the C pointer.
\<close>

definition release_ctx :: "nat \<Rightarrow> bool \<Rightarrow> bool \<Rightarrow> 'p world \<Rightarrow> 'p world" where
  "release_ctx c runComplete remove w =
     (case ctxs w c of
        None \<Rightarrow> w
      | Some x \<Rightarrow>
          if cc_closed x then w
          else
            let w1 = (if remove then w\<lparr>registry := (registry w)(cc_ptr x := None)\<rparr> else w);
                w2 = w1\<lparr>ctxs := (ctxs w1)(c \<mapsto> x\<lparr>cc_closed := True, cc_onComplete := [],
                        cc_cleanups := [], cc_copyBack := None, cc_buffer := NULL,
                        cc_bufCap := (if cc_buffer x = NULL then cc_bufCap x else 0)\<rparr>)\<rparr>;
                w3 = (if runComplete
                      then w2\<lparr>ran := ran w2 @ map (RanComplete c) (cc_onComplete x)\<rparr> else w2);
                w4 = (case cc_copyBack x of
                        Some s \<Rightarrow> if cc_buffer x \<noteq> NULL
                                   then Memcpy (sl_loc s) (CMem (cc_buffer x)) (sl_len s) w3 else w3
                      | None \<Rightarrow> w3);
                w5 = (if cc_buffer x \<noteq> NULL then FreeBytes (cc_buffer x) w4 else w4);
                w6 = w5\<lparr>ran := ran w5 @ map (RanCleanup c) (rev (cc_cleanups x))\<rparr>
            in CompletionContextFree (cc_ptr x) w6)"

definition Release :: "nat \<Rightarrow> 'p world \<Rightarrow> 'p world" where
  "Release c w = release_ctx c False True w"

definition resolveCompletion :: "ptr \<Rightarrow> 'p world \<Rightarrow> nat result \<times> 'p world" where
  "resolveCompletion p w =
     (if p = NULL then (Inl (Sentinel ErrContextUnknown), w)
      else
        (case registry w p of
           None \<Rightarrow> (Inl (Sentinel ErrContextUnknown), w)
         | Some c \<Rightarrow>
             (Inr c, release_ctx c True False (w\<lparr>registry := (registry w)(p := None)\<rparr>))))"

text \<open>
  \<open>ensureBuffer\<close>: a staging buffer of at least \<open>n\<close> bytes, reusing the one it has. \<open>NULL\<close> for
  \<open>n = 0\<close>.
\<close>

definition ensureBuffer :: "'p cenv \<Rightarrow> nat \<Rightarrow> nat \<Rightarrow> 'p world \<Rightarrow> ptr result \<times> 'p world" where
  "ensureBuffer E c n w =
     (if n = 0 then (Inr NULL, w)
      else
        (case ctxs w c of
           None \<Rightarrow> (Inr NULL, w)
         | Some x \<Rightarrow>
             if cc_buffer x \<noteq> NULL \<and> n \<le> cc_bufCap x then (Inr (cc_buffer x), w)
             else
               let w1 = (if cc_buffer x \<noteq> NULL
                         then upd_ctx c (\<lambda>x. x\<lparr>cc_buffer := NULL, cc_bufCap := 0\<rparr>)
                                (FreeBytes (cc_buffer x) w)
                         else w)
               in (case AllocBytes E (OBuf c) n w1 of
                     (b, w2) \<Rightarrow>
                       if b = NULL then (Inl (Msg ''libfabric: unable to allocate context buffer''), w2)
                       else (Inr b, upd_ctx c (\<lambda>x. x\<lparr>cc_buffer := b, cc_bufCap := n\<rparr>) w2))))"

definition ensureContext :: "'p cenv \<Rightarrow> nat option \<Rightarrow> 'p world \<Rightarrow> nat result \<times> 'p world" where
  "ensureContext E ctx w =
     (case ctx of
        Some c \<Rightarrow>
          if IsReleased c w then (Inl (Msg ''libfabric: completion context already released''), w)
          else (Inr c, w)
      | None \<Rightarrow> NewCompletionContext E w)"

section \<open>The invariant\<close>

text \<open>
  \<open>ctx_ok\<close>: an open context is registered under its pointer, owns that pointer's block, and
  owns its staging buffer, which is as large as recorded and large enough for the pending
  copy-back, whose target is Go memory. A closed context has no buffer.
\<close>

definition ctx_mem :: "'p world \<Rightarrow> nat \<Rightarrow> cctx \<Rightarrow> bool" where
  "ctx_mem w c x \<longleftrightarrow>
     cc_ptr x \<noteq> NULL \<and> shape w (cc_ptr x) = Some (OCtx c, 1) \<and>
     (cc_buffer x = NULL \<or> shape w (cc_buffer x) = Some (OBuf c, cc_bufCap x)) \<and>
     (\<forall>s. cc_copyBack x = Some s \<longrightarrow>
        (cc_buffer x = NULL \<or> sl_len s \<le> cc_bufCap x) \<and>
        (\<exists>a. sl_loc s = GoMem a \<and> sl_len s \<le> length (gomem w a)))"

definition ctx_ok :: "'p world \<Rightarrow> nat \<Rightarrow> cctx \<Rightarrow> bool" where
  "ctx_ok w c x \<longleftrightarrow>
     (if cc_closed x
      then cc_buffer x = NULL
      else registry w (cc_ptr x) = Some c \<and> ctx_mem w c x)"

definition ctx_inv :: "'p world \<Rightarrow> bool" where
  "ctx_inv w \<longleftrightarrow>
     \<not> fault w \<and>
     (\<forall>c x. ctxs w c = Some x \<longrightarrow> c < next_id w \<and> ctx_ok w c x) \<and>
     (\<forall>p c. registry w p = Some c \<longrightarrow>
        (\<exists>x. ctxs w c = Some x \<and> \<not> cc_closed x \<and> cc_ptr x = p))"

lemma ctx_invD:
  assumes "ctx_inv w"
  shows "\<not> fault w"
    and "ctxs w c = Some x \<Longrightarrow> c < next_id w"
    and "ctxs w c = Some x \<Longrightarrow> ctx_ok w c x"
    and "registry w p = Some c \<Longrightarrow> \<exists>x. ctxs w c = Some x \<and> \<not> cc_closed x \<and> cc_ptr x = p"
  using assms by (auto simp: ctx_inv_def)

section \<open>Effects of the operations\<close>

lemma upd_ctx_simps [simp, frame]:
  "shape (upd_ctx c f w) = shape w"
  "fault (upd_ctx c f w) = fault w"
  "gomem (upd_ctx c f w) = gomem w"
  "handles (upd_ctx c f w) = handles w"
  "next_id (upd_ctx c f w) = next_id w"
  "registry (upd_ctx c f w) = registry w"
  "regions (upd_ctx c f w) = regions w"
  "ran (upd_ctx c f w) = ran w"
  "calls (upd_ctx c f w) = calls w"
  by (simp_all add: upd_ctx_def split: option.split)

lemma ctxs_upd_ctx:
  "ctxs (upd_ctx c f w) = (case ctxs w c of None \<Rightarrow> ctxs w | Some x \<Rightarrow> (ctxs w)(c \<mapsto> f x))"
  by (simp add: upd_ctx_def split: option.split)

lemma Free_simps [simp]:
  "p \<noteq> NULL \<Longrightarrow> FreeBytes p w = c_free p w"
  "p \<noteq> NULL \<Longrightarrow> CompletionContextFree p w = c_free p w"
  "FreeBytes NULL w = w"
  by (simp_all add: FreeBytes_def CompletionContextFree_def)

lemma NewCompletionContext_cases:
  assumes "NewCompletionContext E w = (r, w')" and "malloc_spec E"
  obtains (failed) "r = Inl (Msg ''libfabric: unable to allocate completion context'')"
      "shape w' = shape w" "ctxs w' = ctxs w" "registry w' = registry w" "next_id w' = next_id w"
      "fault w' = fault w" "gomem w' = gomem w" "handles w' = handles w" "regions w' = regions w"
      "ran w' = ran w" "calls w' = calls w"
  | (made) p where "r = Inr (next_id w)" "p \<noteq> NULL" "shape w p = None"
      "shape w' = (shape w)(p \<mapsto> (OCtx (next_id w), 1))"
      "ctxs w' = (ctxs w)(next_id w \<mapsto> cc_new p)"
      "registry w' = (registry w)(p \<mapsto> next_id w)" "next_id w' = Suc (next_id w)"
      "fault w' = fault w" "gomem w' = gomem w" "handles w' = handles w" "regions w' = regions w"
      "ran w' = ran w" "calls w' = calls w"
proof (cases "fst (c_malloc E (OCtx (next_id w)) 1 w) = NULL")
  case True
  with assms(1) show ?thesis
    by (intro failed)
      (auto simp: NewCompletionContext_def CompletionContextAlloc_def Let_def split_beta shape_c_malloc)
next
  case False
  with assms(1) c_malloc_fresh [OF assms(2) False] show ?thesis
    by (intro made [of "fst (c_malloc E (OCtx (next_id w)) 1 w)"])
      (auto simp: NewCompletionContext_def CompletionContextAlloc_def Let_def split_beta shape_c_malloc)
qed

text \<open>An unregistered address of an unallocated block: nothing to forget.\<close>

lemma registry_fresh:
  assumes "ctx_inv w" and "shape w p = None"
  shows "registry w p = None"
proof (cases "registry w p")
  case (Some c)
  with ctx_invD(4) [OF assms(1)] obtain x where x: "ctxs w c = Some x" "\<not> cc_closed x" "cc_ptr x = p"
    by blast
  then have "shape w p = Some (OCtx c, 1)"
    using ctx_invD(3) [OF assms(1) x(1)] by (simp add: ctx_ok_def ctx_mem_def)
  with assms(2) show ?thesis by simp
qed simp

text \<open>Whether the invariant survives is decided by the parts it mentions.\<close>

lemma ctx_inv_cong:
  assumes "ctx_inv w" and "shape w' = shape w" and "ctxs w' = ctxs w" and "registry w' = registry w"
    and "next_id w \<le> next_id w'" and "fault w' = fault w"
    and "\<And>a. length (gomem w' a) = length (gomem w a)"
  shows "ctx_inv w'"
  using assms unfolding ctx_inv_def ctx_ok_def ctx_mem_def by (fastforce intro: less_le_trans)

text \<open>
  The result of releasing an open context: its blocks are gone, its record is closed, and
  nothing else moved except the caller's bytes (same length) and the callback log.
\<close>

lemma release_ctx_effect:
  fixes w :: "'p world" and runComplete remove :: bool and a :: nat
  assumes nf: "\<not> fault w" and ok: "ctx_mem w c x" and x: "ctxs w c = Some x" "\<not> cc_closed x"
  defines "w' \<equiv> release_ctx c runComplete remove w"
  shows "shape w' = (shape w)(cc_buffer x := (if cc_buffer x = NULL then shape w NULL else None), cc_ptr x := None)"
    and "ctxs w' = (ctxs w)(c \<mapsto> x\<lparr>cc_closed := True, cc_onComplete := [], cc_cleanups := [],
           cc_copyBack := None, cc_buffer := NULL,
           cc_bufCap := (if cc_buffer x = NULL then cc_bufCap x else 0)\<rparr>)"
    and "registry w' = (if remove then (registry w)(cc_ptr x := None) else registry w)"
    and "next_id w' = next_id w" and "handles w' = handles w" and "regions w' = regions w"
    and "calls w' = calls w" and "\<not> fault w'"
    and "length (gomem w' a) = length (gomem w a)"
    and "ran w' = ran w @ (if runComplete then map (RanComplete c) (cc_onComplete x) else []) @
           map (RanCleanup c) (rev (cc_cleanups x))"
proof -
  have p: "cc_ptr x \<noteq> NULL" "shape w (cc_ptr x) = Some (OCtx c, 1)"
    using ok by (auto simp: ctx_mem_def)
  have b: "cc_buffer x \<noteq> NULL \<Longrightarrow> shape w (cc_buffer x) = Some (OBuf c, cc_bufCap x)"
    using ok by (auto simp: ctx_mem_def)
  have ne: "cc_buffer x \<noteq> NULL \<Longrightarrow> cc_buffer x \<noteq> cc_ptr x"
    using p(2) b by auto
  have copy: "fault (Memcpy (sl_loc s) (CMem (cc_buffer x)) (sl_len s) v) = fault v \<and>
      length (gomem (Memcpy (sl_loc s) (CMem (cc_buffer x)) (sl_len s) v) a) = length (gomem v a)"
    if "cc_copyBack x = Some s" "cc_buffer x \<noteq> NULL" "shape v = shape w" "gomem v = gomem w" for s v
  proof -
    from ok that obtain d where d: "sl_loc s = GoMem d" "sl_len s \<le> length (gomem v d)"
      "sl_len s \<le> cc_bufCap x"
      by (auto simp: ctx_mem_def)
    have "holds_bytes v (CMem (cc_buffer x)) (sl_len s)"
      using b [OF that(2)] that(3) d(3) by simp
    then show ?thesis
      using d by (auto simp: fault_Memcpy) (auto simp: Memcpy_def store_def load_def split: option.split)
  qed
  show "shape w' = (shape w)(cc_buffer x := (if cc_buffer x = NULL then shape w NULL else None), cc_ptr x := None)"
    using x p by (auto simp: w'_def release_ctx_def Let_def split: option.split)
  show "ctxs w' = (ctxs w)(c \<mapsto> x\<lparr>cc_closed := True, cc_onComplete := [], cc_cleanups := [],
           cc_copyBack := None, cc_buffer := NULL,
           cc_bufCap := (if cc_buffer x = NULL then cc_bufCap x else 0)\<rparr>)"
    "registry w' = (if remove then (registry w)(cc_ptr x := None) else registry w)"
    "next_id w' = next_id w" "handles w' = handles w" "regions w' = regions w" "calls w' = calls w"
    "ran w' = ran w @ (if runComplete then map (RanComplete c) (cc_onComplete x) else []) @
           map (RanCleanup c) (rev (cc_cleanups x))"
    using x p by (auto simp: w'_def release_ctx_def Let_def split: option.split)
  show "\<not> fault w'"
    using x p b ne nf
    by (auto simp: w'_def release_ctx_def Let_def copy [THEN conjunct1] split: option.split)
  show "length (gomem w' a) = length (gomem w a)"
    using x p
    by (auto simp: w'_def release_ctx_def Let_def copy [THEN conjunct2] split: option.split)
qed

section \<open>Every operation keeps the invariant\<close>

definition open_ctx :: "'p world \<Rightarrow> nat \<Rightarrow> bool" where
  "open_ctx w c \<longleftrightarrow> (\<exists>x. ctxs w c = Some x \<and> \<not> cc_closed x)"

lemma ctx_inv_open:
  assumes "ctx_inv w" and "ctxs w c = Some x" and "\<not> cc_closed x"
  shows "ctx_mem w c x" and "registry w (cc_ptr x) = Some c"
  using ctx_invD(3) [OF assms(1,2)] assms(3) by (simp_all add: ctx_ok_def)

lemma ctx_inv_ccall [simp]: "ctx_inv w \<Longrightarrow> ctx_inv (snd (ccall E c w))"
  by (erule ctx_inv_cong) simp_all

lemma ctx_inv_status_call [simp]: "ctx_inv w \<Longrightarrow> ctx_inv (snd (status_call E c op w))"
  by (erule ctx_inv_cong) simp_all

lemma ctx_inv_new:
  assumes inv: "ctx_inv w" and m: "malloc_spec E" and n: "NewCompletionContext E w = (r, w')"
  shows "ctx_inv w'"
  using n m
proof (cases rule: NewCompletionContext_cases)
  case failed
  with inv show ?thesis by (intro ctx_inv_cong [OF inv]) simp_all
next
  case (made p)
  have fresh: "ctxs w (next_id w) = None"
    using ctx_invD(2) [OF inv, of "next_id w"] by (cases "ctxs w (next_id w)") auto
  have new: "ctx_ok w' (next_id w) (cc_new p)"
    using made by (simp add: ctx_ok_def ctx_mem_def cc_new_def)
  have old: "ctx_ok w' c x" if "ctxs w c = Some x" for c x
    using ctx_invD(3) [OF inv that] that made(3-6,9) registry_fresh [OF inv made(3)] fresh
    by (auto simp: ctx_ok_def ctx_mem_def split: if_splits)
  have reg: "\<exists>x. ctxs w' c = Some x \<and> \<not> cc_closed x \<and> cc_ptr x = q"
    if "registry w' q = Some c" for q c
  proof (cases "q = p")
    case True
    with that made show ?thesis by (auto simp: cc_new_def)
  next
    case False
    with that made have "registry w q = Some c" by simp
    with ctx_invD(4) [OF inv] obtain x where "ctxs w c = Some x" "\<not> cc_closed x" "cc_ptr x = q"
      by blast
    with made fresh show ?thesis by auto
  qed
  have "c < next_id w' \<and> ctx_ok w' c x" if "ctxs w' c = Some x" for c x
  proof (cases "c = next_id w")
    case True
    with that made(5,7) new show ?thesis by simp
  next
    case False
    with that made(5) have "ctxs w c = Some x" by simp
    with old ctx_invD(2) [OF inv] made(7) show ?thesis by fastforce
  qed
  moreover have "\<not> fault w'"
    using ctx_invD(1) [OF inv] made by simp
  ultimately show ?thesis
    unfolding ctx_inv_def using reg by blast
qed

lemma ctx_mem_other:
  assumes "ctx_mem w d y" and "d \<noteq> c"
    and "\<And>p. shape w' p = shape w p \<or> shape w p = Some (OCtx c, 1) \<or> (\<exists>n. shape w p = Some (OBuf c, n))"
    and "\<And>a. length (gomem w' a) = length (gomem w a)"
  shows "ctx_mem w' d y"
proof -
  have keep: "shape w' p = shape w p" if "shape w p = Some (own, n)" "own \<noteq> OCtx c" "own \<noteq> OBuf c" for p own n
    using assms(3) [of p] that by auto
  show ?thesis
    using assms(1,2,4) keep [of "cc_ptr y" "OCtx d" 1] keep [of "cc_buffer y" "OBuf d" "cc_bufCap y"]
    by (auto simp: ctx_mem_def)
qed

text \<open>
  Releasing: the general step, for a registry from which the context's pointer is gone after
  it (whether \<open>release\<close> or its caller removed it).
\<close>

lemma ctx_inv_release_ctx:
  assumes inv: "ctx_inv w" and x: "ctxs w c = Some x" "\<not> cc_closed x"
    and w1: "w1 = w\<lparr>registry := rg\<rparr>"
    and rg: "(if remove then rg(cc_ptr x := None) else rg) = (registry w)(cc_ptr x := None)"
  shows "ctx_inv (release_ctx c runComplete remove w1)"
proof -
  note ok = ctx_inv_open [OF inv x]
  have pre: "\<not> fault w1" "ctx_mem w1 c x" "ctxs w1 c = Some x"
    using ctx_invD(1) [OF inv] ok x by (simp_all add: w1 ctx_mem_def)
  let ?w' = "release_ctx c runComplete remove w1"
  note eff = release_ctx_effect [OF pre x(2), of runComplete remove]
  have reg: "registry ?w' = (registry w)(cc_ptr x := None)"
    using eff(3) rg by (cases remove) (simp_all add: w1)
  have shp: "shape ?w' p = shape w p \<or> shape w p = Some (OCtx c, 1) \<or> (\<exists>n. shape w p = Some (OBuf c, n))" for p
    using ok(1) by (auto simp: eff(1) [unfolded w1] w1 ctx_mem_def)
  have len: "length (gomem ?w' a) = length (gomem w a)" for a
    using eff(9) [of a] by (simp add: w1)
  have "ctx_ok ?w' d y" if d: "d \<noteq> c" "ctxs w d = Some y" for d y
  proof (cases "cc_closed y")
    case True
    with ctx_invD(3) [OF inv d(2)] show ?thesis by (simp add: ctx_ok_def)
  next
    case False
    note oky = ctx_inv_open [OF inv d(2) False]
    have "cc_ptr y \<noteq> cc_ptr x"
      using oky(2) ok(2) d(1) by auto
    moreover have "ctx_mem ?w' d y"
      by (rule ctx_mem_other [OF oky(1) d(1) shp len])
    ultimately show ?thesis using oky(2) False by (simp add: ctx_ok_def reg)
  qed
  moreover have "\<exists>y. ctxs ?w' d = Some y \<and> \<not> cc_closed y \<and> cc_ptr y = p"
    if r: "registry ?w' p = Some d" for p d
  proof -
    from r have "p \<noteq> cc_ptr x" "registry w p = Some d" by (auto simp: reg split: if_splits)
    with ctx_invD(4) [OF inv] obtain y where y: "ctxs w d = Some y" "\<not> cc_closed y" "cc_ptr y = p"
      by blast
    with x \<open>p \<noteq> cc_ptr x\<close> have "d \<noteq> c" by auto
    with y show ?thesis by (simp add: eff(2) [unfolded w1] w1)
  qed
  ultimately show ?thesis
    using ctx_invD(2) [OF inv] eff(8) x(1)
    by (auto simp: ctx_inv_def eff(2,4) [unfolded w1] w1 ctx_ok_def)
qed

lemma ctx_inv_Release:
  assumes "ctx_inv w"
  shows "ctx_inv (Release c w)"
proof (cases "\<exists>x. ctxs w c = Some x \<and> \<not> cc_closed x")
  case True
  then obtain x where x: "ctxs w c = Some x" "\<not> cc_closed x" by blast
  show ?thesis
    unfolding Release_def by (rule ctx_inv_release_ctx [OF assms x, of _ "registry w"]) simp_all
next
  case False
  then have "Release c w = w"
    by (auto simp: Release_def release_ctx_def split: option.split)
  with assms show ?thesis by simp
qed

lemma ctx_inv_resolve:
  assumes "ctx_inv w"
  shows "ctx_inv (snd (resolveCompletion p w))"
proof (cases "p = NULL \<or> registry w p = None")
  case True
  with assms show ?thesis by (auto simp: resolveCompletion_def)
next
  case False
  then obtain c where c: "registry w p = Some c" by auto
  with ctx_invD(4) [OF assms] obtain x where x: "ctxs w c = Some x" "\<not> cc_closed x" "cc_ptr x = p"
    by blast
  have "ctx_inv (release_ctx c True False (w\<lparr>registry := (registry w)(p := None)\<rparr>))"
    by (rule ctx_inv_release_ctx [OF assms x(1,2) refl]) (simp add: x(3))
  with False c show ?thesis by (simp add: resolveCompletion_def)
qed

text \<open>Updates that touch neither memory nor registration.\<close>

lemma ctx_inv_upd_ctx:
  assumes "ctx_inv w"
    and "\<And>x. ctxs w c = Some x \<Longrightarrow> ctx_ok w c x \<Longrightarrow>
       ctx_ok w c (f x) \<and> cc_closed (f x) = cc_closed x \<and> cc_ptr (f x) = cc_ptr x"
  shows "ctx_inv (upd_ctx c f w)"
proof (cases "ctxs w c")
  case None
  with assms(1) show ?thesis by (simp add: upd_ctx_def)
next
  case (Some x)
  have ok: "ctx_ok (upd_ctx c f w) d y = ctx_ok w d y" for d y
    by (simp add: ctx_ok_def ctx_mem_def)
  note f = assms(2) [OF Some ctx_invD(3) [OF assms(1) Some]]
  show ?thesis
    unfolding ctx_inv_def ok
    using ctx_invD [OF assms(1)] f Some
    by (auto simp: ctxs_upd_ctx dest!: ctx_invD(4) [OF assms(1)])
qed

lemma ctx_inv_SetValue: "ctx_inv w \<Longrightarrow> ctx_inv (SetValue c v w)"
  unfolding SetValue_def
  by (erule ctx_inv_upd_ctx) (auto simp: ctx_ok_def ctx_mem_def split: if_splits)

lemma ctx_inv_setCopyBack:
  assumes "ctx_inv w" and "sl_loc s = GoMem a" and "sl_len s \<le> length (gomem w a)"
    and "\<And>x. ctxs w c = Some x \<Longrightarrow> cc_buffer x = NULL \<or> sl_len s \<le> cc_bufCap x"
  shows "ctx_inv (setCopyBack c s w)"
  unfolding setCopyBack_def
  using assms by (intro ctx_inv_upd_ctx) (auto simp: ctx_ok_def ctx_mem_def split: if_splits)

lemma ctx_inv_callbacks:
  assumes "ctx_inv w"
  shows "ctx_inv (AddOnComplete c f w)" and "ctx_inv (AddCleanup c f w)"
  using assms
  by (auto simp: AddOnComplete_def AddCleanup_def ctx_ok_def ctx_mem_def
      split: option.split if_splits intro!: ctx_inv_upd_ctx)

end
