(* ===== verification/Transitions.thy ===== *)
theory Transitions
  imports Prelude
begin

text \<open>
  The contracts shared by the state machines of the development: an invariant that every step
  keeps, a part of the state that no step changes once it is sealed (a released completion
  context, a finished operation), and the simulation of one machine by another.
\<close>

locale transition_invariant =
  fixes step :: "'s \<Rightarrow> 's \<Rightarrow> bool"
    and inv :: "'s \<Rightarrow> bool"
  assumes keeps: "inv s \<Longrightarrow> step s t \<Longrightarrow> inv t"
begin

lemma reach_inv: "step\<^sup>*\<^sup>* s t \<Longrightarrow> inv s \<Longrightarrow> inv t"
  by (induction rule: rtranclp_induct) (auto intro: keeps)

text \<open>A fact every step carries over, under the invariant, holds along every run.\<close>

lemma reach_carry:
  assumes "step\<^sup>*\<^sup>* s t" and "inv s" and "P s"
    and "\<And>u v. inv u \<Longrightarrow> P u \<Longrightarrow> step u v \<Longrightarrow> P v"
  shows "P t"
  using assms(1,2,3)
proof (induction rule: rtranclp_induct)
  case (step u v)
  with reach_inv [OF step.hyps(1)] assms(4) show ?case by blast
qed

end

locale sealed_view = transition_invariant step inv
  for step :: "'s \<Rightarrow> 's \<Rightarrow> bool" and inv :: "'s \<Rightarrow> bool" +
  fixes sealed :: "'s \<Rightarrow> bool"
    and view :: "'s \<Rightarrow> 'v"
  assumes stays: "inv s \<Longrightarrow> sealed s \<Longrightarrow> step s t \<Longrightarrow> sealed t \<and> view t = view s"
begin

lemma reach_sealed:
  assumes "step\<^sup>*\<^sup>* s t" and "inv s" and "sealed s"
  shows "sealed t" and "view t = view s"
proof -
  have "sealed t \<and> view t = view s"
    by (rule reach_carry [OF assms(1,2), where P = "\<lambda>u. sealed u \<and> view u = view s"])
      (use assms(3) stays in auto)
  then show "sealed t" and "view t = view s" by simp_all
qed

end

text \<open>A concrete machine each of whose steps is a run of an abstract one.\<close>

locale simulation =
  fixes cstep :: "'c \<Rightarrow> 'c \<Rightarrow> bool"
    and astep :: "'s \<Rightarrow> 's \<Rightarrow> bool"
    and view :: "'c \<Rightarrow> 's"
  assumes simulates: "cstep x y \<Longrightarrow> astep\<^sup>*\<^sup>* (view x) (view y)"
begin

lemma run_simulates: "cstep\<^sup>*\<^sup>* x y \<Longrightarrow> astep\<^sup>*\<^sup>* (view x) (view y)"
  by (induction rule: rtranclp_induct) (auto intro: simulates rtranclp_trans)

end

end
