(* ===== verification/Context_Life.thy ===== *)
theory Context_Life
  imports Contexts Transitions
begin

text \<open>
  The life of completion contexts as a step relation: any interleaving of the operations of
  \<open>fi/context.go\<close> with anything that leaves the memory of contexts alone. Every run is free of
  memory faults, and what a resolved or released context ran never changes again.
\<close>

section \<open>Steps of other components\<close>

text \<open>\<open>ctx_frame w w'\<close>: nothing the invariant of contexts speaks about has changed.\<close>

definition ctx_owned :: "'p world \<Rightarrow> ptr \<Rightarrow> (owner \<times> nat) option" where
  "ctx_owned w p =
     (case shape w p of
        Some (OCtx c, n) \<Rightarrow> Some (OCtx c, n)
      | Some (OBuf c, n) \<Rightarrow> Some (OBuf c, n)
      | _ \<Rightarrow> None)"

definition ctx_frame :: "'p world \<Rightarrow> 'p world \<Rightarrow> bool" where
  "ctx_frame w w' \<longleftrightarrow>
     ctx_owned w' = ctx_owned w \<and> ctxs w' = ctxs w \<and> registry w' = registry w \<and> ran w' = ran w \<and>
     next_id w \<le> next_id w' \<and> fault w' = fault w \<and>
     (\<forall>a. length (gomem w' a) = length (gomem w a))"

lemma ctx_frame_refl [simp]: "ctx_frame w w"
  by (simp add: ctx_frame_def)

lemma ctx_frame_trans: "ctx_frame u v \<Longrightarrow> ctx_frame v w \<Longrightarrow> ctx_frame u w"
  by (simp add: ctx_frame_def)

lemma ctx_owned_iff:
  "shape w p = Some (OCtx c, n) \<longleftrightarrow> ctx_owned w p = Some (OCtx c, n)"
  "shape w p = Some (OBuf c, n) \<longleftrightarrow> ctx_owned w p = Some (OBuf c, n)"
proof -
  show "shape w p = Some (OCtx c, n) \<longleftrightarrow> ctx_owned w p = Some (OCtx c, n)"
    and "shape w p = Some (OBuf c, n) \<longleftrightarrow> ctx_owned w p = Some (OBuf c, n)"
    by (cases "shape w p"; cases "fst (the (shape w p))"; force simp: ctx_owned_def)+
qed

lemma ctx_owned_cong: "shape w' = shape w \<Longrightarrow> ctx_owned w' = ctx_owned w"
  by (rule ext) (simp only: ctx_owned_def)

lemma ctx_frame_shape:
  assumes "shape w' = shape w" and "ctxs w' = ctxs w" and "registry w' = registry w"
    and "ran w' = ran w" and "next_id w \<le> next_id w'" and "fault w' = fault w"
    and "gomem w' = gomem w"
  shows "ctx_frame w w'"
  using assms ctx_owned_cong [OF assms(1)] by (simp add: ctx_frame_def)

lemma ctx_frame_ccall [simp]: "ctx_frame w (snd (ccall E c w))"
  by (rule ctx_frame_shape) simp_all

lemma ctx_inv_frame: "ctx_inv w \<Longrightarrow> ctx_frame w w' \<Longrightarrow> ctx_inv w'"
  unfolding ctx_inv_def ctx_ok_def ctx_mem_def ctx_owned_iff ctx_frame_def
  by (simp, meson less_le_trans)

section \<open>Staging buffers\<close>

text \<open>
  A buffer may be (re)allocated unless a longer copy-back is pending: with a pending copy of
  more bytes than the new buffer holds, \<open>release\<close> would read past its end.
\<close>

definition buffer_ok :: "'p world \<Rightarrow> nat \<Rightarrow> nat \<Rightarrow> bool" where
  "buffer_ok w c n \<longleftrightarrow>
     (\<exists>x. ctxs w c = Some x \<and> \<not> cc_closed x \<and> (\<forall>s. cc_copyBack x = Some s \<longrightarrow> sl_len s \<le> n))"

lemma ctx_inv_drop_buffer:
  assumes inv: "ctx_inv w" and x: "ctxs w c = Some x" "\<not> cc_closed x" and b: "cc_buffer x \<noteq> NULL"
  shows "ctx_inv (upd_ctx c (\<lambda>x. x\<lparr>cc_buffer := NULL, cc_bufCap := 0\<rparr>) (c_free (cc_buffer x) w))"
    (is "ctx_inv ?w'")
proof -
  note ok = ctx_inv_open [OF inv x]
  have own: "shape w (cc_buffer x) = Some (OBuf c, cc_bufCap x)"
    using ok(1) b by (simp add: ctx_mem_def)
  have new: "ctxs ?w' = (ctxs w)(c \<mapsto> x\<lparr>cc_buffer := NULL, cc_bufCap := 0\<rparr>)"
    using x by (simp add: ctxs_upd_ctx)
  have shp: "shape ?w' p = shape w p \<or> shape w p = Some (OCtx c, 1) \<or> (\<exists>n. shape w p = Some (OBuf c, n))" for p
    using own by auto
  have "ctx_ok ?w' d y" if d: "ctxs ?w' d = Some y" for d y
  proof (cases "d = c")
    case True
    with d new have y: "y = x\<lparr>cc_buffer := NULL, cc_bufCap := 0\<rparr>" by simp
    have "cc_ptr x \<noteq> cc_buffer x" using own ok(1) by (auto simp: ctx_mem_def)
    with ok True y x show ?thesis by (auto simp: ctx_ok_def ctx_mem_def)
  next
    case False
    with d new have dy: "ctxs w d = Some y" by simp
    show ?thesis
    proof (cases "cc_closed y")
      case True
      with ctx_invD(3) [OF inv dy] show ?thesis by (simp add: ctx_ok_def)
    next
      case open_y: False
      note oky = ctx_inv_open [OF inv dy open_y]
      have "ctx_mem ?w' d y"
        by (rule ctx_mem_other [OF oky(1) False shp]) simp
      with oky(2) open_y show ?thesis by (simp add: ctx_ok_def)
    qed
  qed
  moreover have "\<exists>y. ctxs ?w' d = Some y \<and> \<not> cc_closed y \<and> cc_ptr y = p"
    if "registry ?w' p = Some d" for p d
    using ctx_invD(4) [OF inv] that x new by fastforce
  moreover have "d < next_id ?w'" if "ctxs ?w' d = Some y" for d y
    using that ctx_invD(2) [OF inv] x new by (auto split: if_splits)
  ultimately show ?thesis
    using ctx_invD(1) [OF inv] own by (simp add: ctx_inv_def)
qed

lemma ctx_inv_set_buffer:
  assumes inv: "ctx_inv w" and x: "ctxs w c = Some x" "\<not> cc_closed x"
    and fresh: "shape w b = None" and shp: "shape w1 = (shape w)(b \<mapsto> (OBuf c, n))"
    and same: "ctxs w1 = ctxs w" "registry w1 = registry w" "next_id w1 = next_id w" "fault w1 = fault w"
      "gomem w1 = gomem w"
    and cap: "\<And>s. cc_copyBack x = Some s \<Longrightarrow> sl_len s \<le> n"
  shows "ctx_inv (upd_ctx c (\<lambda>x. x\<lparr>cc_buffer := b, cc_bufCap := n\<rparr>) w1)" (is "ctx_inv ?w'")
proof -
  note ok = ctx_inv_open [OF inv x]
  have new: "ctxs ?w' = (ctxs w)(c \<mapsto> x\<lparr>cc_buffer := b, cc_bufCap := n\<rparr>)"
    using x same by (simp add: ctxs_upd_ctx)
  have "ctx_ok ?w' d y" if d: "ctxs ?w' d = Some y" for d y
  proof (cases "d = c")
    case True
    with d new have y: "y = x\<lparr>cc_buffer := b, cc_bufCap := n\<rparr>" by simp
    with ok x True same shp fresh cap show ?thesis by (auto simp: ctx_ok_def ctx_mem_def)
  next
    case False
    with d new have "ctxs w d = Some y" by simp
    from ctx_invD(3) [OF inv this] same shp fresh show ?thesis
      by (auto simp: ctx_ok_def ctx_mem_def split: if_splits)
  qed
  moreover have "\<exists>y. ctxs ?w' d = Some y \<and> \<not> cc_closed y \<and> cc_ptr y = p"
    if "registry ?w' p = Some d" for p d
    using ctx_invD(4) [OF inv] that x new same by fastforce
  moreover have "d < next_id ?w'" if "ctxs ?w' d = Some y" for d y
    using that ctx_invD(2) [OF inv] x new same by (auto split: if_splits)
  ultimately show ?thesis
    using ctx_invD(1) [OF inv] same by (simp add: ctx_inv_def)
qed

text \<open>What \<open>AllocBytes\<close> does to the memory, seen through \<open>shape\<close>.\<close>

lemma AllocBytes_cases:
  assumes "AllocBytes E own n w = (b, w')" and "malloc_spec E"
  shows "(if b = NULL then shape w' = shape w
          else shape w b = None \<and> shape w' = (shape w)(b \<mapsto> (own, n)) \<and> 0 < n) \<and>
     ctxs w' = ctxs w \<and> registry w' = registry w \<and> next_id w' = next_id w \<and> fault w' = fault w \<and>
     gomem w' = gomem w \<and> handles w' = handles w \<and> regions w' = regions w \<and> ran w' = ran w \<and>
     calls w' = calls w"
proof (cases "n = 0")
  case True
  with assms(1) show ?thesis by (auto simp: AllocBytes_def)
next
  case False
  with assms(1) have "c_malloc E own n w = (b, w')" by (simp add: AllocBytes_def)
  with c_malloc_fresh [OF assms(2), of own n w] shape_c_malloc [of E own n w]
    c_malloc_frame [of E own n w] False
  show ?thesis by auto
qed

lemma ctx_inv_ensureBuffer:
  assumes inv: "ctx_inv w" and m: "malloc_spec E" and ok: "n = 0 \<or> buffer_ok w c n"
    and eb: "ensureBuffer E c n w = (r, w')"
  shows "ctx_inv w'" and "ran w' = ran w" and "next_id w' = next_id w"
    and "map_option cc_closed (ctxs w' d) = map_option cc_closed (ctxs w d)"
    and "r = Inr b \<Longrightarrow> n \<noteq> 0 \<Longrightarrow>
      \<exists>x. ctxs w' c = Some x \<and> cc_buffer x = b \<and> b \<noteq> NULL \<and> n \<le> cc_bufCap x \<and> \<not> cc_closed x"
proof -
  have "ctx_inv w' \<and> ran w' = ran w \<and> next_id w' = next_id w \<and>
    map_option cc_closed (ctxs w' d) = map_option cc_closed (ctxs w d) \<and>
    (r = Inr b \<and> n \<noteq> 0 \<longrightarrow>
      (\<exists>x. ctxs w' c = Some x \<and> cc_buffer x = b \<and> b \<noteq> NULL \<and> n \<le> cc_bufCap x \<and> \<not> cc_closed x))"
  proof (cases "n = 0")
    case True
    with inv eb show ?thesis by (auto simp: ensureBuffer_def)
  next
    case False
    with ok obtain x where x: "ctxs w c = Some x" "\<not> cc_closed x"
      and cap: "\<And>s. cc_copyBack x = Some s \<Longrightarrow> sl_len s \<le> n"
      by (auto simp: buffer_ok_def)
    show ?thesis
    proof (cases "cc_buffer x \<noteq> NULL \<and> n \<le> cc_bufCap x")
      case True
      with False inv eb x show ?thesis by (auto simp: ensureBuffer_def)
    next
      case realloc: False
      define v where "v = (if cc_buffer x \<noteq> NULL
        then upd_ctx c (\<lambda>x. x\<lparr>cc_buffer := NULL, cc_bufCap := 0\<rparr>) (FreeBytes (cc_buffer x) w) else w)"
      obtain b' v' where al: "AllocBytes E (OBuf c) n v = (b', v')" by fastforce
      have vinv: "ctx_inv v"
        using ctx_inv_drop_buffer [OF inv x] inv by (auto simp: v_def)
      obtain y where y: "ctxs v c = Some y" "\<not> cc_closed y" "cc_copyBack y = cc_copyBack x"
        using x by (cases "cc_buffer x = NULL") (auto simp: v_def ctxs_upd_ctx intro: that)
      have vother: "ctxs v d = ctxs w d" if "d \<noteq> c"
        using that x by (auto simp: v_def ctxs_upd_ctx)
      have vsame: "ran v = ran w" "next_id v = next_id w"
        by (simp_all add: v_def)
      note mem = AllocBytes_cases [OF al m]
      have res: "(r, w') = (if b' = NULL then (Inl (Msg ''libfabric: unable to allocate context buffer''), v')
          else (Inr b', upd_ctx c (\<lambda>x. x\<lparr>cc_buffer := b', cc_bufCap := n\<rparr>) v'))"
        using eb False realloc x al by (auto simp: ensureBuffer_def v_def Let_def split: prod.splits)
      show ?thesis
      proof (cases "b' = NULL")
        case True
        with mem have "ctx_inv v'" by (intro ctx_inv_cong [OF vinv]) simp_all
        with True res mem vsame vother y x show ?thesis by (cases "d = c") auto
      next
        case b': False
        with mem have m2: "shape v b' = None" "shape v' = (shape v)(b' \<mapsto> (OBuf c, n))" "0 < n"
          "ctxs v' = ctxs v" "registry v' = registry v" "next_id v' = next_id v" "fault v' = fault v"
          "gomem v' = gomem v" "ran v' = ran v"
          by auto
        have "ctx_inv (upd_ctx c (\<lambda>x. x\<lparr>cc_buffer := b', cc_bufCap := n\<rparr>) v')"
          using ctx_inv_set_buffer [OF vinv y(1,2) m2(1,2,4,5,6,7,8)] cap y(3) by simp
        with b' res m2 vsame vother y x show ?thesis
          by (cases "d = c") (auto simp: ctxs_upd_ctx)
      qed
    qed
  qed
  then show "ctx_inv w'" and "ran w' = ran w" and "next_id w' = next_id w"
    and "map_option cc_closed (ctxs w' d) = map_option cc_closed (ctxs w d)"
    and "r = Inr b \<Longrightarrow> n \<noteq> 0 \<Longrightarrow>
      \<exists>x. ctxs w' c = Some x \<and> cc_buffer x = b \<and> b \<noteq> NULL \<and> n \<le> cc_bufCap x \<and> \<not> cc_closed x"
    by auto
qed

section \<open>The step relation\<close>

text \<open>
  One call of any operation on any context, open or not, or a step of something else. The
  guards of \<open>st_buffer\<close> and \<open>st_copy\<close> are what the posting functions, their only callers,
  provide.
\<close>

inductive ctx_step :: "'p cenv \<Rightarrow> 'p world \<Rightarrow> 'p world \<Rightarrow> bool" for E where
  st_new: "ctx_step E w (snd (NewCompletionContext E w))"
| st_value: "ctx_step E w (SetValue c v w)"
| st_complete: "ctx_step E w (AddOnComplete c f w)"
| st_cleanup: "ctx_step E w (AddCleanup c f w)"
| st_buffer: "n = 0 \<or> buffer_ok w c n \<Longrightarrow> ctx_step E w (snd (ensureBuffer E c n w))"
| st_copy: "sl_loc s = GoMem a \<Longrightarrow> sl_len s \<le> length (gomem w a) \<Longrightarrow>
    (\<And>x. ctxs w c = Some x \<Longrightarrow> cc_buffer x = NULL \<or> sl_len s \<le> cc_bufCap x) \<Longrightarrow>
    ctx_step E w (setCopyBack c s w)"
| st_resolve: "ctx_step E w (snd (resolveCompletion p w))"
| st_release: "ctx_step E w (Release c w)"
| st_frame: "ctx_frame w w' \<Longrightarrow> ctx_step E w w'"

inductive_simps ctx_step_iff: "ctx_step E w w'"

lemma ctx_step_inv:
  assumes "malloc_spec E" and "ctx_inv w" and "ctx_step E w w'"
  shows "ctx_inv w'"
  using assms(3,2)
proof cases
  case st_new
  then show ?thesis using ctx_inv_new [OF assms(2,1)] by (metis prod.collapse)
next
  case (st_buffer n c)
  then show ?thesis using ctx_inv_ensureBuffer(1) [OF assms(2,1)] by (metis prod.collapse)
next
  case (st_copy s a c)
  then show ?thesis using ctx_inv_setCopyBack [OF assms(2)] by blast
next
  case (st_frame)
  then show ?thesis using ctx_inv_frame [OF assms(2)] by blast
qed (use assms in \<open>simp_all add: ctx_inv_SetValue ctx_inv_callbacks ctx_inv_resolve ctx_inv_Release\<close>)

fun about :: "nat \<Rightarrow> callback_run \<Rightarrow> bool" where
  "about c (RanComplete d f) \<longleftrightarrow> d = c"
| "about c (RanCleanup d f) \<longleftrightarrow> d = c"

lemma filter_about [simp]:
  "filter (about c) (map (RanComplete d) fs) = (if d = c then map (RanComplete d) fs else [])"
  "filter (about c) (map (RanCleanup d) fs) = (if d = c then map (RanCleanup d) fs else [])"
  by (induction fs) auto

text \<open>What releasing one context does to the log and to every context's \<open>closed\<close> flag.\<close>

lemma release_ctx_sealed:
  assumes inv: "ctx_inv w" and x: "ctxs w d = Some x" "\<not> cc_closed x" and rel: "IsReleased c w"
  shows "IsReleased c (release_ctx d run rem (w\<lparr>registry := rg\<rparr>)) \<and>
    filter (about c) (ran (release_ctx d run rem (w\<lparr>registry := rg\<rparr>))) = filter (about c) (ran w)"
proof -
  have pre: "\<not> fault (w\<lparr>registry := rg\<rparr>)" "ctx_mem (w\<lparr>registry := rg\<rparr>) d x"
    "ctxs (w\<lparr>registry := rg\<rparr>) d = Some x"
    using ctx_invD(1) [OF inv] ctx_inv_open(1) [OF inv x] x by (simp_all add: ctx_mem_def)
  have "d \<noteq> c" using rel x by (auto simp: IsReleased_def)
  then show ?thesis
    using rel release_ctx_effect(2,10) [OF pre x(2), of run rem]
    by (auto simp: IsReleased_def)
qed

lemma ctx_step_sealed:
  assumes m: "malloc_spec E" and inv: "ctx_inv w" and rel: "IsReleased c w" and st: "ctx_step E w w'"
  shows "IsReleased c w' \<and> filter (about c) (ran w') = filter (about c) (ran w)"
  using st
proof cases
  case st_new
  obtain r where r: "NewCompletionContext E w = (r, w')" using st_new by (metis prod.collapse)
  have "c \<noteq> next_id w"
    using rel ctx_invD(2) [OF inv, of c] by (auto simp: IsReleased_def split: option.splits)
  with r m show ?thesis
    by (cases rule: NewCompletionContext_cases) (use rel in \<open>simp_all add: IsReleased_def\<close>)
next
  case (st_buffer n d)
  then obtain r where "ensureBuffer E d n w = (r, w')" by (metis prod.collapse)
  from ctx_inv_ensureBuffer(2) [OF inv m st_buffer(2) this]
    ctx_inv_ensureBuffer(4) [OF inv m st_buffer(2) this, of c] rel show ?thesis
    by (auto simp: IsReleased_def split: option.splits)
next
  case (st_resolve p)
  show ?thesis
  proof (cases "p = NULL \<or> registry w p = None")
    case True
    with st_resolve rel show ?thesis by (auto simp: resolveCompletion_def)
  next
    case False
    then obtain d where d: "registry w p = Some d" by auto
    with ctx_invD(4) [OF inv] obtain x where "ctxs w d = Some x" "\<not> cc_closed x" by blast
    from release_ctx_sealed [OF inv this rel, of True False "(registry w)(p := None)"] st_resolve False d
    show ?thesis by (simp add: resolveCompletion_def)
  qed
next
  case (st_release d)
  show ?thesis
  proof (cases "\<exists>x. ctxs w d = Some x \<and> \<not> cc_closed x")
    case True
    then obtain x where x: "ctxs w d = Some x" "\<not> cc_closed x" by blast
    from release_ctx_sealed [OF inv this rel, of False True "registry w"] st_release
    show ?thesis by (simp add: Release_def)
  next
    case False
    with st_release rel show ?thesis
      by (auto simp: Release_def release_ctx_def split: option.splits)
  qed
next
  case (st_frame)
  with rel show ?thesis by (simp add: ctx_frame_def IsReleased_def)
qed (use rel in \<open>auto simp: IsReleased_def SetValue_def AddOnComplete_def AddCleanup_def setCopyBack_def
      ctxs_upd_ctx split: option.splits\<close>)

interpretation life: sealed_view "ctx_step E" "\<lambda>w. malloc_spec E \<and> ctx_inv w" "IsReleased c"
    "\<lambda>w. filter (about c) (ran w)" for E :: "'p cenv" and c
  by unfold_locales (use ctx_step_inv ctx_step_sealed in blast)+

section \<open>No leaks\<close>

text \<open>Every block allocated for a context belongs to an open context that still points to it.\<close>

definition holds_ptr :: "'p world \<Rightarrow> nat \<Rightarrow> (cctx \<Rightarrow> ptr) \<Rightarrow> ptr \<Rightarrow> bool" where
  "holds_ptr w c f p \<longleftrightarrow> (\<exists>x. ctxs w c = Some x \<and> \<not> cc_closed x \<and> f x = p)"

definition no_leak :: "'p world \<Rightarrow> bool" where
  "no_leak w \<longleftrightarrow>
     (\<forall>p c n. (shape w p = Some (OCtx c, n) \<longrightarrow> holds_ptr w c cc_ptr p) \<and>
              (shape w p = Some (OBuf c, n) \<longrightarrow> p \<noteq> NULL \<and> holds_ptr w c cc_buffer p))"

lemma no_leak_frame: "no_leak w \<Longrightarrow> ctx_frame w w' \<Longrightarrow> no_leak w'"
  unfolding no_leak_def holds_ptr_def ctx_owned_iff ctx_frame_def by simp

lemma no_leak_upd:
  assumes "no_leak w" and "\<And>x. cc_ptr (f x) = cc_ptr x \<and> cc_buffer (f x) = cc_buffer x \<and> cc_closed (f x) = cc_closed x"
  shows "no_leak (upd_ctx c f w)"
  using assms unfolding no_leak_def holds_ptr_def
  by (fastforce simp: ctxs_upd_ctx split: option.splits)

lemma no_leak_new:
  assumes inv: "ctx_inv w" and nl: "no_leak w" and m: "malloc_spec E"
    and n: "NewCompletionContext E w = (r, w')"
  shows "no_leak w'"
  using n m
proof (cases rule: NewCompletionContext_cases)
  case failed
  with nl show ?thesis by (simp add: no_leak_def holds_ptr_def)
next
  case (made p)
  have "ctxs w (next_id w) = None"
    using ctx_invD(2) [OF inv, of "next_id w"] by (cases "ctxs w (next_id w)") auto
  with nl made(4,5) show ?thesis
    unfolding no_leak_def holds_ptr_def by (force simp: cc_new_def)
qed

lemma no_leak_release:
  assumes inv: "ctx_inv w" and nl: "no_leak w" and x: "ctxs w c = Some x" "\<not> cc_closed x"
  shows "no_leak (release_ctx c run rem (w\<lparr>registry := rg\<rparr>))"
proof -
  have pre: "\<not> fault (w\<lparr>registry := rg\<rparr>)" "ctx_mem (w\<lparr>registry := rg\<rparr>) c x"
    "ctxs (w\<lparr>registry := rg\<rparr>) c = Some x"
    using ctx_invD(1) [OF inv] ctx_inv_open(1) [OF inv x] x by (simp_all add: ctx_mem_def)
  note eff = release_ctx_effect(1,2) [OF pre x(2), of run rem]
  have own: "holds_ptr w d cc_ptr p \<and> (d = c \<longrightarrow> p = cc_ptr x)" if "shape w p = Some (OCtx d, n)" for p d n
    using nl that x unfolding no_leak_def holds_ptr_def by (metis option.inject)
  have buf: "p \<noteq> NULL \<and> holds_ptr w d cc_buffer p \<and> (d = c \<longrightarrow> p = cc_buffer x)"
    if "shape w p = Some (OBuf d, n)" for p d n
    using nl that x unfolding no_leak_def holds_ptr_def by (metis option.inject)
  let ?w' = "release_ctx c run rem (w\<lparr>registry := rg\<rparr>)"
  have left: "shape w p = Some v \<and> p \<noteq> cc_ptr x \<and> (p = cc_buffer x \<longrightarrow> p = NULL)"
    if "shape ?w' p = Some v" for p v
    using that by (auto simp: eff(1) split: if_splits)
  have keep: "holds_ptr ?w' d f p" if "holds_ptr w d f p" "d \<noteq> c" for d f p
    using that by (auto simp: holds_ptr_def eff(2))
  have "holds_ptr ?w' d cc_ptr p" if "shape ?w' p = Some (OCtx d, n)" for p d n
    using left [OF that] own [of p d n] keep by auto
  moreover have "p \<noteq> NULL \<and> holds_ptr ?w' d cc_buffer p" if "shape ?w' p = Some (OBuf d, n)" for p d n
    using left [OF that] buf [of p d n] keep by auto
  ultimately show ?thesis unfolding no_leak_def by blast
qed

lemma no_leak_ensureBuffer:
  assumes inv: "ctx_inv w" and nl: "no_leak w" and m: "malloc_spec E" and ok: "n = 0 \<or> buffer_ok w c n"
  shows "no_leak (snd (ensureBuffer E c n w))"
proof (cases "n = 0")
  case True
  with nl show ?thesis by (simp add: ensureBuffer_def)
next
  case False
  with ok obtain x where x: "ctxs w c = Some x" "\<not> cc_closed x" by (auto simp: buffer_ok_def)
  show ?thesis
  proof (cases "cc_buffer x \<noteq> NULL \<and> n \<le> cc_bufCap x")
    case True
    with False nl x show ?thesis by (simp add: ensureBuffer_def)
  next
    case realloc: False
    define v where "v = (if cc_buffer x \<noteq> NULL
      then upd_ctx c (\<lambda>x. x\<lparr>cc_buffer := NULL, cc_bufCap := 0\<rparr>) (FreeBytes (cc_buffer x) w) else w)"
    obtain b v' where al: "AllocBytes E (OBuf c) n v = (b, v')" by fastforce
    have vshape: "shape v p = (if p = cc_buffer x \<and> p \<noteq> NULL then None else shape w p)" for p
      by (simp add: v_def)
    have own: "holds_ptr w d cc_ptr p" if "shape v p = Some (OCtx d, k)" for p d k
      using that nl by (auto simp: no_leak_def vshape split: if_splits)
    have buf: "p \<noteq> NULL \<and> d \<noteq> c \<and> holds_ptr w d cc_buffer p" if "shape v p = Some (OBuf d, k)" for p d k
    proof -
      from that have "shape w p = Some (OBuf d, k)" "\<not> (p = cc_buffer x \<and> p \<noteq> NULL)"
        by (auto simp: vshape split: if_splits)
      with nl x show ?thesis unfolding no_leak_def holds_ptr_def by (metis option.inject)
    qed
    have vctx: "ctxs v = (ctxs w)(c \<mapsto> x\<lparr>cc_buffer := NULL, cc_bufCap := (if cc_buffer x = NULL then cc_bufCap x else 0)\<rparr>)"
      using x by (cases "cc_buffer x = NULL") (auto simp: v_def ctxs_upd_ctx)
    note mem = AllocBytes_cases [OF al m]
    define w' where "w' = snd (ensureBuffer E c n w)"
    have res: "w' = (if b = NULL then v' else upd_ctx c (\<lambda>x. x\<lparr>cc_buffer := b, cc_bufCap := n\<rparr>) v')"
      using False realloc x al by (auto simp: w'_def ensureBuffer_def v_def Let_def split: prod.splits)
    have shp: "shape w' p = (if p = b \<and> b \<noteq> NULL then Some (OBuf c, n) else shape v p)" for p
      using mem by (auto simp: res)
    have ctx: "\<exists>z. ctxs w' = (ctxs w)(c \<mapsto> z) \<and> cc_ptr z = cc_ptr x \<and> \<not> cc_closed z \<and>
        (b \<noteq> NULL \<longrightarrow> cc_buffer z = b)"
      using mem vctx x by (auto simp: res ctxs_upd_ctx)
    have "holds_ptr w' d cc_ptr p" if "shape w' p = Some (OCtx d, k)" for p d k
      using that own [of p d k] ctx x by (auto simp: shp holds_ptr_def split: if_splits)
    moreover have "p \<noteq> NULL \<and> holds_ptr w' d cc_buffer p" if "shape w' p = Some (OBuf d, k)" for p d k
      using that buf [of p d k] ctx x by (auto simp: shp holds_ptr_def split: if_splits)
    ultimately show ?thesis unfolding no_leak_def w'_def by blast
  qed
qed

lemma no_leak_step:
  assumes m: "malloc_spec E" and inv: "ctx_inv w" and nl: "no_leak w" and st: "ctx_step E w w'"
  shows "no_leak w'"
  using st
proof cases
  case st_new
  then show ?thesis using no_leak_new [OF inv nl m] by (metis prod.collapse)
next
  case (st_buffer n c)
  then show ?thesis using no_leak_ensureBuffer [OF inv nl m] by simp
next
  case (st_resolve p)
  show ?thesis
  proof (cases "p = NULL \<or> registry w p = None")
    case True
    with st_resolve nl show ?thesis by (auto simp: resolveCompletion_def)
  next
    case False
    then obtain d where d: "registry w p = Some d" by auto
    with ctx_invD(4) [OF inv] obtain x where "ctxs w d = Some x" "\<not> cc_closed x" by blast
    from no_leak_release [OF inv nl this, of True False "(registry w)(p := None)"] st_resolve False d
    show ?thesis by (simp add: resolveCompletion_def)
  qed
next
  case (st_release c)
  show ?thesis
  proof (cases "\<exists>x. ctxs w c = Some x \<and> \<not> cc_closed x")
    case True
    then obtain x where x: "ctxs w c = Some x" "\<not> cc_closed x" by blast
    from no_leak_release [OF inv nl this, of False True "registry w"] st_release
    show ?thesis by (simp add: Release_def)
  next
    case False
    with st_release nl show ?thesis
      by (auto simp: Release_def release_ctx_def split: option.splits)
  qed
next
  case (st_frame)
  then show ?thesis using no_leak_frame [OF nl] by blast
qed (use nl in \<open>auto simp: SetValue_def AddOnComplete_def AddCleanup_def setCopyBack_def
      split: option.splits intro!: no_leak_upd\<close>)

definition ctx_safe :: "'p cenv \<Rightarrow> 'p world \<Rightarrow> bool" where
  "ctx_safe E w \<longleftrightarrow> malloc_spec E \<and> ctx_inv w \<and> no_leak w"

interpretation safe: transition_invariant "ctx_step E" "ctx_safe E" for E :: "'p cenv"
  by unfold_locales (use ctx_step_inv no_leak_step in \<open>auto simp: ctx_safe_def\<close>)

lemmas ctx_safe_steps =
  safe.keeps [OF _ ctx_step.st_new] safe.keeps [OF _ ctx_step.st_value] safe.keeps [OF _ ctx_step.st_complete]
  safe.keeps [OF _ ctx_step.st_cleanup] safe.keeps [OF _ ctx_step.st_resolve] safe.keeps [OF _ ctx_step.st_release]

lemma ctx_safe_world0: "malloc_spec E \<Longrightarrow> ctx_safe E world0"
  by (simp add: ctx_safe_def ctx_inv_def no_leak_def world0_def shape_def)

section \<open>Properties\<close>


text \<open>What releasing an open context leaves behind, from the invariant.\<close>

lemma release_open:
  assumes inv: "ctx_inv w" and x: "ctxs w c = Some x" "\<not> cc_closed x"
  shows "IsReleased c (release_ctx c run rem (w\<lparr>registry := rg\<rparr>))"
    and "filter (about c) (ran (release_ctx c run rem (w\<lparr>registry := rg\<rparr>))) =
      filter (about c) (ran w) @ (if run then map (RanComplete c) (cc_onComplete x) else []) @
        map (RanCleanup c) (rev (cc_cleanups x))"
    and "registry (release_ctx c run rem (w\<lparr>registry := rg\<rparr>)) = (if rem then rg(cc_ptr x := None) else rg)"
proof -
  have pre: "\<not> fault (w\<lparr>registry := rg\<rparr>)" "ctx_mem (w\<lparr>registry := rg\<rparr>) c x"
    "ctxs (w\<lparr>registry := rg\<rparr>) c = Some x"
    using ctx_invD(1) [OF inv] ctx_inv_open(1) [OF inv x] x by (simp_all add: ctx_mem_def)
  note eff = release_ctx_effect(2,3,10) [OF pre x(2), of run rem]
  show "IsReleased c (release_ctx c run rem (w\<lparr>registry := rg\<rparr>))"
    and "filter (about c) (ran (release_ctx c run rem (w\<lparr>registry := rg\<rparr>))) =
      filter (about c) (ran w) @ (if run then map (RanComplete c) (cc_onComplete x) else []) @
        map (RanCleanup c) (rev (cc_cleanups x))"
    and "registry (release_ctx c run rem (w\<lparr>registry := rg\<rparr>)) = (if rem then rg(cc_ptr x := None) else rg)"
    by (simp_all add: eff IsReleased_def)
qed

text \<open>
  Claim C25. Resolving a registered pointer returns its context and runs its completion callbacks in
  the order they were added, then its cleanups in the reverse order, each once: whatever happens
  afterwards, nothing of that context ever runs again, it stays released, and the pointer, until
  a new context is registered under it, is unknown.
\<close>

theorem resolve_once:
  assumes "ctx_safe E w" and "registry w p = Some c" and "ctxs w c = Some x"
    and "(ctx_step E)\<^sup>*\<^sup>* (snd (resolveCompletion p w)) w'"
  shows "fst (resolveCompletion p w) = Inr c \<and>
    fst (resolveCompletion p (snd (resolveCompletion p w))) = Inl (Sentinel ErrContextUnknown) \<and>
    IsReleased c w' \<and>
    filter (about c) (ran w') = filter (about c) (ran w) @
      map (RanComplete c) (cc_onComplete x) @ map (RanCleanup c) (rev (cc_cleanups x))"
proof -
  have inv: "ctx_inv w" and m: "malloc_spec E" using assms(1) by (simp_all add: ctx_safe_def)
  from ctx_invD(4) [OF inv assms(2)] assms(3) have x: "\<not> cc_closed x" "cc_ptr x = p" by auto
  then have p: "p \<noteq> NULL"
    using ctx_inv_open(1) [OF inv assms(3)] by (auto simp: ctx_mem_def)
  let ?w1 = "release_ctx c True False (w\<lparr>registry := (registry w)(p := None)\<rparr>)"
  have res: "resolveCompletion p w = (Inr c, ?w1)"
    using p assms(2) by (simp add: resolveCompletion_def)
  note rel = release_open [OF inv assms(3) x(1), of True False "(registry w)(p := None)"]
  have inv1: "malloc_spec E \<and> ctx_inv ?w1"
    using ctx_inv_resolve [OF inv, of p] m by (simp add: res)
  have "fst (resolveCompletion p ?w1) = Inl (Sentinel ErrContextUnknown)"
    using rel(3) by (simp add: resolveCompletion_def)
  moreover have "IsReleased c w'" "filter (about c) (ran w') = filter (about c) (ran ?w1)"
    using life.reach_sealed [OF assms(4) _ _] inv1 rel(1) by (simp_all add: res)
  ultimately show ?thesis using rel(2) by (simp add: res)
qed

text \<open>
  Releasing a context that is still open (the failure path, when nothing was posted) runs
  its cleanups, in reverse order and once, and never its completion callbacks.
\<close>

theorem Release_skips_completions:
  assumes "ctx_safe E w" and "ctxs w c = Some x" and "\<not> cc_closed x"
    and "(ctx_step E)\<^sup>*\<^sup>* (Release c w) w'"
  shows "IsReleased c w' \<and>
    filter (about c) (ran w') = filter (about c) (ran w) @ map (RanCleanup c) (rev (cc_cleanups x))"
proof -
  have inv: "ctx_inv w" and m: "malloc_spec E" using assms(1) by (simp_all add: ctx_safe_def)
  have rel: "IsReleased c (Release c w)" "filter (about c) (ran (Release c w)) =
      filter (about c) (ran w) @ map (RanCleanup c) (rev (cc_cleanups x))"
    using release_open [OF inv assms(2,3), of False True "registry w"] by (simp_all add: Release_def)
  have "malloc_spec E \<and> ctx_inv (Release c w)"
    using ctx_inv_Release [OF inv] m by simp
  from life.reach_sealed [OF assms(4) this rel(1)] rel(2) show ?thesis by simp
qed

text \<open>The copy-back of a resolved context.\<close>

lemma copied_back:
  assumes "ctx_safe E w" and "registry w p = Some c" and "ctxs w c = Some x"
    and "cc_copyBack x = Some s" and "sl_loc s = GoMem a"
  shows "gomem (snd (resolveCompletion p w)) a =
    (if cc_buffer x = NULL then gomem w a
     else take (sl_len s) (blk_bytes (the (heap w (cc_buffer x)))) @ drop (sl_len s) (gomem w a))"
proof -
  have inv: "ctx_inv w" using assms(1) by (simp add: ctx_safe_def)
  from ctx_invD(4) [OF inv assms(2)] assms(3) have x: "\<not> cc_closed x" "cc_ptr x = p" by auto
  note mem = ctx_inv_open(1) [OF inv assms(3) x(1)]
  have p: "p \<noteq> NULL" using mem x by (auto simp: ctx_mem_def)
  show ?thesis
  proof (cases "cc_buffer x = NULL")
    case True
    with assms p x show ?thesis
      by (simp add: resolveCompletion_def release_ctx_def Let_def)
  next
    case False
    with mem obtain b where b: "heap w (cc_buffer x) = Some b" "length (blk_bytes b) = cc_bufCap x"
      by (auto simp: ctx_mem_def shape_Some_iff)
    have len: "sl_len s \<le> cc_bufCap x" "sl_len s \<le> length (gomem w a)"
      using mem assms(4,5) False by (auto simp: ctx_mem_def)
    with False assms p x b show ?thesis
      by (auto simp: resolveCompletion_def release_ctx_def Let_def Memcpy_def load_def store_def)
  qed
qed

text \<open>
  Resolving a context with a pending copy-back delivers the staging buffer to the caller:
  exactly the first \<open>len(buf)\<close> bytes of the caller's array become those of the staging buffer. A
  context that has a pending copy-back but no staging buffer delivers nothing at all.
\<close>

theorem resolve_copies_back:
  assumes "ctx_safe E w" and "registry w p = Some c" and "ctxs w c = Some x"
    and "cc_copyBack x = Some s" and "sl_loc s = GoMem a"
  shows "gomem (snd (resolveCompletion p w)) a =
    (if cc_buffer x = NULL then gomem w a
     else take (sl_len s) (blk_bytes (the (heap w (cc_buffer x)))) @ drop (sl_len s) (gomem w a))"
  using assms by (rule copied_back)

section \<open>Instances\<close>

text \<open>
  A context with one completion callback, two cleanups and a four-byte receive: the staging
  buffer (all zeros in \<open>quiet_env\<close>) replaces the caller's bytes.
\<close>

definition demo_world :: "nat world" where
  "demo_world =
     setCopyBack 0 \<lparr>sl_loc = GoMem 5, sl_len = 4\<rparr>
       (snd (ensureBuffer quiet_env 0 4
         (AddCleanup 0 (Some 9) (AddCleanup 0 (Some 8) (AddOnComplete 0 (Some 7)
           (snd (NewCompletionContext quiet_env (world0\<lparr>gomem := (\<lambda>_. [1, 2, 3, 4, 5, 6])\<rparr>))))))))"

lemmas demo_eval = demo_world_def world0_def quiet_env_def resp0_def bump_malloc_def NewCompletionContext_def
  CompletionContextAlloc_def c_malloc_def cc_new_def AddOnComplete_def AddCleanup_def setCopyBack_def
  ensureBuffer_def AllocBytes_def upd_ctx_def Let_def contents_def

definition demo_ctx :: cctx where
  "demo_ctx = \<lparr>cc_ptr = 1, cc_value = NilVal, cc_onComplete = [7], cc_cleanups = [8, 9],
     cc_buffer = 2, cc_bufCap = 4, cc_closed = False, cc_copyBack = Some \<lparr>sl_loc = GoMem 5, sl_len = 4\<rparr>\<rparr>"

lemma demo_facts:
  "registry demo_world 1 = Some 0" "ctxs demo_world 0 = Some demo_ctx" "ran demo_world = []"
  "gomem demo_world 5 = [1, 2, 3, 4, 5, 6]"
  "heap demo_world 2 = Some \<lparr>blk_owner = OBuf 0, blk_bytes = [0, 0, 0, 0]\<rparr>"
  by (simp_all add: demo_eval demo_ctx_def eval_nat_numeral)

lemma demo_safe: "ctx_safe quiet_env demo_world"
proof -
  let ?w0 = "world0\<lparr>gomem := (\<lambda>_. [1, 2, 3, 4, 5, 6])\<rparr>"
  let ?w1 = "AddCleanup 0 (Some 9) (AddCleanup 0 (Some 8) (AddOnComplete 0 (Some 7)
           (snd (NewCompletionContext quiet_env ?w0))))"
  have "ctx_safe quiet_env ?w0"
    by (simp add: ctx_safe_def ctx_inv_def no_leak_def world0_def shape_def)
  then have "ctx_safe quiet_env ?w1"
    by (intro ctx_safe_steps)
  moreover have "buffer_ok ?w1 0 4"
    by (simp add: buffer_ok_def demo_eval)
  ultimately have "ctx_safe quiet_env (snd (ensureBuffer quiet_env 0 4 ?w1))"
    by (intro safe.keeps [OF _ st_buffer]) simp_all
  moreover have "ctx_step quiet_env (snd (ensureBuffer quiet_env 0 4 ?w1)) demo_world"
    unfolding demo_world_def by (rule st_copy) (simp_all add: demo_eval)
  ultimately show ?thesis by (rule safe.keeps)
qed


theorem resolve_once_witness:
  "filter (about 0) (ran (snd (resolveCompletion 1 demo_world))) =
     [RanComplete 0 7, RanCleanup 0 9, RanCleanup 0 8]"
  using resolve_once [OF demo_safe demo_facts(1,2) rtranclp.rtrancl_refl] demo_facts(3)
  by (simp add: demo_ctx_def)

theorem Release_skips_completions_witness:
  "filter (about 0) (ran (Release 0 demo_world)) = [RanCleanup 0 9, RanCleanup 0 8]"
  using Release_skips_completions [OF demo_safe demo_facts(2) _ rtranclp.rtrancl_refl] demo_facts(3)
  by (simp add: demo_ctx_def)

theorem resolve_copies_back_witness:
  "gomem (snd (resolveCompletion 1 demo_world)) 5 = [0, 0, 0, 0, 5, 6]"
  using resolve_copies_back [OF demo_safe demo_facts(1,2), of "\<lparr>sl_loc = GoMem 5, sl_len = 4\<rparr>" 5] demo_facts(4,5)
  by (simp add: demo_ctx_def)

end
