(* ===== verification/Regions.thy ===== *)
theory Regions
  imports Context_Life Discovery
begin

text \<open>
  Memory registration: \<open>internal/capi/mr.go\<close> and \<open>fi/memory.go\<close>. A \<open>*MemoryRegion\<close> is the number
  of its record in \<open>regions\<close>; a nil region is \<open>None\<close> where the code accepts one.
\<close>

section \<open>Native registration (internal/capi/mr.go)\<close>

definition capi_RegisterMemory ::
  "'p cenv \<Rightarrow> ptr \<Rightarrow> ptr \<Rightarrow> nat \<Rightarrow> uint64 \<Rightarrow> uint64 \<Rightarrow> uint64 \<Rightarrow> uint64 \<Rightarrow> 'p world \<Rightarrow> ptr result \<times> 'p world" where
  "capi_RegisterMemory E d buf len access offset requestedKey flags w =
     (if d = NULL then (Inl (unavailable E ''fi_mr_reg''), w)
      else if len = 0 then (Inl (unavailable E ''fi_mr_reg''), w)
      else open_call E (C_mr_reg d buf len access offset requestedKey flags) ''fi_mr_reg'' w)"

text \<open>
  The vector form fills a C array of \<open>struct iovec\<close> (16 bytes each), freed on every return.
\<close>

definition capi_RegisterMemoryIOV ::
  "'p cenv \<Rightarrow> ptr \<Rightarrow> (ptr \<times> nat) list \<Rightarrow> uint64 \<Rightarrow> uint64 \<Rightarrow> uint64 \<Rightarrow> uint64 \<Rightarrow> 'p world \<Rightarrow> ptr result \<times> 'p world" where
  "capi_RegisterMemoryIOV E d iov access offset requestedKey flags w =
     (if d = NULL then (Inl (unavailable E ''fi_mr_regv''), w)
      else if iov = [] then (Inl (Msg ''fi_mr_regv: empty iov''), w)
      else
        (case c_malloc E OTemp (16 * length iov) w of
           (ciov, w1) \<Rightarrow>
             if ciov = NULL then (Inl (WithOp (FI_ENOMEM (hdr E)) ''fi_mr_regv''), w1)
             else if list_ex (\<lambda>(base, len). base = NULL \<or> len = 0) iov
             then (Inl (Msg ''fi_mr_regv: segment requires base pointer and length''), c_free ciov w1)
             else
               (case open_call E (C_mr_regv d iov access offset requestedKey flags) ''fi_mr_regv'' w1 of
                  (r, w2) \<Rightarrow> (r, c_free ciov w2))))"

definition capi_MR_Close :: "'p cenv \<Rightarrow> ptr \<Rightarrow> 'p world \<Rightarrow> (goerr option \<times> ptr) \<times> 'p world" where
  "capi_MR_Close E m w =
     (if m = NULL then ((None, NULL), w)
      else (case status_call E (C_mr_close m) (close_op KMR) w of
              (Some e, w') \<Rightarrow> ((Some e, m), w')
            | (None, w') \<Rightarrow> ((None, NULL), w')))"

definition capi_MR_Key :: "'p cenv \<Rightarrow> ptr \<Rightarrow> 'p world \<Rightarrow> uint64 \<times> 'p world" where
  "capi_MR_Key E m w =
     (if m = NULL then (0, w) else (case ccall E (C_mr_key m) w of (r, w') \<Rightarrow> (r_data r, w')))"

definition capi_MR_Descriptor :: "'p cenv \<Rightarrow> ptr \<Rightarrow> 'p world \<Rightarrow> ptr \<times> 'p world" where
  "capi_MR_Descriptor E m w =
     (if m = NULL then (NULL, w) else (case ccall E (C_mr_desc m) w of (r, w') \<Rightarrow> (r_ptr r, w')))"

definition capi_MR_DescriptorSize :: "ptr \<Rightarrow> nat" where
  "capi_MR_DescriptorSize m = (if m = NULL then 0 else 0)"

section \<open>Regions (fi/memory.go)\<close>

definition supportedDomainMRModes :: "fi_hdr \<Rightarrow> uint64" where
  "supportedDomainMRModes H =
     FI_MR_LOCAL H OR FI_MR_VIRT_ADDR H OR FI_MR_PROV_KEY H OR FI_MR_MMU_NOTIFY H OR FI_MR_RMA_EVENT H"

record MRRegisterOptions =
  ro_Access :: uint64
  ro_RequestedKey :: uint64
  ro_Offset :: uint64
  ro_Flags :: uint64

definition region_Bytes :: "nat \<Rightarrow> 'p world \<Rightarrow> slice" where
  "region_Bytes r w =
     (case regions w r of
        None \<Rightarrow> nil_slice
      | Some m \<Rightarrow> if mr_buffer m = NULL \<or> mr_length m = 0 then nil_slice
                  else \<lparr>sl_loc = CMem (mr_buffer m), sl_len = mr_length m\<rparr>)"

definition region_Key :: "'p cenv \<Rightarrow> nat \<Rightarrow> 'p world \<Rightarrow> uint64 \<times> 'p world" where
  "region_Key E r w =
     (case Option.bind (regions w r) mr_handle of None \<Rightarrow> (0, w) | Some p \<Rightarrow> capi_MR_Key E p w)"

definition region_Access :: "nat \<Rightarrow> 'p world \<Rightarrow> uint64" where
  "region_Access r w = (case regions w r of None \<Rightarrow> 0 | Some m \<Rightarrow> mr_access m)"

definition region_Descriptor :: "'p cenv \<Rightarrow> nat \<Rightarrow> 'p world \<Rightarrow> ptr \<times> 'p world" where
  "region_Descriptor E r w =
     (case Option.bind (regions w r) mr_handle of None \<Rightarrow> (NULL, w) | Some p \<Rightarrow> capi_MR_Descriptor E p w)"

definition region_DescriptorSize :: "nat \<Rightarrow> 'p world \<Rightarrow> nat" where
  "region_DescriptorSize r w =
     (case regions w r of
        None \<Rightarrow> 0
      | Some m \<Rightarrow>
          (let n = (case mr_handle m of None \<Rightarrow> 0 | Some p \<Rightarrow> capi_MR_DescriptorSize p)
           in if n \<noteq> 0 then n else mr_descSize m))"

definition region_DescriptorBytes :: "'p cenv \<Rightarrow> nat \<Rightarrow> 'p world \<Rightarrow> byte list \<times> 'p world" where
  "region_DescriptorBytes E r w =
     (case Option.bind (regions w r) mr_handle of
        None \<Rightarrow> ([], w)
      | Some p \<Rightarrow>
          (case capi_MR_Descriptor E p w of
             (desc, w1) \<Rightarrow>
               if desc = NULL then ([], w1)
               else (let n = region_DescriptorSize r w1 in if n = 0 then ([], w1) else GoBytes desc n w1)))"

definition region_Size :: "nat \<Rightarrow> 'p world \<Rightarrow> nat" where
  "region_Size r w = (case regions w r of None \<Rightarrow> 0 | Some m \<Rightarrow> mr_length m)"

text \<open>A region once closed.\<close>

definition closed_region :: mregion where
  "closed_region = \<lparr>mr_handle = None, mr_buffer = NULL, mr_length = 0, mr_access = 0, mr_descSize = 0,
     mr_ownsBuf = False\<rparr>"

definition region_Close :: "'p cenv \<Rightarrow> nat \<Rightarrow> 'p world \<Rightarrow> goerr option \<times> 'p world" where
  "region_Close E r w =
     (case regions w r of
        None \<Rightarrow> (None, w)
      | Some m \<Rightarrow>
          (case (case mr_handle m of
                   None \<Rightarrow> (None, w)
                 | Some p \<Rightarrow> (case capi_MR_Close E p w of ((e, _), w') \<Rightarrow> (e, w'))) of
             (Some e, w1) \<Rightarrow> (Some e, w1)
           | (None, w1) \<Rightarrow>
               let w2 = (if mr_buffer m \<noteq> NULL \<and> mr_ownsBuf m then FreeBytes (mr_buffer m) w1 else w1)
               in (None, w2\<lparr>regions := (regions w2)(r \<mapsto> closed_region)\<rparr>)))"

text \<open>The head shared by the three registration functions: mode check and effective access.\<close>

definition unsupported_modes :: "fi_hdr \<Rightarrow> godomain \<Rightarrow> uint64" where
  "unsupported_modes H d = gd_mrMode d AND NOT (supportedDomainMRModes H)"

definition effective_access :: "fi_hdr \<Rightarrow> godomain \<Rightarrow> MRRegisterOptions option \<Rightarrow> uint64" where
  "effective_access H d opts =
     (let a0 = (case opts of None \<Rightarrow> 0 | Some o' \<Rightarrow> ro_Access o');
          a1 = (if a0 = 0 then FI_MR_LOCAL H else a0)
      in if RequiresMRMode (gd_mrMode d) (FI_MR_LOCAL H) then a1 OR FI_MR_LOCAL H else a1)"

definition mode_error :: goerr where
  "mode_error = Wrap ''libfabric: domain requires unsupported mr_mode bits'' (Sentinel ErrCapabilityUnsupported)"

definition new_region :: "mregion \<Rightarrow> 'p world \<Rightarrow> nat \<times> 'p world" where
  "new_region m w =
     (next_id w, w\<lparr>regions := (regions w)(next_id w \<mapsto> m), next_id := Suc (next_id w)\<rparr>)"

definition opt_field :: "(MRRegisterOptions \<Rightarrow> uint64) \<Rightarrow> MRRegisterOptions option \<Rightarrow> uint64" where
  "opt_field f opts = (case opts of None \<Rightarrow> 0 | Some o' \<Rightarrow> f o')"

definition RegisterMemoryWithOptions ::
  "'p cenv \<Rightarrow> godomain \<Rightarrow> slice \<Rightarrow> MRRegisterOptions option \<Rightarrow> 'p world \<Rightarrow> nat result \<times> 'p world" where
  "RegisterMemoryWithOptions E d buf opts =
     with_handle (gd_ref d) Inl (ErrInvalidHandle ''domain'')
       (\<lambda>dp w.
          if sl_len buf = 0
          then (Inl (Msg ''libfabric: memory registration requires non-empty buffer''), w)
          else if unsupported_modes (hdr E) d \<noteq> 0 then (Inl mode_error, w)
          else
            (let access = effective_access (hdr E) d opts
             in case AllocBytes E (ORegion (next_id w)) (sl_len buf) w of
                  (cbuf, w1) \<Rightarrow>
                    if cbuf = NULL then (Inl (Msg ''libfabric: unable to allocate registration buffer''), w1)
                    else
                      try_act
                        (capi_RegisterMemory E dp cbuf (sl_len buf) access (opt_field ro_Offset opts)
                           (opt_field ro_RequestedKey opts) (opt_field ro_Flags opts))
                        (\<lambda>e w. (Inl e, FreeBytes cbuf w))
                        (\<lambda>mr w.
                           case new_region \<lparr>mr_handle = Some mr, mr_buffer = cbuf, mr_length = sl_len buf,
                                            mr_access = access, mr_descSize = gd_mrKeySize d,
                                            mr_ownsBuf = True\<rparr> w of
                             (r, w') \<Rightarrow> (Inr r, w'))
                        (Memcpy (CMem cbuf) (sl_loc buf) (sl_len buf) w1)))"

definition RegisterMemory :: "'p cenv \<Rightarrow> godomain \<Rightarrow> slice \<Rightarrow> uint64 \<Rightarrow> 'p world \<Rightarrow> nat result \<times> 'p world" where
  "RegisterMemory E d buf access =
     RegisterMemoryWithOptions E d buf
       (Some \<lparr>ro_Access = access, ro_RequestedKey = 0, ro_Offset = 0, ro_Flags = 0\<rparr>)"

definition RegisterMemoryPointer ::
  "'p cenv \<Rightarrow> godomain \<Rightarrow> ptr \<Rightarrow> nat \<Rightarrow> MRRegisterOptions option \<Rightarrow> 'p world \<Rightarrow> nat result \<times> 'p world" where
  "RegisterMemoryPointer E d p len opts =
     with_handle (gd_ref d) Inl (ErrInvalidHandle ''domain'')
       (\<lambda>dp w.
          if p = NULL \<or> len = 0
          then (Inl (Msg ''libfabric: pointer registration requires non-nil pointer and positive length''), w)
          else if unsupported_modes (hdr E) d \<noteq> 0 then (Inl mode_error, w)
          else
            (let access = effective_access (hdr E) d opts
             in try_act
                  (capi_RegisterMemory E dp p len access (opt_field ro_Offset opts)
                     (opt_field ro_RequestedKey opts) (opt_field ro_Flags opts))
                  (\<lambda>e w. (Inl e, w))
                  (\<lambda>mr w.
                     case new_region \<lparr>mr_handle = Some mr, mr_buffer = p, mr_length = len,
                                      mr_access = access, mr_descSize = gd_mrKeySize d,
                                      mr_ownsBuf = False\<rparr> w of
                       (r, w') \<Rightarrow> (Inr r, w'))
                  w))"

text \<open>Segments. The total is a \<open>uintptr\<close> sum, so it wraps.\<close>

definition segments_total :: "(ptr \<times> nat) list \<Rightarrow> nat" where
  "segments_total segs = unat (\<Sum>(p, len)\<leftarrow>segs. (of_nat len :: uint64))"

definition RegisterMemorySegments ::
  "'p cenv \<Rightarrow> godomain \<Rightarrow> (ptr \<times> nat) list \<Rightarrow> MRRegisterOptions option \<Rightarrow> 'p world \<Rightarrow> nat result \<times> 'p world" where
  "RegisterMemorySegments E d segs opts =
     with_handle (gd_ref d) Inl (ErrInvalidHandle ''domain'')
       (\<lambda>dp w.
          if segs = []
          then (Inl (Msg ''libfabric: memory registration requires at least one segment''), w)
          else if unsupported_modes (hdr E) d \<noteq> 0 then (Inl mode_error, w)
          else if 0 < gd_mrIovLimit d \<and> gd_mrIovLimit d < length segs
          then (Inl (Msg (''libfabric: provider allows at most '' @ show_nat (gd_mrIovLimit d) @ '' segments'')), w)
          else
            (let access = effective_access (hdr E) d opts
             in if list_ex (\<lambda>(p, len). p = NULL \<or> len = 0) segs
                then (Inl (Msg ''libfabric: segment requires non-nil pointer and length''), w)
                else
                  try_act
                    (capi_RegisterMemoryIOV E dp segs access (opt_field ro_Offset opts)
                       (opt_field ro_RequestedKey opts) (opt_field ro_Flags opts))
                    (\<lambda>e w. (Inl e, w))
                    (\<lambda>mr w.
                       case new_region \<lparr>mr_handle = Some mr, mr_buffer = NULL, mr_length = segments_total segs,
                                        mr_access = access, mr_descSize = gd_mrKeySize d,
                                        mr_ownsBuf = False\<rparr> w of
                         (r, w') \<Rightarrow> (Inr r, w'))
                    w))"

definition hasAccess :: "nat \<Rightarrow> uint64 \<Rightarrow> 'p world \<Rightarrow> bool" where
  "hasAccess r flag w = (case regions w r of None \<Rightarrow> False | Some m \<Rightarrow> has_bits (mr_access m) flag)"

definition ensureRegionAccess :: "nat option \<Rightarrow> uint64 \<Rightarrow> 'p world \<Rightarrow> goerr option" where
  "ensureRegionAccess region required w =
     (case region of
        None \<Rightarrow> None
      | Some r \<Rightarrow>
          (case regions w r of
             None \<Rightarrow> None
           | Some m \<Rightarrow>
               if mr_handle m = None \<or> mr_buffer m = NULL then Some (ErrInvalidHandle ''memory region'')
               else if required \<noteq> 0 \<and> \<not> hasAccess r required w then Some (Sentinel ErrInsufficientAccess)
               else None))"

end
