(* ===== verification/Region_Life.thy ===== *)
theory Region_Life
  imports Regions
begin

text \<open>
  What registration and deregistration do to memory, to the region table and to the ledger, the
  invariant of the region table, and its runs.
\<close>

section \<open>Effects of the native calls\<close>

lemma capi_RegisterMemory_frame [simp, frame]:
  "shape (snd (capi_RegisterMemory E d b n a off k fl w)) = shape w"
  "fault (snd (capi_RegisterMemory E d b n a off k fl w)) = fault w"
  "gomem (snd (capi_RegisterMemory E d b n a off k fl w)) = gomem w"
  "handles (snd (capi_RegisterMemory E d b n a off k fl w)) = handles w"
  "next_id (snd (capi_RegisterMemory E d b n a off k fl w)) = next_id w"
  "registry (snd (capi_RegisterMemory E d b n a off k fl w)) = registry w"
  "ctxs (snd (capi_RegisterMemory E d b n a off k fl w)) = ctxs w"
  "regions (snd (capi_RegisterMemory E d b n a off k fl w)) = regions w"
  "ran (snd (capi_RegisterMemory E d b n a off k fl w)) = ran w"
  by (simp_all add: capi_RegisterMemory_def)

lemma ledger_RegisterMemory:
  "ledger E (snd (capi_RegisterMemory E d b n a off k fl w)) h =
     ledger E w h + (case fst (capi_RegisterMemory E d b n a off k fl w) of Inl _ \<Rightarrow> 0 | Inr p \<Rightarrow> tally KMR p h)"
  by (simp add: capi_RegisterMemory_def ledger_open_call)

lemma capi_MR_Close_frame [simp, frame]:
  "shape (snd (capi_MR_Close E p w)) = shape w"
  "fault (snd (capi_MR_Close E p w)) = fault w"
  "gomem (snd (capi_MR_Close E p w)) = gomem w"
  "handles (snd (capi_MR_Close E p w)) = handles w"
  "next_id (snd (capi_MR_Close E p w)) = next_id w"
  "registry (snd (capi_MR_Close E p w)) = registry w"
  "ctxs (snd (capi_MR_Close E p w)) = ctxs w"
  "regions (snd (capi_MR_Close E p w)) = regions w"
  "ran (snd (capi_MR_Close E p w)) = ran w"
  by (auto simp: capi_MR_Close_def split_beta split: option.split)

text \<open>A region leaves the ledger when its native close succeeds, and only then.\<close>

lemma ledger_MR_Close:
  "ledger E (snd (capi_MR_Close E p w)) h =
     ledger E w h - (if fst (fst (capi_MR_Close E p w)) = None then tally KMR p h else 0)"
  using ErrorFromStatus_None_op [of "hdr E" "r_ret (fst (ccall E (C_mr_close p) w))" "close_op KMR" "[]"]
  by (auto simp: capi_MR_Close_def status_call_def ledger_def split_beta split: option.split)

section \<open>Registration\<close>

lemma Memcpy_to_C [simp]: "gomem (Memcpy (CMem b) s n w) = gomem w"
  by (simp add: Memcpy_def store_def split: option.split)

lemma AllocBytes_frame [simp, frame]:
  "fault (snd (AllocBytes E own n w)) = fault w"
  "gomem (snd (AllocBytes E own n w)) = gomem w"
  "handles (snd (AllocBytes E own n w)) = handles w"
  "next_id (snd (AllocBytes E own n w)) = next_id w"
  "registry (snd (AllocBytes E own n w)) = registry w"
  "ctxs (snd (AllocBytes E own n w)) = ctxs w"
  "regions (snd (AllocBytes E own n w)) = regions w"
  "ran (snd (AllocBytes E own n w)) = ran w"
  by (simp_all add: AllocBytes_def)

lemma RegisterMemoryWithOptions_frame [simp, frame]:
  "gomem (snd (RegisterMemoryWithOptions E d buf opts w)) = gomem w"
  "handles (snd (RegisterMemoryWithOptions E d buf opts w)) = handles w"
  "registry (snd (RegisterMemoryWithOptions E d buf opts w)) = registry w"
  "ctxs (snd (RegisterMemoryWithOptions E d buf opts w)) = ctxs w"
  "ran (snd (RegisterMemoryWithOptions E d buf opts w)) = ran w"
  by (simp_all add: RegisterMemoryWithOptions_def with_handle_def Let_def try_act_def new_region_def split_beta
      split: option.split sum.split)

text \<open>
  The two outcomes of registering a copied buffer: nothing changed but the log of calls, or one
  new block, owned by the new region and as long as the buffer.
\<close>

lemma RegisterMemory_cases:
  assumes reg: "RegisterMemoryWithOptions E d buf opts w = (r, w')" and m: "malloc_spec E"
    and buf: "holds_bytes w (sl_loc buf) (sl_len buf)"
  obtains (failed) e where "r = Inl e"
      "shape w' = shape w" "regions w' = regions w" "next_id w' = next_id w" "fault w' = fault w"
      "\<And>h. ledger E w' h = ledger E w h"
  | (made) b p where "r = Inr (next_id w)" "b \<noteq> NULL" "0 < sl_len buf" "shape w b = None"
      "shape w' = (shape w)(b \<mapsto> (ORegion (next_id w), sl_len buf))"
      "regions w' = (regions w)(next_id w \<mapsto>
         \<lparr>mr_handle = Some p, mr_buffer = b, mr_length = sl_len buf, mr_access = effective_access (hdr E) d opts,
          mr_descSize = gd_mrKeySize d, mr_ownsBuf = True\<rparr>)"
      "next_id w' = Suc (next_id w)" "fault w' = fault w"
      "\<And>h. ledger E w' h = ledger E w h + tally KMR p h"
proof -
  have frame_fail: thesis if "r = Inl e" "w' = w" for e
    using that by (intro failed) simp_all
  show thesis
  proof (cases "handles w (gd_ref d)")
    case None
    with reg frame_fail show thesis by (auto simp: RegisterMemoryWithOptions_def with_handle_def)
  next
    case (Some kp)
    obtain k dp where kp: "kp = (k, dp)" by fastforce
    show thesis
    proof (cases "sl_len buf = 0 \<or> unsupported_modes (hdr E) d \<noteq> 0")
      case True
      with reg Some kp frame_fail show thesis
        by (auto simp: RegisterMemoryWithOptions_def with_handle_def split: if_splits)
    next
      case False
      obtain b w1 where al: "AllocBytes E (ORegion (next_id w)) (sl_len buf) w = (b, w1)" by fastforce
      note mem = AllocBytes_cases [OF al m]
      have led1: "ledger E w1 = ledger E w" using mem by (simp add: ledger_def)
      show thesis
      proof (cases "b = NULL")
        case True
        with reg Some kp False al have "w' = w1" "\<exists>e. r = Inl e"
          by (auto simp: RegisterMemoryWithOptions_def with_handle_def Let_def)
        with True mem led1 show thesis by (auto intro: failed)
      next
        case b: False
        have "holds_bytes w1 (CMem b) (sl_len buf)" using mem b by simp
        moreover have "holds_bytes w1 (sl_loc buf) (sl_len buf)"
          using buf mem b by (cases "sl_loc buf") (auto split: if_splits)
        ultimately have nofault: "fault (Memcpy (CMem b) (sl_loc buf) (sl_len buf) w1) = fault w"
          using mem fault_Memcpy [of w1 "CMem b" "sl_len buf" "sl_loc buf"] by simp
        let ?w2 = "Memcpy (CMem b) (sl_loc buf) (sl_len buf) w1"
        obtain q w3 where q: "capi_RegisterMemory E dp b (sl_len buf) (effective_access (hdr E) d opts)
            (opt_field ro_Offset opts) (opt_field ro_RequestedKey opts) (opt_field ro_Flags opts) ?w2 = (q, w3)"
          by fastforce
        have fr: "shape w3 = shape w1" "regions w3 = regions w1" "next_id w3 = next_id w1" "fault w3 = fault w"
          using q nofault capi_RegisterMemory_frame(1,2,5,8) [where w = ?w2 and E = E and d = dp and b = b and n = "sl_len buf"
            and a = "effective_access (hdr E) d opts" and off = "opt_field ro_Offset opts"
            and k = "opt_field ro_RequestedKey opts" and fl = "opt_field ro_Flags opts"]
          by simp_all
        have led3: "ledger E w3 h = ledger E w h + (case q of Inl _ \<Rightarrow> 0 | Inr p \<Rightarrow> tally KMR p h)" for h
          using ledger_RegisterMemory [of E dp b "sl_len buf" "effective_access (hdr E) d opts" "opt_field ro_Offset opts"
            "opt_field ro_RequestedKey opts" "opt_field ro_Flags opts" ?w2 h] q led1 by simp
        show thesis
        proof (cases q)
          case (Inl e)
          with reg Some kp False al b q have "r = Inl e" "w' = c_free b w3"
            by (auto simp: RegisterMemoryWithOptions_def with_handle_def Let_def try_act_def)
          with fr mem b led3 Inl show thesis
            by (intro failed) (auto simp: fun_upd_idem_iff)
        next
          case (Inr p)
          with reg Some kp False al b q have "r = Inr (next_id w3)"
            "w' = snd (new_region \<lparr>mr_handle = Some p, mr_buffer = b, mr_length = sl_len buf,
               mr_access = effective_access (hdr E) d opts, mr_descSize = gd_mrKeySize d, mr_ownsBuf = True\<rparr> w3)"
            by (auto simp: RegisterMemoryWithOptions_def with_handle_def Let_def try_act_def new_region_def)
          with fr mem b led3 Inr False show thesis
            by (intro made [of b p]) (auto simp: new_region_def)
        qed
      qed
    qed
  qed
qed

text \<open>The two forms that register the caller's memory add a region that owns nothing.\<close>

lemma RegisterMemoryPointer_cases:
  assumes "RegisterMemoryPointer E d p n opts w = (r, w')"
  obtains (failed) e where "r = Inl e"
      "shape w' = shape w" "regions w' = regions w" "next_id w' = next_id w" "fault w' = fault w"
      "\<And>h. ledger E w' h = ledger E w h"
  | (made) q where "r = Inr (next_id w)" "p \<noteq> NULL" "0 < n" "shape w' = shape w"
      "regions w' = (regions w)(next_id w \<mapsto>
         \<lparr>mr_handle = Some q, mr_buffer = p, mr_length = n, mr_access = effective_access (hdr E) d opts,
          mr_descSize = gd_mrKeySize d, mr_ownsBuf = False\<rparr>)"
      "next_id w' = Suc (next_id w)" "fault w' = fault w"
      "\<And>h. ledger E w' h = ledger E w h + tally KMR q h"
proof (cases "handles w (gd_ref d) = None \<or> p = NULL \<or> n = 0 \<or> unsupported_modes (hdr E) d \<noteq> 0")
  case True
  with assms have "w' = w" "\<exists>e. r = Inl e"
    by (auto simp: RegisterMemoryPointer_def with_handle_def split: option.splits if_splits)
  then show thesis by (auto intro: failed)
next
  case False
  then obtain k dp where h: "handles w (gd_ref d) = Some (k, dp)" by fastforce
  let ?reg = "capi_RegisterMemory E dp p n (effective_access (hdr E) d opts) (opt_field ro_Offset opts)
    (opt_field ro_RequestedKey opts) (opt_field ro_Flags opts) w"
  have led: "ledger E (snd ?reg) x = ledger E w x + (case fst ?reg of Inl _ \<Rightarrow> 0 | Inr q \<Rightarrow> tally KMR q x)" for x
    by (rule ledger_RegisterMemory)
  show thesis
  proof (cases "fst ?reg")
    case (Inl e)
    with assms h False led show thesis
      by (intro failed [of e]) (auto simp: RegisterMemoryPointer_def with_handle_def Let_def try_act_def split_beta)
  next
    case (Inr q)
    with assms h False led show thesis
      by (intro made [of q])
        (auto simp: RegisterMemoryPointer_def with_handle_def Let_def try_act_def split_beta new_region_def)
  qed
qed

text \<open>
  The vector form frees its temporary array on every path. Its region has no buffer.
\<close>

lemma RegisterMemoryIOV_effect:
  assumes "malloc_spec E"
  shows "shape (snd (capi_RegisterMemoryIOV E d iov a off k fl w)) = shape w"
    and "fault (snd (capi_RegisterMemoryIOV E d iov a off k fl w)) = fault w"
    and "regions (snd (capi_RegisterMemoryIOV E d iov a off k fl w)) = regions w"
    and "next_id (snd (capi_RegisterMemoryIOV E d iov a off k fl w)) = next_id w"
    and "ledger E (snd (capi_RegisterMemoryIOV E d iov a off k fl w)) h = ledger E w h +
      (case fst (capi_RegisterMemoryIOV E d iov a off k fl w) of Inl _ \<Rightarrow> 0 | Inr p \<Rightarrow> tally KMR p h)"
proof -
  have undo: "(shape w)(p := None) = shape w" if "shape w p = None" for p
    using that by auto
  let ?m = "c_malloc E OTemp (16 * length iov) w"
  note fresh = c_malloc_fresh [OF assms, of OTemp "16 * length iov" w]
  show "shape (snd (capi_RegisterMemoryIOV E d iov a off k fl w)) = shape w"
    using fresh undo by (simp add: capi_RegisterMemoryIOV_def split_beta shape_c_malloc)
  show "fault (snd (capi_RegisterMemoryIOV E d iov a off k fl w)) = fault w"
    by (simp add: capi_RegisterMemoryIOV_def split_beta shape_c_malloc)
  show "regions (snd (capi_RegisterMemoryIOV E d iov a off k fl w)) = regions w"
    "next_id (snd (capi_RegisterMemoryIOV E d iov a off k fl w)) = next_id w"
    by (simp_all add: capi_RegisterMemoryIOV_def split_beta)
  show "ledger E (snd (capi_RegisterMemoryIOV E d iov a off k fl w)) h = ledger E w h +
      (case fst (capi_RegisterMemoryIOV E d iov a off k fl w) of Inl _ \<Rightarrow> 0 | Inr p \<Rightarrow> tally KMR p h)"
    by (simp add: capi_RegisterMemoryIOV_def split_beta ledger_open_call)
qed

lemma RegisterMemorySegments_cases:
  assumes "RegisterMemorySegments E d segs opts w = (r, w')" and m: "malloc_spec E"
  obtains (failed) e where "r = Inl e"
      "shape w' = shape w" "regions w' = regions w" "next_id w' = next_id w" "fault w' = fault w"
      "\<And>h. ledger E w' h = ledger E w h"
  | (made) q where "r = Inr (next_id w)" "shape w' = shape w"
      "regions w' = (regions w)(next_id w \<mapsto>
         \<lparr>mr_handle = Some q, mr_buffer = NULL, mr_length = segments_total segs,
          mr_access = effective_access (hdr E) d opts, mr_descSize = gd_mrKeySize d, mr_ownsBuf = False\<rparr>)"
      "next_id w' = Suc (next_id w)" "fault w' = fault w"
      "\<And>h. ledger E w' h = ledger E w h + tally KMR q h"
proof (cases "handles w (gd_ref d) = None \<or> segs = [] \<or> unsupported_modes (hdr E) d \<noteq> 0 \<or>
    (0 < gd_mrIovLimit d \<and> gd_mrIovLimit d < length segs) \<or> list_ex (\<lambda>(p, len). p = NULL \<or> len = 0) segs")
  case True
  with assms(1) have "w' = w" "\<exists>e. r = Inl e"
    by (auto simp: RegisterMemorySegments_def with_handle_def Let_def split: option.splits if_splits)
  then show thesis by (auto intro: failed)
next
  case False
  then obtain k dp where h: "handles w (gd_ref d) = Some (k, dp)" by fastforce
  let ?reg = "capi_RegisterMemoryIOV E dp segs (effective_access (hdr E) d opts) (opt_field ro_Offset opts)
    (opt_field ro_RequestedKey opts) (opt_field ro_Flags opts) w"
  note eff = RegisterMemoryIOV_effect [OF m, of dp segs "effective_access (hdr E) d opts" "opt_field ro_Offset opts"
    "opt_field ro_RequestedKey opts" "opt_field ro_Flags opts" w]
  show thesis
  proof (cases "fst ?reg")
    case (Inl e)
    with assms(1) h False eff show thesis
      by (intro failed [of e]) (auto simp: RegisterMemorySegments_def with_handle_def Let_def try_act_def split_beta)
  next
    case (Inr q)
    with assms(1) h False eff show thesis
      by (intro made [of q])
        (auto simp: RegisterMemorySegments_def with_handle_def Let_def try_act_def split_beta new_region_def)
  qed
qed

section \<open>Closing\<close>

text \<open>
  A failed close changes nothing but the log; a successful one empties the record, frees the
  buffer it owns, and takes the registration off the ledger.
\<close>

lemma region_Close_cases:
  assumes "region_Close E r w = (e, w')"
  obtains (absent) "regions w r = None" "e = None" "w' = w"
  | (failed) m p err where "regions w r = Some m" "mr_handle m = Some p" "p \<noteq> NULL" "e = Some err"
      "shape w' = shape w" "regions w' = regions w" "next_id w' = next_id w" "fault w' = fault w"
      "\<And>h. ledger E w' h = ledger E w h"
  | (closed) m where "regions w r = Some m" "e = None"
      "shape w' = (if mr_buffer m \<noteq> NULL \<and> mr_ownsBuf m then (shape w)(mr_buffer m := None) else shape w)"
      "regions w' = (regions w)(r \<mapsto> closed_region)" "next_id w' = next_id w"
      "fault w' \<longleftrightarrow> fault w \<or> (mr_buffer m \<noteq> NULL \<and> mr_ownsBuf m \<and> shape w (mr_buffer m) = None)"
      "\<And>h. ledger E w' h = ledger E w h - (case mr_handle m of None \<Rightarrow> 0 | Some p \<Rightarrow> tally KMR p h)"
proof (cases "regions w r")
  case None
  with assms show thesis by (intro absent) (simp_all add: region_Close_def)
next
  case (Some m)
  show thesis
  proof (cases "mr_handle m")
    case None
    with Some assms show thesis by (intro closed) (auto simp: region_Close_def Let_def split: if_splits)
  next
    case h: (Some p)
    show thesis
    proof (cases "fst (fst (capi_MR_Close E p w))")
      case None
      with h Some assms ledger_MR_Close [of E p w] show thesis
        by (intro closed) (auto simp: region_Close_def Let_def split_beta split: if_splits)
    next
      case err: (Some x)
      then have "p \<noteq> NULL" by (cases "p = NULL") (simp_all add: capi_MR_Close_def)
      with err h Some assms ledger_MR_Close [of E p w] show thesis
        by (intro failed [of m p x]) (auto simp: region_Close_def split_beta)
    qed
  qed
qed

lemma region_Close_frame [simp, frame]:
  "gomem (snd (region_Close E r w)) = gomem w"
  "handles (snd (region_Close E r w)) = handles w"
  "registry (snd (region_Close E r w)) = registry w"
  "ctxs (snd (region_Close E r w)) = ctxs w"
  "ran (snd (region_Close E r w)) = ran w"
  "next_id (snd (region_Close E r w)) = next_id w"
  by (simp_all add: region_Close_def split_beta Let_def split: option.split)

section \<open>The invariant of the region table\<close>

definition region_ok :: "'p world \<Rightarrow> nat \<Rightarrow> mregion \<Rightarrow> bool" where
  "region_ok w r m \<longleftrightarrow> r < next_id w \<and>
     (mr_ownsBuf m \<longrightarrow> mr_buffer m \<noteq> NULL \<and> shape w (mr_buffer m) = Some (ORegion r, mr_length m))"

definition region_inv :: "'p world \<Rightarrow> bool" where
  "region_inv w \<longleftrightarrow> \<not> fault w \<and>
     (\<forall>r m. regions w r = Some m \<longrightarrow> region_ok w r m) \<and>
     (\<forall>p r n. shape w p = Some (ORegion r, n) \<longrightarrow>
        (\<exists>m. regions w r = Some m \<and> mr_ownsBuf m \<and> mr_buffer m = p))"

definition region_frame :: "'p world \<Rightarrow> 'p world \<Rightarrow> bool" where
  "region_frame w w' \<longleftrightarrow>
     (\<forall>p r n. shape w' p = Some (ORegion r, n) \<longleftrightarrow> shape w p = Some (ORegion r, n)) \<and>
     regions w' = regions w \<and> next_id w \<le> next_id w' \<and> fault w' = fault w"

lemma region_invD:
  assumes "region_inv w"
  shows "\<not> fault w"
    and "regions w r = Some m \<Longrightarrow> region_ok w r m"
    and "shape w p = Some (ORegion r, n) \<Longrightarrow> \<exists>m. regions w r = Some m \<and> mr_ownsBuf m \<and> mr_buffer m = p"
  using assms unfolding region_inv_def by blast+

lemma region_frame_shape:
  "shape w' = shape w \<Longrightarrow> regions w' = regions w \<Longrightarrow> next_id w \<le> next_id w' \<Longrightarrow> fault w' = fault w \<Longrightarrow>
   region_frame w w'"
  by (simp add: region_frame_def)

lemma region_inv_frame: "region_inv w \<Longrightarrow> region_frame w w' \<Longrightarrow> region_inv w'"
  unfolding region_inv_def region_ok_def region_frame_def by (simp, metis less_le_trans)

text \<open>
  One call: a copying registration (of a slice that is really there), the two forms that do
  not copy, a close of any region in any state, or a step of something else.
\<close>

inductive region_step :: "'p cenv \<Rightarrow> 'p world \<Rightarrow> 'p world \<Rightarrow> bool" for E where
  rs_register: "holds_bytes w (sl_loc buf) (sl_len buf) \<Longrightarrow>
    region_step E w (snd (RegisterMemoryWithOptions E d buf opts w))"
| rs_pointer: "region_step E w (snd (RegisterMemoryPointer E d p n opts w))"
| rs_segments: "region_step E w (snd (RegisterMemorySegments E d segs opts w))"
| rs_close: "region_step E w (snd (region_Close E r w))"
| rs_frame: "region_frame w w' \<Longrightarrow> region_step E w w'"

text \<open>A new region that owns nothing, or owns the block just allocated for it.\<close>

lemma region_inv_add:
  assumes inv: "region_inv w" and "fault w' = fault w" and "next_id w' = Suc (next_id w)"
    and rg: "regions w' = (regions w)(next_id w \<mapsto> m)"
    and sh: "if mr_ownsBuf m then mr_buffer m \<noteq> NULL \<and> shape w (mr_buffer m) = None \<and>
                 shape w' = (shape w)(mr_buffer m \<mapsto> (ORegion (next_id w), mr_length m))
             else shape w' = shape w"
  shows "region_inv w'"
proof -
  have new: "regions w (next_id w) = None"
    using inv by (cases "regions w (next_id w)") (auto simp: region_inv_def region_ok_def)
  have "region_ok w' r x" if "regions w' r = Some x" for r x
  proof (cases "r = next_id w")
    case True
    with that rg sh assms(3) show ?thesis by (auto simp: region_ok_def)
  next
    case False
    with that rg have "region_ok w r x" using inv by (auto simp: region_inv_def)
    with sh assms(3) show ?thesis by (auto simp: region_ok_def split: if_splits)
  qed
  moreover have "\<exists>x. regions w' r = Some x \<and> mr_ownsBuf x \<and> mr_buffer x = p"
    if "shape w' p = Some (ORegion r, n)" for p r n
  proof (cases "shape w p = Some (ORegion r, n)")
    case True
    with region_invD(3) [OF inv] obtain x where "regions w r = Some x" "mr_ownsBuf x" "mr_buffer x = p"
      by blast
    with new rg show ?thesis by auto
  next
    case False
    with that sh rg show ?thesis by (auto split: if_splits)
  qed
  ultimately show ?thesis
    using inv assms(2) by (simp add: region_inv_def)
qed

lemma region_inv_Close:
  assumes inv: "region_inv w"
  shows "region_inv (snd (region_Close E r w))"
proof -
  obtain e w' where c: "region_Close E r w = (e, w')" by fastforce
  then have "region_inv w'"
  proof (cases rule: region_Close_cases)
    case absent
    with inv show ?thesis by simp
  next
    case (failed m p err)
    then show ?thesis by (intro region_inv_frame [OF inv] region_frame_shape) simp_all
  next
    case (closed m)
    have ok: "region_ok w r m" using closed inv by (simp add: region_inv_def)
    then have nf: "\<not> fault w'" using closed inv by (auto simp: region_inv_def region_ok_def)
    have "region_ok w' s x" if "regions w' s = Some x" for s x
    proof (cases "s = r")
      case True
      with that closed ok show ?thesis by (auto simp: region_ok_def closed_region_def)
    next
      case False
      with that closed have x: "region_ok w s x" using inv by (auto simp: region_inv_def)
      with ok False closed show ?thesis by (auto simp: region_ok_def)
    qed
    moreover have "\<exists>x. regions w' s = Some x \<and> mr_ownsBuf x \<and> mr_buffer x = p"
      if "shape w' p = Some (ORegion s, n)" for p s n
    proof -
      from that closed have sp: "shape w p = Some (ORegion s, n)" by (auto split: if_splits)
      with region_invD(3) [OF inv] obtain x where x: "regions w s = Some x" "mr_ownsBuf x" "mr_buffer x = p"
        by blast
      have "s \<noteq> r"
      proof
        assume "s = r"
        with x closed ok have "shape w' p = None" by (auto simp: region_ok_def)
        with that show False by simp
      qed
      with x closed show ?thesis by simp
    qed
    ultimately show ?thesis using nf by (simp add: region_inv_def)
  qed
  with c show ?thesis by simp
qed

lemma region_step_inv:
  assumes m: "malloc_spec E" and inv: "region_inv w" and st: "region_step E w w'"
  shows "region_inv w'"
  using st
proof cases
  case (rs_register buf d opts)
  then obtain r where "RegisterMemoryWithOptions E d buf opts w = (r, w')" by (metis prod.collapse)
  then show ?thesis
    using m rs_register(2)
  proof (cases rule: RegisterMemory_cases)
    case (failed e)
    then show ?thesis by (intro region_inv_frame [OF inv] region_frame_shape) simp_all
  next
    case (made b p)
    then show ?thesis by (intro region_inv_add [OF inv made(8,7,6)]) simp
  qed
next
  case (rs_pointer d p n opts)
  then obtain r where "RegisterMemoryPointer E d p n opts w = (r, w')" by (metis prod.collapse)
  then show ?thesis
  proof (cases rule: RegisterMemoryPointer_cases)
    case (failed e)
    then show ?thesis by (intro region_inv_frame [OF inv] region_frame_shape) simp_all
  next
    case (made q)
    then show ?thesis by (intro region_inv_add [OF inv made(7,6,5)]) simp
  qed
next
  case (rs_segments d segs opts)
  then obtain r where "RegisterMemorySegments E d segs opts w = (r, w')" by (metis prod.collapse)
  then show ?thesis
    using m
  proof (cases rule: RegisterMemorySegments_cases)
    case (failed e)
    then show ?thesis by (intro region_inv_frame [OF inv] region_frame_shape) simp_all
  next
    case (made q)
    then show ?thesis by (intro region_inv_add [OF inv made(5,4,3)]) simp
  qed
next
  case (rs_close r)
  then show ?thesis using region_inv_Close [OF inv] by simp
next
  case rs_frame
  then show ?thesis using region_inv_frame [OF inv] by blast
qed

interpretation region_table: transition_invariant "region_step E" "\<lambda>w. malloc_spec E \<and> region_inv w"
  for E :: "'p cenv"
  by unfold_locales (use region_step_inv in blast)

lemma region_inv_world0: "region_inv world0"
  by (simp add: region_inv_def world0_def shape_def)

section \<open>Properties\<close>

text \<open>
  Claim C28. Any sequence of registrations and closes, whatever the provider answers (a close that
  fails and is retried, a region closed twice), is free of double frees and leaks nothing: the
  blocks allocated for regions are exactly the buffers of the regions that still own one.
\<close>

theorem region_runs_safe:
  assumes "malloc_spec E" and "region_inv w" and "(region_step E)\<^sup>*\<^sup>* w w'"
  shows "\<not> fault w' \<and>
    (\<forall>p r. (\<exists>n. shape w' p = Some (ORegion r, n)) \<longleftrightarrow>
       (\<exists>m. regions w' r = Some m \<and> mr_ownsBuf m \<and> mr_buffer m = p))"
proof -
  from region_table.reach_inv [OF assms(3)] assms(1,2) have inv: "region_inv w'" by blast
  then have "(\<exists>n. shape w' p = Some (ORegion r, n)) \<longleftrightarrow>
      (\<exists>m. regions w' r = Some m \<and> mr_ownsBuf m \<and> mr_buffer m = p)" for p r
    unfolding region_inv_def region_ok_def by metis
  with inv show ?thesis by (simp add: region_inv_def)
qed

text \<open>
  Registering a buffer either fails, leaving the C heap, the region table and the ledger of
  native objects as they were (the copy is freed), or returns a fresh open region of the
  buffer's length whose registration is on the ledger once.
\<close>

theorem RegisterMemory_all_or_nothing:
  assumes "RegisterMemoryWithOptions E d buf opts w = (r, w')" and "malloc_spec E"
    and "holds_bytes w (sl_loc buf) (sl_len buf)"
  shows "case r of
      Inl e \<Rightarrow> shape w' = shape w \<and> regions w' = regions w \<and> ledger E w' = ledger E w
    | Inr k \<Rightarrow> k = next_id w \<and> region_Size k w' = sl_len buf \<and>
        (\<exists>m p. regions w' = (regions w)(k \<mapsto> m) \<and> mr_handle m = Some p \<and>
           (\<forall>h. ledger E w' h = ledger E w h + tally KMR p h))"
  using assms
proof (cases rule: RegisterMemory_cases)
  case (failed e)
  then show ?thesis by (simp add: fun_eq_iff)
next
  case (made b p)
  have "\<exists>m p. regions w' = (regions w)(next_id w \<mapsto> m) \<and> mr_handle m = Some p \<and>
      (\<forall>h. ledger E w' h = ledger E w h + tally KMR p h)"
    by (rule exI, rule exI [of _ p], intro conjI, rule made(6)) (simp_all add: made(9))
  with made show ?thesis by (simp add: region_Size_def)
qed

text \<open>
  Closing a region: a failed native close keeps the region as it was, so that it can be
  retried; a successful one empties it, frees its buffer, takes its registration off the
  ledger, and any further close is a no-op.
\<close>

theorem region_Close_retryable:
  assumes "regions w r = Some m" and "region_inv w"
  shows "case region_Close E r w of
      (Some e, w') \<Rightarrow> regions w' = regions w \<and> shape w' = shape w \<and> ledger E w' = ledger E w
    | (None, w') \<Rightarrow> region_Size r w' = 0 \<and> mr_handle (the (regions w' r)) = None \<and>
        (mr_ownsBuf m \<longrightarrow> shape w' (mr_buffer m) = None) \<and>
        (\<forall>h. ledger E w' h = ledger E w h - (case mr_handle m of None \<Rightarrow> 0 | Some p \<Rightarrow> tally KMR p h)) \<and>
        region_Close E r w' = (None, w')"
proof -
  obtain e w' where c: "region_Close E r w = (e, w')" by fastforce
  then show ?thesis
  proof (cases rule: region_Close_cases)
    case absent
    with assms show ?thesis by simp
  next
    case (failed x p err)
    with c show ?thesis by (simp add: fun_eq_iff)
  next
    case (closed x)
    have "region_ok w r m" using assms by (simp add: region_inv_def)
    moreover have "w'\<lparr>regions := regions w'\<rparr> = w'" by simp
    then have "region_Close E r w' = (None, w')"
      using closed by (simp add: region_Close_def closed_region_def fun_upd_idem)
    ultimately show ?thesis
      using closed c assms by (auto simp: region_Size_def closed_region_def region_ok_def)
  qed
qed

text \<open>
  Access control of a registered buffer: it can be used for exactly those operations whose
  access bits it was registered with (the requested bits; local access when none was requested
  or the domain requires it), anything else is \<open>ErrInsufficientAccess\<close>, and after a successful
  close it can be used for nothing.
\<close>

theorem registered_access:
  assumes "RegisterMemoryWithOptions E d buf opts w = (Inr k, w')" and "malloc_spec E"
    and "holds_bytes w (sl_loc buf) (sl_len buf)"
  shows "ensureRegionAccess (Some k) req w' =
      (if has_bits (effective_access (hdr E) d opts) req then None else Some (Sentinel ErrInsufficientAccess)) \<and>
    (fst (region_Close E k w') = None \<longrightarrow>
       ensureRegionAccess (Some k) req (snd (region_Close E k w')) = Some (ErrInvalidHandle ''memory region''))"
  using assms
proof (cases rule: RegisterMemory_cases)
  case (made b p)
  obtain e w2 where c: "region_Close E k w' = (e, w2)" by fastforce
  from c have "e = None \<longrightarrow> regions w2 = (regions w')(k \<mapsto> closed_region)"
    by (cases rule: region_Close_cases) (use made in auto)
  with made c show ?thesis
    by (auto simp: ensureRegionAccess_def hasAccess_def closed_region_def has_bits_def)
qed simp

text \<open>
  A region registered from segments has the total length modulo \<open>2^64\<close> and no buffer, so
  every operation that checks its access refuses it as an invalid handle.
\<close>

theorem segments_unusable:
  assumes "RegisterMemorySegments E d segs opts w = (Inr k, w')" and "malloc_spec E"
  shows "region_Size k w' = (\<Sum>s\<leftarrow>segs. snd s) mod 2 ^ 64 \<and>
    ensureRegionAccess (Some k) req w' = Some (ErrInvalidHandle ''memory region'')"
  using assms
proof (cases rule: RegisterMemorySegments_cases)
  case (made q)
  have "(\<Sum>(p, len)\<leftarrow>segs. (of_nat len :: uint64)) = of_nat (\<Sum>s\<leftarrow>segs. snd s)"
    by (induction segs) (auto simp: split_beta)
  then have "segments_total segs = (\<Sum>s\<leftarrow>segs. snd s) mod 2 ^ 64"
    by (simp add: segments_total_def unat_of_nat take_bit_eq_mod)
  with made show ?thesis by (simp add: region_Size_def ensureRegionAccess_def)
qed simp

text \<open>
  On a domain that demands a registration mode the library does not implement, all three
  registration functions refuse before any call or allocation, with an error that
  \<open>errors.Is\<close> recognises as \<open>ErrCapabilityUnsupported\<close>.
\<close>

theorem unsupported_mode_rejected:
  assumes "handles w (gd_ref d) = Some kp" and "unsupported_modes (hdr E) d \<noteq> 0"
    and "sl_len buf \<noteq> 0" and "p \<noteq> NULL" and "n \<noteq> 0" and "segs \<noteq> []"
  shows "RegisterMemoryWithOptions E d buf opts w = (Inl mode_error, w) \<and>
    RegisterMemoryPointer E d p n opts w = (Inl mode_error, w) \<and>
    RegisterMemorySegments E d segs opts w = (Inl mode_error, w) \<and>
    errors_Is mode_error (Sentinel ErrCapabilityUnsupported)"
  using assms
  by (simp add: RegisterMemoryWithOptions_def RegisterMemoryPointer_def RegisterMemorySegments_def
      with_handle_def mode_error_def errors_Is.simps split: prod.split)

section \<open>Instances\<close>

text \<open>A library that hands out object 9 and accepts everything; one domain in cell 0.\<close>

definition mr_env :: "nat cenv" where
  "mr_env = \<lparr>hdr = linux_hdr, lib = (\<lambda>c h q. (resp0\<lparr>r_ptr := 9\<rparr>, \<lambda>_. [], q)), malloc = bump_malloc\<rparr>"

definition mr_world :: "nat world" where
  "mr_world = world0\<lparr>handles := [0 \<mapsto> (KDomain, 77)], next_id := 1\<rparr>"

definition mr_domain :: "uint64 \<Rightarrow> godomain" where
  "mr_domain mode = \<lparr>gd_ref = 0, gd_mrMode = mode, gd_mrKeySize = 8, gd_mrIovLimit = 4\<rparr>"

definition buf4 :: slice where
  "buf4 = \<lparr>sl_loc = GoVal [1, 2, 3, 4], sl_len = 4\<rparr>"

lemma mr_env_spec [simp]: "malloc_spec mr_env" "hdr mr_env = linux_hdr"
  by (simp_all add: mr_env_def bump_malloc_spec)

lemma buf4_there [simp]: "holds_bytes w (sl_loc buf4) (sl_len buf4)"
  by (simp add: buf4_def)

lemma next_mr_world [simp]: "next_id mr_world = 1"
  by (simp add: mr_world_def)

lemma region_inv_mr_world: "region_inv mr_world"
  by (simp add: region_inv_def mr_world_def world0_def shape_def)

lemmas mr_eval = mr_env_def mr_world_def mr_domain_def buf4_def world0_def resp0_def linux_hdr_def bump_malloc_def
  contents_def

lemma mr_registers:
  "fst (RegisterMemoryWithOptions mr_env (mr_domain 4) buf4 None mr_world) = Inr 1"
  "fst (RegisterMemorySegments mr_env (mr_domain 4) [(3, 4), (9, 18446744073709551615)] None mr_world) = Inr 1"
  by (simp_all add: mr_eval RegisterMemoryWithOptions_def RegisterMemorySegments_def with_handle_def unsupported_modes_def
      supportedDomainMRModes_def effective_access_def RequiresMRMode_def any_bit_def AllocBytes_def c_malloc_def
      Memcpy_def load_def store_def capi_RegisterMemory_def capi_RegisterMemoryIOV_def open_call_def ccall_def
      ErrorFromStatus_def try_act_def new_region_def Let_def opt_field_def)

theorem region_runs_safe_witness:
  "\<not> fault (snd (region_Close mr_env 1 (snd (RegisterMemoryWithOptions mr_env (mr_domain 4) buf4 None mr_world))))"
proof -
  have "region_step mr_env mr_world (snd (RegisterMemoryWithOptions mr_env (mr_domain 4) buf4 None mr_world))"
    by (rule rs_register) simp
  moreover have "region_step mr_env w (snd (region_Close mr_env 1 w))" for w
    by (rule rs_close)
  ultimately have "(region_step mr_env)\<^sup>*\<^sup>* mr_world
      (snd (region_Close mr_env 1 (snd (RegisterMemoryWithOptions mr_env (mr_domain 4) buf4 None mr_world))))"
    by (meson r_into_rtranclp rtranclp_trans)
  from region_runs_safe [OF mr_env_spec(1) region_inv_mr_world this] show ?thesis by simp
qed

theorem RegisterMemory_all_or_nothing_witness:
  "region_Size 1 (snd (RegisterMemoryWithOptions mr_env (mr_domain 4) buf4 None mr_world)) = 4"
  using RegisterMemory_all_or_nothing [OF prod.collapse [symmetric] mr_env_spec(1) buf4_there,
      of "mr_domain 4" None mr_world] mr_registers(1)
  by (simp add: buf4_def)

theorem registered_access_witness:
  "ensureRegionAccess (Some 1) 8192 (snd (RegisterMemoryWithOptions mr_env (mr_domain 4) buf4 None mr_world)) =
     Some (Sentinel ErrInsufficientAccess)"
proof -
  have "RegisterMemoryWithOptions mr_env (mr_domain 4) buf4 None mr_world =
      (Inr 1, snd (RegisterMemoryWithOptions mr_env (mr_domain 4) buf4 None mr_world))"
    using mr_registers(1) by (metis prod.collapse)
  moreover have "\<not> has_bits (effective_access (hdr mr_env) (mr_domain 4) None) 8192"
    by (simp add: effective_access_def RequiresMRMode_def has_bits_def any_bit_def mr_domain_def linux_hdr_def)
  ultimately show ?thesis
    using registered_access [OF _ mr_env_spec(1) buf4_there, of "mr_domain 4" None mr_world 1] by simp
qed

theorem region_Close_retryable_witness:
  "region_Size 1 (snd (region_Close mr_env 1 (mr_world\<lparr>next_id := 2, regions := [1 \<mapsto> closed_region]\<rparr>))) = 0"
proof -
  let ?w = "mr_world\<lparr>next_id := 2, regions := [1 \<mapsto> closed_region]\<rparr>"
  have "region_inv ?w"
    by (simp add: region_inv_def region_ok_def mr_world_def world0_def shape_def closed_region_def)
  moreover have "regions ?w 1 = Some closed_region" by simp
  moreover have "fst (region_Close mr_env 1 ?w) = None"
    by (simp add: region_Close_def closed_region_def)
  ultimately show ?thesis
    using region_Close_retryable [of ?w 1 closed_region mr_env] by (simp add: split_beta split: option.splits)
qed

theorem segments_unusable_witness:
  "region_Size 1 (snd (RegisterMemorySegments mr_env (mr_domain 4) [(3, 4), (9, 18446744073709551615)] None mr_world)) = 3"
proof -
  let ?s = "[(3, 4), (9, 18446744073709551615)] :: (ptr \<times> nat) list"
  have "RegisterMemorySegments mr_env (mr_domain 4) ?s None mr_world =
      (Inr 1, snd (RegisterMemorySegments mr_env (mr_domain 4) ?s None mr_world))"
    using mr_registers(2) by (metis prod.collapse)
  from segments_unusable [OF this mr_env_spec(1)] show ?thesis by simp
qed

theorem unsupported_mode_rejected_witness:
  "RegisterMemoryPointer mr_env (mr_domain 32) 3 1 None mr_world = (Inl mode_error, mr_world)"
proof -
  have "unsupported_modes (hdr mr_env) (mr_domain 32) \<noteq> 0"
    by (simp add: unsupported_modes_def supportedDomainMRModes_def mr_domain_def linux_hdr_def)
  moreover have "handles mr_world (gd_ref (mr_domain 32)) = Some (KDomain, 77)"
    by (simp add: mr_world_def mr_domain_def)
  ultimately show ?thesis
    using unsupported_mode_rejected [of mr_world "mr_domain 32" _ mr_env buf4 3 1 "[(1, 1)]" None]
    by (simp add: buf4_def)
qed

end
