(* ===== verification/Pool.thy ===== *)
theory Pool
  imports Region_Life
begin

text \<open>
  The pool of registered regions (\<open>fi/memory_pool.go\<close>). The buffered channel is a list of at most
  \<open>mp_cap\<close> regions. The operations are given whole, as one caller sees them, and in the atomic
  parts other goroutines can separate; the step relation interleaves the parts.
\<close>

section \<open>Operations\<close>

record mrpool =
  mp_domain :: godomain
  mp_size :: int
  mp_access :: uint64
  mp_cap :: nat
  mp_chan :: "nat list"
  mp_closed :: bool

definition Pool_Size :: "mrpool option \<Rightarrow> int" where
  "Pool_Size p = (case p of None \<Rightarrow> 0 | Some q \<Rightarrow> mp_size q)"

definition NewMRPool :: "godomain \<Rightarrow> int \<Rightarrow> uint64 \<Rightarrow> int \<Rightarrow> 'p world \<Rightarrow> mrpool result" where
  "NewMRPool d sz access capacity w =
     (if handles w (gd_ref d) = None then Inl (ErrInvalidHandle ''domain'')
      else if sz \<le> 0 then Inl (Msg ''libfabric: MRPool requires positive region size'')
      else Inr \<lparr>mp_domain = d, mp_size = sz, mp_access = access,
                mp_cap = nat (if capacity < 0 then 0 else capacity), mp_chan = [], mp_closed = False\<rparr>)"

text \<open>\<open>make([]byte, n)\<close>.\<close>

definition zero_slice :: "nat \<Rightarrow> slice" where
  "zero_slice n = \<lparr>sl_loc = GoVal (replicate n 0), sl_len = n\<rparr>"

text \<open>\<open>Acquire\<close> after its check of \<open>closed\<close>: take an idle region or register a new one.\<close>

definition acquire_take :: "'p cenv \<Rightarrow> mrpool \<Rightarrow> 'p world \<Rightarrow> (nat result \<times> mrpool) \<times> 'p world" where
  "acquire_take E p w =
     (case mp_chan p of
        r # rs \<Rightarrow> ((Inr r, p\<lparr>mp_chan := rs\<rparr>), w)
      | [] \<Rightarrow> (case RegisterMemory E (mp_domain p) (zero_slice (nat (mp_size p))) (mp_access p) w of
                 (res, w') \<Rightarrow> ((res, p), w')))"

definition Acquire :: "'p cenv \<Rightarrow> mrpool \<Rightarrow> 'p world \<Rightarrow> (nat result \<times> mrpool) \<times> 'p world" where
  "Acquire E p w =
     (if mp_closed p then ((Inl (Msg ''libfabric: MRPool closed''), p), w)
      else acquire_take E p w)"

text \<open>The check of \<open>Pool.Release\<close>, and what follows when it passes.\<close>

definition release_rejects :: "mrpool \<Rightarrow> nat \<Rightarrow> 'p world \<Rightarrow> bool" where
  "release_rejects p r w \<longleftrightarrow> mp_closed p \<or> int (region_Size r w) \<noteq> mp_size p"

definition release_push :: "'p cenv \<Rightarrow> mrpool \<Rightarrow> nat \<Rightarrow> 'p world \<Rightarrow> mrpool \<times> 'p world" where
  "release_push E p r w =
     (if length (mp_chan p) < mp_cap p then (p\<lparr>mp_chan := mp_chan p @ [r]\<rparr>, w)
      else (p, snd (region_Close E r w)))"

definition Pool_Release :: "'p cenv \<Rightarrow> mrpool \<Rightarrow> nat option \<Rightarrow> 'p world \<Rightarrow> mrpool \<times> 'p world" where
  "Pool_Release E p mr w =
     (case mr of
        None \<Rightarrow> (p, w)
      | Some r \<Rightarrow> if release_rejects p r w then (p, snd (region_Close E r w)) else release_push E p r w)"

text \<open>The drain loop of \<open>Pool.Close\<close>.\<close>

definition drain :: "'p cenv \<Rightarrow> nat list \<Rightarrow> 'p world \<Rightarrow> 'p world" where
  "drain E rs w = fold (\<lambda>r w. snd (region_Close E r w)) rs w"

definition Pool_Close :: "'p cenv \<Rightarrow> mrpool \<Rightarrow> 'p world \<Rightarrow> mrpool \<times> 'p world" where
  "Pool_Close E p w =
     (if mp_closed p then (p, w)
      else (p\<lparr>mp_closed := True, mp_chan := []\<rparr>, drain E (mp_chan p) w))"

section \<open>Interleaved operation\<close>

text \<open>
  A pool with its callers: regions handed out (\<open>held\<close>), and regions whose release has passed the
  check but not yet reached the channel (\<open>pending\<close>).
\<close>

record 'p pool_sys =
  ps_pool :: mrpool
  ps_held :: "nat list"
  ps_pending :: "nat list"
  ps_world :: "'p world"

inductive pool_step :: "'p cenv \<Rightarrow> 'p pool_sys \<Rightarrow> 'p pool_sys \<Rightarrow> bool" for E where
  po_acquire: "acquire_take E (ps_pool s) (ps_world s) = ((Inr r, p), w) \<Longrightarrow>
    pool_step E s (s\<lparr>ps_pool := p, ps_world := w, ps_held := r # ps_held s\<rparr>)"
| po_acquire_fail: "acquire_take E (ps_pool s) (ps_world s) = ((Inl e, p), w) \<Longrightarrow>
    pool_step E s (s\<lparr>ps_pool := p, ps_world := w\<rparr>)"
| po_reject: "r \<in> set (ps_held s) \<Longrightarrow> release_rejects (ps_pool s) r (ps_world s) \<Longrightarrow>
    pool_step E s (s\<lparr>ps_world := snd (region_Close E r (ps_world s)), ps_held := remove1 r (ps_held s)\<rparr>)"
| po_check: "r \<in> set (ps_held s) \<Longrightarrow> \<not> release_rejects (ps_pool s) r (ps_world s) \<Longrightarrow>
    pool_step E s (s\<lparr>ps_pending := r # ps_pending s, ps_held := remove1 r (ps_held s)\<rparr>)"
| po_push: "r \<in> set (ps_pending s) \<Longrightarrow> release_push E (ps_pool s) r (ps_world s) = (p, w) \<Longrightarrow>
    pool_step E s (s\<lparr>ps_pool := p, ps_world := w, ps_pending := remove1 r (ps_pending s)\<rparr>)"
| po_mark: "pool_step E s (s\<lparr>ps_pool := (ps_pool s)\<lparr>mp_closed := True\<rparr>\<rparr>)"
| po_drain: "mp_closed (ps_pool s) \<Longrightarrow> mp_chan (ps_pool s) = r # rs \<Longrightarrow>
    pool_step E s (s\<lparr>ps_pool := (ps_pool s)\<lparr>mp_chan := rs\<rparr>, ps_world := snd (region_Close E r (ps_world s))\<rparr>)"
| po_user_close: "r \<in> set (ps_held s) \<Longrightarrow>
    pool_step E s (s\<lparr>ps_world := snd (region_Close E r (ps_world s))\<rparr>)"

text \<open>A region of the pool that can be handed out: registered, with its own buffer of the size.\<close>

definition live :: "'p world \<Rightarrow> int \<Rightarrow> nat \<Rightarrow> bool" where
  "live w sz r \<longleftrightarrow> (\<exists>m. regions w r = Some m \<and> mr_handle m \<noteq> None \<and> mr_ownsBuf m \<and> int (mr_length m) = sz)"

definition spent :: "'p world \<Rightarrow> nat \<Rightarrow> bool" where
  "spent w r \<longleftrightarrow> regions w r = Some closed_region"

definition pool_inv :: "'p cenv \<Rightarrow> 'p pool_sys \<Rightarrow> bool" where
  "pool_inv E s \<longleftrightarrow>
     malloc_spec E \<and> region_inv (ps_world s) \<and> 0 < mp_size (ps_pool s) \<and>
     length (mp_chan (ps_pool s)) \<le> mp_cap (ps_pool s) \<and>
     distinct (mp_chan (ps_pool s) @ ps_pending s @ ps_held s) \<and>
     (\<forall>r \<in> set (mp_chan (ps_pool s)) \<union> set (ps_pending s). live (ps_world s) (mp_size (ps_pool s)) r) \<and>
     (\<forall>r \<in> set (ps_held s). live (ps_world s) (mp_size (ps_pool s)) r \<or> spent (ps_world s) r)"

text \<open>Closing one region leaves the others, and leaves it live (the close failed) or spent.\<close>

lemma region_Close_other: "s \<noteq> r \<Longrightarrow> regions (snd (region_Close E r w)) s = regions w s"
proof -
  obtain e w' where c: "region_Close E r w = (e, w')" by fastforce
  assume "s \<noteq> r"
  from c show ?thesis
    by (cases rule: region_Close_cases) (use c \<open>s \<noteq> r\<close> in simp_all)
qed

lemma region_Close_self:
  "regions (snd (region_Close E r w)) r = regions w r \<or> spent (snd (region_Close E r w)) r"
proof -
  obtain e w' where c: "region_Close E r w = (e, w')" by fastforce
  from c show ?thesis
    by (cases rule: region_Close_cases) (use c in \<open>simp_all add: spent_def\<close>)
qed

lemma live_Close_other [simp]: "s \<noteq> r \<Longrightarrow> live (snd (region_Close E r w)) sz s = live w sz s"
  "s \<noteq> r \<Longrightarrow> spent (snd (region_Close E r w)) s = spent w s"
  by (simp_all add: live_def spent_def region_Close_other)

lemma live_Close_self:
  "live w sz r \<or> spent w r \<Longrightarrow> live (snd (region_Close E r w)) sz r \<or> spent (snd (region_Close E r w)) r"
  using region_Close_self [of E r w] by (auto simp: live_def spent_def)

lemma acquire_take_cases:
  assumes "acquire_take E p w = ((res, p'), w')" and "malloc_spec E" and "0 < mp_size p" and "region_inv w"
  obtains (idle) r rs where "mp_chan p = r # rs" "res = Inr r" "p' = p\<lparr>mp_chan := rs\<rparr>" "w' = w"
  | (fresh) "mp_chan p = []" "p' = p" "res = Inr (next_id w)" "live w' (mp_size p) (next_id w)"
      "regions w (next_id w) = None" "region_inv w'" "\<And>s. s \<noteq> next_id w \<Longrightarrow> regions w' s = regions w s"
  | (failed) e where "mp_chan p = []" "p' = p" "res = Inl e" "regions w' = regions w" "region_inv w'"
proof (cases "mp_chan p")
  case (Cons r rs)
  with assms(1) show thesis by (intro idle) (auto simp: acquire_take_def)
next
  case Nil
  let ?buf = "zero_slice (nat (mp_size p))"
  let ?opts = "Some \<lparr>ro_Access = mp_access p, ro_RequestedKey = 0, ro_Offset = 0, ro_Flags = 0\<rparr>"
  have there: "holds_bytes w (sl_loc ?buf) (sl_len ?buf)" by (simp add: zero_slice_def)
  have reg: "RegisterMemoryWithOptions E (mp_domain p) ?buf ?opts w = (res, w')" and p': "p' = p"
    using assms(1) Nil by (auto simp: acquire_take_def RegisterMemory_def split: prod.splits)
  have inv': "region_inv w'"
    using region_step_inv [OF assms(2,4) rs_register [OF there, of E "mp_domain p" ?opts]] reg by simp
  from reg assms(2) there show thesis
  proof (cases rule: RegisterMemory_cases)
    case (failed e)
    with Nil p' inv' show thesis by (intro that(3)) simp_all
  next
    case (made b q)
    have "regions w (next_id w) = None"
      using region_invD(2) [OF assms(4)] by (cases "regions w (next_id w)") (auto simp: region_ok_def)
    with made Nil p' inv' assms(3) show thesis
      by (intro that(2)) (simp_all add: live_def zero_slice_def)
  qed
qed

lemma pool_invD:
  assumes "pool_inv E s"
  shows "malloc_spec E" and "region_inv (ps_world s)" and "0 < mp_size (ps_pool s)"
    and "length (mp_chan (ps_pool s)) \<le> mp_cap (ps_pool s)"
    and "distinct (mp_chan (ps_pool s) @ ps_pending s @ ps_held s)"
    and "r \<in> set (mp_chan (ps_pool s)) \<Longrightarrow> live (ps_world s) (mp_size (ps_pool s)) r"
    and "r \<in> set (ps_pending s) \<Longrightarrow> live (ps_world s) (mp_size (ps_pool s)) r"
    and "r \<in> set (ps_held s) \<Longrightarrow> live (ps_world s) (mp_size (ps_pool s)) r \<or> spent (ps_world s) r"
  using assms unfolding pool_inv_def by blast+

text \<open>A region the check accepts is live: a spent one has length zero.\<close>

lemma not_rejected_live:
  assumes "pool_inv E s" and "r \<in> set (ps_held s)" and "\<not> release_rejects (ps_pool s) r (ps_world s)"
  shows "live (ps_world s) (mp_size (ps_pool s)) r"
  using pool_invD(3) [OF assms(1)] pool_invD(8) [OF assms(1,2)] assms(3)
  by (auto simp: release_rejects_def region_Size_def spent_def closed_region_def)

lemma pool_inv_close:
  assumes inv: "pool_inv E s" and r: "r \<notin> set (mp_chan p)" "r \<notin> set pend"
    and p: "mp_size p = mp_size (ps_pool s)" "mp_cap p = mp_cap (ps_pool s)" "length (mp_chan p) \<le> mp_cap p"
    and sub: "set (mp_chan p) \<subseteq> set (mp_chan (ps_pool s))" "set pend \<subseteq> set (ps_pending s)" "set hs \<subseteq> set (ps_held s)"
    and dis: "distinct (mp_chan p @ pend @ hs)"
  shows "pool_inv E \<lparr>ps_pool = p, ps_held = hs, ps_pending = pend, ps_world = snd (region_Close E r (ps_world s))\<rparr>"
proof -
  note d = pool_invD [OF inv]
  have "live (snd (region_Close E r (ps_world s))) (mp_size p) x" if "x \<in> set (mp_chan p) \<union> set pend" for x
    using that r sub d(6,7) [of x] p(1) by (cases "x = r") auto
  moreover have "live (snd (region_Close E r (ps_world s))) (mp_size p) x \<or> spent (snd (region_Close E r (ps_world s))) x"
    if "x \<in> set hs" for x
    using that sub d(8) [of x] p(1) live_Close_self [of "ps_world s" "mp_size p" r E] by (cases "x = r") auto
  ultimately show ?thesis
    unfolding pool_inv_def using d(1,3) region_inv_Close [OF d(2)] p dis by simp
qed

text \<open>The two steps that change the channel: taking from it, and the second half of \<open>Release\<close>.\<close>

lemma pool_inv_acquire:
  assumes inv: "pool_inv E s" and take: "acquire_take E (ps_pool s) (ps_world s) = ((Inr r, p), w)"
  shows "pool_inv E (s\<lparr>ps_pool := p, ps_world := w, ps_held := r # ps_held s\<rparr>)"
proof -
  note d = pool_invD [OF inv]
  from take d(1,3,2) show ?thesis
  proof (cases rule: acquire_take_cases)
    case (idle r' rs)
    with d show ?thesis by (auto simp: pool_inv_def)
  next
    case fresh
    have new: "x \<noteq> next_id (ps_world s)" if "x \<in> set (ps_pending s) \<union> set (ps_held s)" for x
      using that d(7,8) [of x] fresh(5) by (auto simp: live_def spent_def)
    then have keep: "live w sz x = live (ps_world s) sz x" "spent w x = spent (ps_world s) x"
      if "x \<in> set (ps_pending s) \<union> set (ps_held s)" for x sz
      using that fresh(7) by (auto simp: live_def spent_def)
    from fresh d new keep show ?thesis by (auto simp: pool_inv_def)
  qed simp
qed

lemma pool_inv_push:
  assumes inv: "pool_inv E s" and r: "r \<in> set (ps_pending s)"
    and push: "release_push E (ps_pool s) r (ps_world s) = (p, w)"
  shows "pool_inv E (s\<lparr>ps_pool := p, ps_world := w, ps_pending := remove1 r (ps_pending s)\<rparr>)"
proof -
  note d = pool_invD [OF inv]
  have notin: "r \<notin> set (mp_chan (ps_pool s))" "r \<notin> set (ps_held s)" using r d(5) by auto
  have sub: "set (remove1 r (ps_pending s)) \<subseteq> set (ps_pending s)" by (rule set_remove1_subset)
  have gone: "r \<notin> set (remove1 r (ps_pending s))" using d(5) by simp
  show ?thesis
  proof (cases "length (mp_chan (ps_pool s)) < mp_cap (ps_pool s)")
    case True
    have "\<forall>x \<in> set (ps_held s). live (ps_world s) (mp_size (ps_pool s)) x \<or> spent (ps_world s) x"
      using d(8) by blast
    moreover have "\<forall>x \<in> set (mp_chan (ps_pool s) @ [r]) \<union> set (remove1 r (ps_pending s)).
        live (ps_world s) (mp_size (ps_pool s)) x"
      using d(6,7) sub r by auto
    moreover have "distinct ((mp_chan (ps_pool s) @ [r]) @ remove1 r (ps_pending s) @ ps_held s)"
      using d(5) notin gone sub by auto
    moreover have "p = (ps_pool s)\<lparr>mp_chan := mp_chan (ps_pool s) @ [r]\<rparr>" "w = ps_world s"
      using True push by (simp_all add: release_push_def)
    ultimately show ?thesis
      using True d(1-4) by (simp add: pool_inv_def)
  next
    case False
    have "pool_inv E \<lparr>ps_pool = ps_pool s, ps_held = ps_held s, ps_pending = remove1 r (ps_pending s),
        ps_world = snd (region_Close E r (ps_world s))\<rparr>"
      by (intro pool_inv_close [OF inv]) (use d notin sub gone in auto)
    with False push show ?thesis by (simp add: release_push_def pool_inv_def)
  qed
qed

lemma pool_step_inv:
  assumes inv: "pool_inv E s" and st: "pool_step E s t"
  shows "pool_inv E t"
proof -
  note d = pool_invD [OF inv]
  from st show ?thesis
  proof cases
    case (po_acquire_fail e p w)
    from po_acquire_fail(2) d(1,3,2) show ?thesis
    proof (cases rule: acquire_take_cases)
      case (failed e')
      with po_acquire_fail d show ?thesis by (auto simp: pool_inv_def live_def spent_def)
    qed simp_all
  next
    case (po_reject r)
    with d(5) have "r \<notin> set (mp_chan (ps_pool s))" "r \<notin> set (ps_pending s)" by auto
    then have "pool_inv E \<lparr>ps_pool = ps_pool s, ps_held = remove1 r (ps_held s), ps_pending = ps_pending s,
        ps_world = snd (region_Close E r (ps_world s))\<rparr>"
      by (intro pool_inv_close [OF inv]) (use d set_remove1_subset [of r "ps_held s"] in auto)
    with po_reject show ?thesis by (simp add: pool_inv_def)
  next
    case (po_check r)
    with not_rejected_live [OF inv] have "live (ps_world s) (mp_size (ps_pool s)) r" by blast
    with po_check d show ?thesis
      using set_remove1_subset [of r "ps_held s"] by (auto simp: pool_inv_def)
  next
    case (po_drain r rs)
    have "pool_inv E \<lparr>ps_pool = (ps_pool s)\<lparr>mp_chan := rs\<rparr>, ps_held = ps_held s, ps_pending = ps_pending s,
        ps_world = snd (region_Close E r (ps_world s))\<rparr>"
      by (intro pool_inv_close [OF inv]) (use d po_drain in auto)
    with po_drain show ?thesis by (simp add: pool_inv_def)
  next
    case (po_user_close r)
    have "pool_inv E \<lparr>ps_pool = ps_pool s, ps_held = ps_held s, ps_pending = ps_pending s,
        ps_world = snd (region_Close E r (ps_world s))\<rparr>"
      by (intro pool_inv_close [OF inv]) (use d po_user_close in auto)
    with po_user_close show ?thesis by (simp add: pool_inv_def)
  qed (use inv in \<open>simp_all add: pool_inv_acquire pool_inv_push\<close>, simp add: pool_inv_def)
qed

interpretation pool: transition_invariant "pool_step E" "pool_inv E" for E :: "'p cenv"
  by unfold_locales (rule pool_step_inv)

section \<open>A pool of four-byte regions\<close>

definition mr_pool :: mrpool where
  "mr_pool = \<lparr>mp_domain = mr_domain 4, mp_size = 4, mp_access = 0, mp_cap = 1, mp_chan = [], mp_closed = False\<rparr>"

lemma mr_pool_acquires:
  "acquire_take mr_env mr_pool mr_world = ((Inr 1, mr_pool), snd (acquire_take mr_env mr_pool mr_world))"
proof -
  have "fst (fst (acquire_take mr_env mr_pool mr_world)) = Inr 1 \<and>
      snd (fst (acquire_take mr_env mr_pool mr_world)) = mr_pool"
    by (simp add: acquire_take_def mr_pool_def mr_eval RegisterMemory_def RegisterMemoryWithOptions_def with_handle_def
        unsupported_modes_def supportedDomainMRModes_def effective_access_def RequiresMRMode_def any_bit_def
        AllocBytes_def c_malloc_def Memcpy_def load_def store_def capi_RegisterMemory_def open_call_def ccall_def
        zero_slice_def ErrorFromStatus_def try_act_def new_region_def Let_def opt_field_def)
  then show ?thesis by (metis prod.collapse)
qed

lemma mr_pool_new: "NewMRPool (mr_domain 4) 4 0 1 mr_world = Inr mr_pool"
  by (simp add: NewMRPool_def mr_domain_def mr_world_def mr_pool_def)

lemma mr_pool_live: "live (snd (acquire_take mr_env mr_pool mr_world)) 4 1"
  by (rule acquire_take_cases [OF mr_pool_acquires mr_env_spec(1) _ region_inv_mr_world])
    (simp_all add: mr_pool_def)

section \<open>Properties\<close>

text \<open>
  Claim C31. From a new pool, under every interleaving of acquisitions, releases (split at their
  check), closing (split into its parts) and callers closing regions themselves: the pool never
  holds more than its capacity, an acquired region is held by nobody else and is not idle, and it
  is registered, with its own buffer of exactly the pool's size.
\<close>

theorem pool_exclusive:
  assumes "NewMRPool d sz access capacity w = Inr p" and "malloc_spec E" and "region_inv w"
    and "(pool_step E)\<^sup>*\<^sup>* \<lparr>ps_pool = p, ps_held = [], ps_pending = [], ps_world = w\<rparr> s"
    and "acquire_take E (ps_pool s) (ps_world s) = ((Inr r, p'), w')"
  shows "r \<notin> set (ps_held s) \<and> r \<notin> set (ps_pending s) \<and> r \<notin> set (mp_chan p') \<and>
    live w' (mp_size (ps_pool s)) r \<and> length (mp_chan (ps_pool s)) \<le> mp_cap (ps_pool s)"
proof -
  from assms(1-3) have "pool_inv E \<lparr>ps_pool = p, ps_held = [], ps_pending = [], ps_world = w\<rparr>"
    by (auto simp: NewMRPool_def pool_inv_def split: if_splits)
  from pool.reach_inv [OF assms(4) this] have inv: "pool_inv E s" .
  note d = pool_invD [OF inv]
  from assms(5) d(1,3,2) show ?thesis
  proof (cases rule: acquire_take_cases)
    case (idle r' rs)
    with d(4,5) d(6) [of r] show ?thesis by auto
  next
    case fresh
    have "next_id (ps_world s) \<notin> set (ps_pending s) \<union> set (ps_held s)"
      using d(7,8) [of "next_id (ps_world s)"] fresh(5) by (auto simp: live_def spent_def)
    with fresh d(4) show ?thesis by auto
  qed simp
qed

text \<open>
  Closing a pool nobody is releasing to: every idle region is deregistered and freed unless
  its native close failed, the channel is empty, and from then on acquiring fails and releasing
  closes the region at once.
\<close>

theorem Pool_Close_complete:
  assumes "pool_inv E s" and "\<not> mp_closed (ps_pool s)"
    and "Pool_Close E (ps_pool s) (ps_world s) = (p', w')"
  shows "mp_chan p' = [] \<and>
    (\<forall>r \<in> set (mp_chan (ps_pool s)). spent w' r \<or> regions w' r = regions (ps_world s) r) \<and>
    (\<exists>e. fst (fst (Acquire E p' w')) = Inl e) \<and>
    Pool_Release E p' (Some r) w' = (p', snd (region_Close E r w'))"
proof -
  have "spent (drain E rs v) r \<or> regions (drain E rs v) r = regions v r" for rs v r
  proof (induction rs arbitrary: v)
    case (Cons x xs)
    have "regions (snd (region_Close E x v)) r = regions v r \<or> spent (snd (region_Close E x v)) r"
      using region_Close_self [of E r v] region_Close_other [of r x E v] by (cases "r = x") auto
    with Cons.IH [of "snd (region_Close E x v)"] show ?case
      by (auto simp: drain_def spent_def)
  qed (simp add: drain_def)
  with assms(2,3) show ?thesis
    by (auto simp: Pool_Close_def Acquire_def Pool_Release_def release_rejects_def)
qed


theorem pool_exclusive_witness: "live (snd (acquire_take mr_env mr_pool mr_world)) 4 1"
  using pool_exclusive [OF mr_pool_new mr_env_spec(1) region_inv_mr_world rtranclp.rtrancl_refl, of 1 mr_pool]
    mr_pool_acquires by (simp add: mr_pool_def)

theorem Pool_Close_complete_witness: "mp_chan (fst (Pool_Close mr_env mr_pool mr_world)) = []"
proof -
  let ?s = "\<lparr>ps_pool = mr_pool, ps_held = [], ps_pending = [], ps_world = mr_world\<rparr>"
  have "pool_inv mr_env ?s" by (simp add: pool_inv_def region_inv_mr_world mr_pool_def)
  from Pool_Close_complete [OF this _ prod.collapse [symmetric]] show ?thesis by (simp add: mr_pool_def)
qed

end
