(* ===== verification/Endpoints.thy ===== *)
theory Endpoints
  imports Region_Life
begin

text \<open>
  The wrappers of the \<open>fi\<close> package around native objects: \<open>fi/endpoint.go\<close>, \<open>fi/passive.go\<close>,
  \<open>fi/address_vector.go\<close>, and the wait sets of \<open>fi/wait.go\<close> with \<open>internal/capi/wait.go\<close>. Event
  queues, address vectors, passive endpoints and wait sets have a handle only and are their
  wrapper cell; endpoints and completion queues carry the constants they were opened with.
\<close>

record endpoint =
  ep_ref :: nat
  ep_injectLimit :: nat
  ep_supportsTagged :: bool

record compq =
  cq_ref :: nat
  cq_format :: int

section \<open>Completion queues\<close>

record CompletionEvent =
  ev_Context :: ptr
  ev_Tag :: uint64
  ev_Data :: uint64
  ev_Source :: uint64

definition HasTag :: "CompletionEvent option \<Rightarrow> bool" where
  "HasTag e = (case e of None \<Rightarrow> False | Some x \<Rightarrow> ev_Tag x \<noteq> 0)"

definition CompletionEvent_Resolve :: "CompletionEvent option \<Rightarrow> 'p world \<Rightarrow> nat result \<times> 'p world" where
  "CompletionEvent_Resolve e w =
     (case e of None \<Rightarrow> (Inl (Sentinel ErrContextUnknown), w) | Some x \<Rightarrow> resolveCompletion (ev_Context x) w)"

definition CompletionError_Resolve :: "CQError option \<Rightarrow> 'p world \<Rightarrow> nat result \<times> 'p world" where
  "CompletionError_Resolve e w =
     (case e of None \<Rightarrow> (Inl (Sentinel ErrContextUnknown), w) | Some x \<Rightarrow> resolveCompletion (cqe_Context x) w)"

text \<open>The tail of every read of the package: errors translated, nil entries turned into the sentinel.\<close>

definition entry_result :: "fi_hdr \<Rightarrow> sentinel \<Rightarrow> ('a \<Rightarrow> 'b) \<Rightarrow> 'a option result \<Rightarrow> 'b result" where
  "entry_result H s f r =
     (case r of
        Inl e \<Rightarrow> (case translateErr H (Some e) s of None \<Rightarrow> Inl e | Some e' \<Rightarrow> Inl e')
      | Inr None \<Rightarrow> Inl (Sentinel s)
      | Inr (Some x) \<Rightarrow> Inr (f x))"

definition CQ_ReadContext :: "'p cenv \<Rightarrow> compq \<Rightarrow> 'p world \<Rightarrow> CompletionEvent result \<times> 'p world" where
  "CQ_ReadContext E c =
     with_handle (cq_ref c) Inl (ErrInvalidHandle ''completion queue'')
       (\<lambda>p w. case capi_ReadContext E p (cq_format c) w of
          (r, w') \<Rightarrow>
            (entry_result (hdr E) ErrNoCompletion
               (\<lambda>e. \<lparr>ev_Context = ce_Context e, ev_Tag = ce_Tag e, ev_Data = ce_Data e, ev_Source = ce_SrcAddr e\<rparr>) r, w'))"

definition CQ_ReadError :: "'p cenv \<Rightarrow> compq \<Rightarrow> uint64 \<Rightarrow> 'p world \<Rightarrow> CQError result \<times> 'p world" where
  "CQ_ReadError E c flags =
     with_handle (cq_ref c) Inl (ErrInvalidHandle ''completion queue'')
       (\<lambda>p w. case capi_CQ_ReadError E p flags w of
          (r, w') \<Rightarrow> (entry_result (hdr E) ErrNoCompletion (\<lambda>e. e) r, w'))"

definition OpenCompletionQueue :: "'p cenv \<Rightarrow> godomain \<Rightarrow> CQAttr option \<Rightarrow> 'p world \<Rightarrow> compq result \<times> 'p world" where
  "OpenCompletionQueue E d attr =
     with_handle (gd_ref d) Inl (ErrInvalidHandle ''domain'')
       (\<lambda>dp. try_act (wrap_open KCQ (capi_OpenCompletionQueue E dp attr))
               (\<lambda>e w. (Inl e, w))
               (\<lambda>i w. (Inr \<lparr>cq_ref = i, cq_format = capi_cq_format E attr\<rparr>, w)))"

definition CQ_Close :: "'p cenv \<Rightarrow> compq \<Rightarrow> 'p world \<Rightarrow> goerr option \<times> 'p world" where
  "CQ_Close E c = close_wrapper (capi_CQ_Close E) (cq_ref c)"

section \<open>Event queues\<close>

definition Event_Resolve :: "EQEvent option \<Rightarrow> 'p world \<Rightarrow> nat result \<times> 'p world" where
  "Event_Resolve e w =
     (case e of
        None \<Rightarrow> (Inl (Sentinel ErrContextUnknown), w)
      | Some x \<Rightarrow> if eqv_Context x = NULL then (Inl (Sentinel ErrContextUnknown), w)
                  else resolveCompletion (eqv_Context x) w)"

definition EventError_Resolve :: "EQError option \<Rightarrow> 'p world \<Rightarrow> nat result \<times> 'p world" where
  "EventError_Resolve e w =
     (case e of
        None \<Rightarrow> (Inl (Sentinel ErrContextUnknown), w)
      | Some x \<Rightarrow> if eqe_Context x = NULL then (Inl (Sentinel ErrContextUnknown), w)
                  else resolveCompletion (eqe_Context x) w)"

definition OpenEventQueue :: "'p cenv \<Rightarrow> nat \<Rightarrow> EQAttr option \<Rightarrow> 'p world \<Rightarrow> nat result \<times> 'p world" where
  "OpenEventQueue E f attr =
     with_handle f Inl (ErrInvalidHandle ''fabric'') (\<lambda>fp. wrap_open KEQ (capi_OpenEventQueue E fp attr))"

definition EQ_Close :: "'p cenv \<Rightarrow> nat \<Rightarrow> 'p world \<Rightarrow> goerr option \<times> 'p world" where
  "EQ_Close E = close_wrapper (capi_EQ_Close E)"

definition EQ_Read :: "'p cenv \<Rightarrow> nat \<Rightarrow> uint64 \<Rightarrow> 'p world \<Rightarrow> EQEvent result \<times> 'p world" where
  "EQ_Read E q flags =
     with_handle q Inl (ErrInvalidHandle ''event queue'')
       (\<lambda>p w. case capi_EQ_Read E p flags w of
          (r, w') \<Rightarrow> (entry_result (hdr E) ErrNoEvent (\<lambda>e. e) r, w'))"

definition EQ_ReadError :: "'p cenv \<Rightarrow> nat \<Rightarrow> uint64 \<Rightarrow> 'p world \<Rightarrow> EQError result \<times> 'p world" where
  "EQ_ReadError E q flags =
     with_handle q Inl (ErrInvalidHandle ''event queue'')
       (\<lambda>p w. case capi_EQ_ReadError E p flags w of
          (r, w') \<Rightarrow> (entry_result (hdr E) ErrNoEvent (\<lambda>e. e) r, w'))"

section \<open>Address vectors\<close>

definition FIAddrUnspec :: uint64 where
  "FIAddrUnspec = -1"

definition OpenAddressVector :: "'p cenv \<Rightarrow> godomain \<Rightarrow> AVAttr option \<Rightarrow> 'p world \<Rightarrow> nat result \<times> 'p world" where
  "OpenAddressVector E d attr =
     with_handle (gd_ref d) Inl (ErrInvalidHandle ''domain'') (\<lambda>dp. wrap_open KAV (capi_OpenAV E dp attr))"

definition AV_Close :: "'p cenv \<Rightarrow> nat \<Rightarrow> 'p world \<Rightarrow> goerr option \<times> 'p world" where
  "AV_Close E = close_wrapper (capi_AV_Close E)"

definition InsertService ::
  "'p cenv \<Rightarrow> nat \<Rightarrow> string \<Rightarrow> string \<Rightarrow> uint64 \<Rightarrow> 'p world \<Rightarrow> uint64 result \<times> 'p world" where
  "InsertService E a node service flags =
     with_handle a Inl (ErrInvalidHandle ''address vector'') (\<lambda>p. capi_AV_InsertService E p node service flags)"

definition AV_Remove :: "'p cenv \<Rightarrow> nat \<Rightarrow> uint64 list \<Rightarrow> uint64 \<Rightarrow> 'p world \<Rightarrow> goerr option \<times> 'p world" where
  "AV_Remove E a addrs flags =
     with_handle a Some (ErrInvalidHandle ''address vector'') (\<lambda>p. capi_AV_Remove E p addrs flags)"

definition InsertRaw :: "'p cenv \<Rightarrow> nat \<Rightarrow> byte list \<Rightarrow> uint64 \<Rightarrow> 'p world \<Rightarrow> uint64 result \<times> 'p world" where
  "InsertRaw E a addr flags =
     with_handle a Inl (ErrInvalidHandle ''address vector'')
       (\<lambda>p w.
          if addr = [] then (Inl (Msg ''libfabric: empty address payload''), w)
          else
            (case AllocBytes E OTemp (length addr) w of
               (buf, w1) \<Rightarrow>
                 if buf = NULL then (Inl (Msg ''libfabric: unable to allocate address buffer''), w1)
                 else
                   (case capi_AV_InsertRaw E p buf flags (Memcpy (CMem buf) (GoVal addr) (length addr) w1) of
                      (r, w2) \<Rightarrow> (r, FreeBytes buf w2))))"

section \<open>Endpoints\<close>

definition OpenEndpoint :: "'p cenv \<Rightarrow> fi_info \<Rightarrow> godomain \<Rightarrow> 'p world \<Rightarrow> endpoint result \<times> 'p world" where
  "OpenEndpoint E d domain =
     with_handle (gd_ref domain) Inl (ErrInvalidHandle ''domain'')
       (\<lambda>dp. try_act (wrap_open KEndpoint (capi_OpenEndpoint E dp (Some d)))
               (\<lambda>e w. (Inl e, w))
               (\<lambda>i w. (Inr \<lparr>ep_ref = i, ep_injectLimit = InjectSize d,
                            ep_supportsTagged = any_bit (fi_caps d) (FI_TAGGED (hdr E))\<rparr>, w)))"

text \<open>From a connection event, whose descriptor may be missing.\<close>

definition OpenEndpointWithInfo ::
  "'p cenv \<Rightarrow> ver_api \<Rightarrow> godomain \<Rightarrow> fi_info option \<Rightarrow> 'p world \<Rightarrow> endpoint result \<times> 'p world" where
  "OpenEndpointWithInfo E A domain entry =
     with_handle (gd_ref domain) Inl (ErrInvalidHandle ''domain'')
       (\<lambda>dp. try_act (wrap_open KEndpoint (capi_OpenEndpointWithInfo E dp entry))
               (\<lambda>e w. (Inl e, w))
               (\<lambda>i w. (Inr (case entry of
                              None \<Rightarrow> \<lparr>ep_ref = i, ep_injectLimit = 0, ep_supportsTagged = False\<rparr>
                            | Some d \<Rightarrow>
                                (let info = infoFromEntry (hdr E) A d
                                 in \<lparr>ep_ref = i, ep_injectLimit = i_InjectSize info,
                                     ep_supportsTagged = Info_SupportsTagged (hdr E) info\<rparr>)), w)))"

definition Endpoint_InjectLimit :: "endpoint option \<Rightarrow> nat" where
  "Endpoint_InjectLimit e = (case e of None \<Rightarrow> 0 | Some x \<Rightarrow> ep_injectLimit x)"

definition Endpoint_SupportsTagged :: "endpoint option \<Rightarrow> bool" where
  "Endpoint_SupportsTagged e = (case e of None \<Rightarrow> False | Some x \<Rightarrow> ep_supportsTagged x)"

definition Endpoint_Pointer :: "endpoint \<Rightarrow> 'p world \<Rightarrow> ptr" where
  "Endpoint_Pointer e w = (case handles w (ep_ref e) of None \<Rightarrow> NULL | Some (_, p) \<Rightarrow> p)"

definition Endpoint_Close :: "'p cenv \<Rightarrow> endpoint \<Rightarrow> 'p world \<Rightarrow> goerr option \<times> 'p world" where
  "Endpoint_Close E e = close_wrapper (capi_Endpoint_Close E) (ep_ref e)"

definition BindCompletionQueue ::
  "'p cenv \<Rightarrow> endpoint \<Rightarrow> compq \<Rightarrow> uint64 \<Rightarrow> 'p world \<Rightarrow> goerr option \<times> 'p world" where
  "BindCompletionQueue E e cq flags =
     with_handle (ep_ref e) Some (ErrInvalidHandle ''endpoint'')
       (\<lambda>p. with_handle (cq_ref cq) Some (ErrInvalidHandle ''completion queue'')
              (\<lambda>c. capi_BindCompletionQueue E p c flags))"

definition BindEventQueue ::
  "'p cenv \<Rightarrow> endpoint \<Rightarrow> nat \<Rightarrow> uint64 \<Rightarrow> 'p world \<Rightarrow> goerr option \<times> 'p world" where
  "BindEventQueue E e eq flags =
     with_handle (ep_ref e) Some (ErrInvalidHandle ''endpoint'')
       (\<lambda>p. with_handle eq Some (ErrInvalidHandle ''event queue'')
              (\<lambda>c. capi_BindEventQueue E p c flags))"

definition BindAddressVector ::
  "'p cenv \<Rightarrow> endpoint \<Rightarrow> nat \<Rightarrow> uint64 \<Rightarrow> 'p world \<Rightarrow> goerr option \<times> 'p world" where
  "BindAddressVector E e av flags =
     with_handle (ep_ref e) Some (ErrInvalidHandle ''endpoint'')
       (\<lambda>p. with_handle av Some (ErrInvalidHandle ''address vector'')
              (\<lambda>c. capi_BindAddressVector E p c flags))"

definition Endpoint_Accept :: "'p cenv \<Rightarrow> endpoint \<Rightarrow> byte list \<Rightarrow> 'p world \<Rightarrow> goerr option \<times> 'p world" where
  "Endpoint_Accept E e params =
     with_handle (ep_ref e) Some (ErrInvalidHandle ''endpoint'') (\<lambda>p. capi_Accept E p params)"

definition Endpoint_Connect :: "'p cenv \<Rightarrow> endpoint \<Rightarrow> byte list \<Rightarrow> 'p world \<Rightarrow> goerr option \<times> 'p world" where
  "Endpoint_Connect E e params =
     with_handle (ep_ref e) Some (ErrInvalidHandle ''endpoint'') (\<lambda>p. capi_Connect E p params)"

definition Endpoint_Enable :: "'p cenv \<Rightarrow> endpoint \<Rightarrow> 'p world \<Rightarrow> goerr option \<times> 'p world" where
  "Endpoint_Enable E e =
     with_handle (ep_ref e) Some (ErrInvalidHandle ''endpoint'') (\<lambda>p. capi_Enable E p)"

definition Endpoint_Name :: "'p cenv \<Rightarrow> endpoint \<Rightarrow> 'p world \<Rightarrow> byte list result \<times> 'p world" where
  "Endpoint_Name E e =
     with_handle (ep_ref e) Inl (ErrInvalidHandle ''endpoint'') (\<lambda>p. capi_Endpoint_Name E p)"

definition RegisterAddress ::
  "'p cenv \<Rightarrow> endpoint \<Rightarrow> nat \<Rightarrow> uint64 \<Rightarrow> 'p world \<Rightarrow> uint64 result \<times> 'p world" where
  "RegisterAddress E e av flags =
     with_handle (ep_ref e) Inl (ErrInvalidHandle ''endpoint'')
       (\<lambda>_. with_handle av Inl (ErrInvalidHandle ''address vector'')
              (\<lambda>_. try_act (Endpoint_Name E e) (\<lambda>x w. (Inl x, w)) (\<lambda>addr. InsertRaw E av addr flags)))"

section \<open>Passive endpoints and connection events\<close>

definition OpenPassiveEndpoint :: "'p cenv \<Rightarrow> fi_info \<Rightarrow> nat \<Rightarrow> 'p world \<Rightarrow> nat result \<times> 'p world" where
  "OpenPassiveEndpoint E d fabric =
     with_handle fabric Inl (Msg ''libfabric: fabric required for passive endpoint'')
       (\<lambda>fp. wrap_open KPassive (capi_OpenPassiveEndpoint E fp (Some d)))"

definition Passive_Close :: "'p cenv \<Rightarrow> nat \<Rightarrow> 'p world \<Rightarrow> goerr option \<times> 'p world" where
  "Passive_Close E = close_wrapper (capi_Passive_Close E)"

definition Passive_BindEventQueue :: "'p cenv \<Rightarrow> nat \<Rightarrow> nat \<Rightarrow> uint64 \<Rightarrow> 'p world \<Rightarrow> goerr option \<times> 'p world" where
  "Passive_BindEventQueue E p eq flags =
     with_handle p Some (Msg ''libfabric: passive endpoint closed'')
       (\<lambda>pp. with_handle eq Some (Msg ''libfabric: event queue required'')
               (\<lambda>q. capi_Passive_BindEventQueue E pp q flags))"

definition Passive_Listen :: "'p cenv \<Rightarrow> nat \<Rightarrow> 'p world \<Rightarrow> goerr option \<times> 'p world" where
  "Passive_Listen E p = with_handle p Some (Msg ''libfabric: passive endpoint closed'') (\<lambda>pp. capi_Listen E pp)"

definition Passive_Name :: "'p cenv \<Rightarrow> nat \<Rightarrow> 'p world \<Rightarrow> byte list result \<times> 'p world" where
  "Passive_Name E p = with_handle p Inl (Msg ''libfabric: passive endpoint closed'') (\<lambda>pp. capi_Passive_Name E pp)"

text \<open>A connection event is \<open>None\<close> once its \<open>cm\<close> is nil.\<close>

definition CE_Type :: "CMEvent option \<Rightarrow> uint32" where
  "CE_Type e = (case e of None \<Rightarrow> 0 | Some c \<Rightarrow> cm_Event c)"

definition CE_FID :: "CMEvent option \<Rightarrow> ptr" where
  "CE_FID e = (case e of None \<Rightarrow> NULL | Some c \<Rightarrow> cm_FID c)"

text \<open>\<open>Errno\<close> and \<open>ProviderErr\<close> of a connection event are constant.\<close>

definition CE_Errno :: "CMEvent option \<Rightarrow> errno" where
  "CE_Errno e = 0"

definition CE_ProviderErr :: "CMEvent option \<Rightarrow> int" where
  "CE_ProviderErr e = 0"

text \<open>\<open>Info\<close>; without a descriptor the entry is empty, as for a nil \<open>cm\<close>.\<close>

definition CE_Info :: "fi_hdr \<Rightarrow> ver_api \<Rightarrow> CMEvent option \<Rightarrow> Info option" where
  "CE_Info H A e = (case e of None \<Rightarrow> None | Some c \<Rightarrow> map_option (infoFromEntry H A) (cm_Info c))"

definition CE_Data :: "CMEvent option \<Rightarrow> byte list" where
  "CE_Data e = (case e of None \<Rightarrow> [] | Some c \<Rightarrow> cm_Data c)"

definition CE_OpenEndpoint ::
  "'p cenv \<Rightarrow> ver_api \<Rightarrow> CMEvent option \<Rightarrow> godomain \<Rightarrow> 'p world \<Rightarrow> endpoint result \<times> 'p world" where
  "CE_OpenEndpoint E A e domain w =
     (case e of
        None \<Rightarrow> (Inl (Msg ''libfabric: nil connection event''), w)
      | Some c \<Rightarrow> OpenEndpointWithInfo E A domain (cm_Info c) w)"

definition CE_Free :: "'p cenv \<Rightarrow> CMEvent option \<Rightarrow> 'p world \<Rightarrow> CMEvent option \<times> 'p world" where
  "CE_Free E e w = (case e of None \<Rightarrow> (None, w) | Some c \<Rightarrow> (None, snd (capi_CMEvent_FreeInfo E c w)))"

definition EQ_ReadCM :: "'p cenv \<Rightarrow> nat \<Rightarrow> nat \<Rightarrow> int \<Rightarrow> 'p world \<Rightarrow> CMEvent result \<times> 'p world" where
  "EQ_ReadCM E cm_size q timeout =
     with_handle q Inl (ErrInvalidHandle ''event queue'')
       (\<lambda>p w. case capi_ReadCM E cm_size p timeout w of
          (r, w') \<Rightarrow> (entry_result (hdr E) ErrNoEvent (\<lambda>c. c) r, w'))"

section \<open>Wait sets\<close>

definition capi_Wait :: "'p cenv \<Rightarrow> ptr \<Rightarrow> int \<Rightarrow> 'p world \<Rightarrow> goerr option \<times> 'p world" where
  "capi_Wait E p ms w =
     (if p = NULL then (Some (unavailable E ''fi_wait''), w)
      else
        (case ccall E (C_wait p (word_of_int ms)) w of
           (r, w') \<Rightarrow> (if 0 \<le> sint (r_ret r) then None else ErrorFromStatus (hdr E) (r_ret r) ''fi_wait'', w')))"

definition capi_Wait_FD :: "'p cenv \<Rightarrow> ptr \<Rightarrow> 'p world \<Rightarrow> int result \<times> 'p world" where
  "capi_Wait_FD E p w =
     (if p = NULL then (Inl (unavailable E ''fi_control(FI_GETWAIT)''), w)
      else
        (case ccall E (C_getwait p) w of
           (r, w') \<Rightarrow>
             (as_sum (ErrorFromStatus (hdr E) (r_ret r) ''fi_control(FI_GETWAIT)'')
                (sint (ucast (r_data r) :: int32)), w')))"

definition OpenWaitSet :: "'p cenv \<Rightarrow> nat \<Rightarrow> WaitAttr option \<Rightarrow> 'p world \<Rightarrow> nat result \<times> 'p world" where
  "OpenWaitSet E f attr =
     with_handle f Inl (ErrInvalidHandle ''fabric'') (\<lambda>fp. wrap_open KWait (capi_OpenWaitSet E fp attr))"

definition WaitSet_Close :: "'p cenv \<Rightarrow> nat \<Rightarrow> 'p world \<Rightarrow> goerr option \<times> 'p world" where
  "WaitSet_Close E = close_wrapper (capi_Wait_Close E)"

definition WaitSet_Wait :: "'p cenv \<Rightarrow> nat \<Rightarrow> int \<Rightarrow> 'p world \<Rightarrow> goerr option \<times> 'p world" where
  "WaitSet_Wait E i timeout =
     with_handle i Some (ErrInvalidHandle ''wait set'')
       (\<lambda>p. capi_Wait E p (if 0 \<le> timeout then timeout div 1000000 else -1))"

definition WaitSet_FD :: "'p cenv \<Rightarrow> nat \<Rightarrow> 'p world \<Rightarrow> int result \<times> 'p world" where
  "WaitSet_FD E i = with_handle i Inl (ErrInvalidHandle ''wait set'') (\<lambda>p. capi_Wait_FD E p)"

end
