(* ===== verification/Messaging.thy ===== *)
theory Messaging
  imports Endpoints
begin

text \<open>
  Posting operations: \<open>fi/messaging.go\<close>, \<open>fi/tagged.go\<close>, \<open>fi/rma.go\<close>. All six functions share one
  shape: find or make a completion context, choose the memory the provider works on (a
  registered region, or a staging buffer of the context), make the call, and release the context
  when anything fails. The shared parts are combinators over the release function.
\<close>

section \<open>The shared shape\<close>

text \<open>\<open>if status != nil { ctx.Release(); return nil, status }; return ctx, nil\<close>.\<close>

definition finish_post ::
  "('c \<Rightarrow> 'w \<Rightarrow> 'w) \<Rightarrow> 'c \<Rightarrow> ('w \<Rightarrow> goerr option \<times> 'w) \<Rightarrow> 'w \<Rightarrow> 'c option result \<times> 'w" where
  "finish_post rel c m w =
     (case m w of
        (Some e, w') \<Rightarrow> (Inl e, rel c w')
      | (None, w') \<Rightarrow> (Inr (Some c), w'))"

text \<open>\<open>cBuf, allocErr := ctx.ensureBuffer(n); if allocErr != nil { ctx.Release(); return }\<close>.\<close>

definition stage ::
  "('c \<Rightarrow> 'w \<Rightarrow> 'w) \<Rightarrow> 'c \<Rightarrow> ('w \<Rightarrow> ptr result \<times> 'w) \<Rightarrow> (ptr \<Rightarrow> 'w \<Rightarrow> 'c option result \<times> 'w) \<Rightarrow>
   'w \<Rightarrow> 'c option result \<times> 'w" where
  "stage rel c buf k w = try_act buf (\<lambda>e w. (Inl e, rel c w)) k w"

text \<open>
  The region branch: access check, descriptor, length (the whole region when the request gives no
  buffer), and the check against the region's length.
\<close>

definition use_region ::
  "'p cenv \<Rightarrow> nat \<Rightarrow> nat \<Rightarrow> nat \<Rightarrow> string \<Rightarrow> (ptr \<Rightarrow> ptr \<Rightarrow> nat \<Rightarrow> 'p world \<Rightarrow> nat option result \<times> 'p world) \<Rightarrow>
   'p world \<Rightarrow> nat option result \<times> 'p world" where
  "use_region E c r len toolong k w =
     (case ensureRegionAccess (Some r) (FI_MR_LOCAL (hdr E)) w of
        Some e \<Rightarrow> (Inl e, Release c w)
      | None \<Rightarrow>
          (let buf = (case regions w r of None \<Rightarrow> NULL | Some m \<Rightarrow> mr_buffer m)
           in case region_Descriptor E r w of
                (desc, w1) \<Rightarrow>
                  if len = 0 then k buf desc (region_Size r w1) w1
                  else if region_Size r w1 < len then (Inl (Msg toolong), Release c w1)
                  else k buf desc len w1))"

section \<open>Messages (fi/messaging.go)\<close>

record SendRequest =
  sr_Buffer :: slice
  sr_Dest :: uint64
  sr_Flags :: uint64
  sr_Context :: "nat option"
  sr_Region :: "nat option"

record RecvRequest =
  rr_Buffer :: slice
  rr_Source :: uint64
  rr_Flags :: uint64
  rr_Context :: "nat option"
  rr_Region :: "nat option"

text \<open>The inject attempt of \<open>PostSend\<close>: \<open>True\<close> when the data is gone and nothing else is to be done.\<close>

definition try_inject :: "'p cenv \<Rightarrow> endpoint \<Rightarrow> ptr \<Rightarrow> SendRequest \<Rightarrow> 'p world \<Rightarrow> bool \<times> 'p world" where
  "try_inject E ep p rq w =
     (if 0 < sl_len (sr_Buffer rq) \<and> sr_Context rq = None \<and> 0 < ep_injectLimit ep \<and>
         sl_len (sr_Buffer rq) \<le> ep_injectLimit ep
      then (case capi_Inject E p (slice_bytes (sr_Buffer rq) w) (sr_Dest rq) w of (e, w') \<Rightarrow> (e = None, w'))
      else (False, w))"

definition PostSend ::
  "'p cenv \<Rightarrow> endpoint \<Rightarrow> SendRequest option \<Rightarrow> 'p world \<Rightarrow> nat option result \<times> 'p world" where
  "PostSend E ep req =
     with_handle (ep_ref ep) Inl (ErrInvalidHandle ''endpoint'')
       (\<lambda>p w. case req of
          None \<Rightarrow> (Inl (Msg ''libfabric: nil send request''), w)
        | Some rq \<Rightarrow>
            try_act (ensureContext E (sr_Context rq)) (\<lambda>e w. (Inl e, w))
              (\<lambda>c w.
                 case try_inject E ep p rq w of
                   (True, w1) \<Rightarrow> (Inr None, Release c w1)
                 | (False, w1) \<Rightarrow>
                     (let post = (\<lambda>buf desc n w.
                            finish_post Release c (capi_Send E p buf n desc (sr_Dest rq) (Pointer c w)) w);
                          len = sl_len (sr_Buffer rq)
                      in case sr_Region rq of
                           Some r \<Rightarrow> use_region E c r len ''libfabric: send length exceeds registered region'' post w1
                         | None \<Rightarrow>
                             if 0 < len then
                               stage Release c (ensureBuffer E c len)
                                 (\<lambda>buf w. post buf NULL len (Memcpy (CMem buf) (sl_loc (sr_Buffer rq)) len w)) w1
                             else post NULL NULL 0 w1))
              w)"

definition recv_source :: "uint64 \<Rightarrow> uint64" where
  "recv_source s = (if s = 0 then FIAddrUnspec else s)"

definition PostRecv ::
  "'p cenv \<Rightarrow> endpoint \<Rightarrow> RecvRequest option \<Rightarrow> 'p world \<Rightarrow> nat option result \<times> 'p world" where
  "PostRecv E ep req =
     with_handle (ep_ref ep) Inl (ErrInvalidHandle ''endpoint'')
       (\<lambda>p w. case req of
          None \<Rightarrow> (Inl (Msg ''libfabric: nil recv request''), w)
        | Some rq \<Rightarrow>
            try_act (ensureContext E (rr_Context rq)) (\<lambda>e w. (Inl e, w))
              (\<lambda>c w.
                 (let post = (\<lambda>buf desc n w.
                        finish_post Release c (capi_Recv E p buf n desc (recv_source (rr_Source rq)) (Pointer c w)) w);
                      len = sl_len (rr_Buffer rq)
                  in case rr_Region rq of
                       Some r \<Rightarrow>
                         use_region E c r len ''libfabric: recv length exceeds registered region''
                           (\<lambda>buf desc n w. post buf desc n (if 0 < len then setCopyBack c (rr_Buffer rq) w else w)) w
                     | None \<Rightarrow>
                         if 0 < len then
                           stage Release c (ensureBuffer E c len)
                             (\<lambda>buf w. post buf NULL len (setCopyBack c (rr_Buffer rq) w)) w
                         else post NULL NULL 0 w))
              w)"

section \<open>Tagged messages (fi/tagged.go)\<close>

record TaggedSendRequest =
  ts_Buffer :: slice
  ts_Dest :: uint64
  ts_Tag :: uint64
  ts_Context :: "nat option"

record TaggedRecvRequest =
  tr_Buffer :: slice
  tr_Source :: uint64
  tr_Tag :: uint64
  tr_Ignore :: uint64
  tr_Context :: "nat option"

definition PostTaggedSend ::
  "'p cenv \<Rightarrow> endpoint \<Rightarrow> TaggedSendRequest option \<Rightarrow> 'p world \<Rightarrow> nat option result \<times> 'p world" where
  "PostTaggedSend E ep req =
     with_handle (ep_ref ep) Inl (ErrInvalidHandle ''endpoint'')
       (\<lambda>p w.
          if \<not> ep_supportsTagged ep then (Inl (Sentinel ErrCapabilityUnsupported), w)
          else case req of
            None \<Rightarrow> (Inl (Msg ''libfabric: nil tagged send request''), w)
          | Some rq \<Rightarrow>
              try_act (ensureContext E (ts_Context rq)) (\<lambda>e w. (Inl e, w))
                (\<lambda>c w.
                   (let post = (\<lambda>buf n w.
                          finish_post Release c (capi_TSend E p buf n NULL (ts_Dest rq) (ts_Tag rq) (Pointer c w)) w);
                        len = sl_len (ts_Buffer rq)
                    in if 0 < len then
                         stage Release c (ensureBuffer E c len)
                           (\<lambda>buf w. post buf len (Memcpy (CMem buf) (sl_loc (ts_Buffer rq)) len w)) w
                       else post NULL 0 w))
                w)"

definition PostTaggedRecv ::
  "'p cenv \<Rightarrow> endpoint \<Rightarrow> TaggedRecvRequest option \<Rightarrow> 'p world \<Rightarrow> nat option result \<times> 'p world" where
  "PostTaggedRecv E ep req =
     with_handle (ep_ref ep) Inl (ErrInvalidHandle ''endpoint'')
       (\<lambda>p w.
          if \<not> ep_supportsTagged ep then (Inl (Sentinel ErrCapabilityUnsupported), w)
          else case req of
            None \<Rightarrow> (Inl (Msg ''libfabric: nil tagged recv request''), w)
          | Some rq \<Rightarrow>
              try_act (ensureContext E (tr_Context rq)) (\<lambda>e w. (Inl e, w))
                (\<lambda>c w.
                   (let post = (\<lambda>buf n w.
                          finish_post Release c
                            (capi_TRecv E p buf n NULL (recv_source (tr_Source rq)) (tr_Tag rq) (tr_Ignore rq) (Pointer c w)) w);
                        len = sl_len (tr_Buffer rq)
                    in if 0 < len then
                         stage Release c (ensureBuffer E c len)
                           (\<lambda>buf w. post buf len (setCopyBack c (tr_Buffer rq) w)) w
                       else post NULL 0 w))
                w)"

section \<open>Remote memory (fi/rma.go)\<close>

record RMARequest =
  rq_Buffer :: slice
  rq_Region :: "nat option"
  rq_Key :: uint64
  rq_Offset :: uint64
  rq_Address :: uint64
  rq_Context :: "nat option"
  rq_Flags :: uint64

definition PostRead ::
  "'p cenv \<Rightarrow> endpoint \<Rightarrow> RMARequest option \<Rightarrow> 'p world \<Rightarrow> nat option result \<times> 'p world" where
  "PostRead E ep req =
     with_handle (ep_ref ep) Inl (ErrInvalidHandle ''endpoint'')
       (\<lambda>p w. case req of
          None \<Rightarrow> (Inl (Msg ''libfabric: nil RMA request''), w)
        | Some rq \<Rightarrow>
            try_act (ensureContext E (rq_Context rq)) (\<lambda>e w. (Inl e, w))
              (\<lambda>c w.
                 (let post = (\<lambda>buf desc n w.
                        finish_post Release c (capi_Read E p buf n desc (rq_Address rq) (rq_Key rq) (rq_Offset rq) (Pointer c w)) w);
                      len = sl_len (rq_Buffer rq)
                  in case rq_Region rq of
                       Some r \<Rightarrow>
                         use_region E c r len ''libfabric: read length exceeds registered region''
                           (\<lambda>buf desc n w. post buf desc n (if 0 < len then setCopyBack c (rq_Buffer rq) w else w)) w
                     | None \<Rightarrow>
                         if 0 < len then
                           stage Release c (ensureBuffer E c len)
                             (\<lambda>buf w. post buf NULL len (setCopyBack c (rq_Buffer rq) w)) w
                         else (Inl (Msg ''libfabric: RMA read requires buffer or region''), Release c w)))
              w)"

definition PostWrite ::
  "'p cenv \<Rightarrow> endpoint \<Rightarrow> RMARequest option \<Rightarrow> 'p world \<Rightarrow> nat option result \<times> 'p world" where
  "PostWrite E ep req =
     with_handle (ep_ref ep) Inl (ErrInvalidHandle ''endpoint'')
       (\<lambda>p w. case req of
          None \<Rightarrow> (Inl (Msg ''libfabric: nil RMA request''), w)
        | Some rq \<Rightarrow>
            try_act (ensureContext E (rq_Context rq)) (\<lambda>e w. (Inl e, w))
              (\<lambda>c w.
                 (let post = (\<lambda>buf desc n w.
                        finish_post Release c (capi_Write E p buf n desc (rq_Address rq) (rq_Key rq) (rq_Offset rq) (Pointer c w)) w);
                      len = sl_len (rq_Buffer rq)
                  in case rq_Region rq of
                       Some r \<Rightarrow> use_region E c r len ''libfabric: write length exceeds registered region'' post w
                     | None \<Rightarrow>
                         if 0 < len then
                           stage Release c (ensureBuffer E c len)
                             (\<lambda>buf w. post buf NULL len (Memcpy (CMem buf) (sl_loc (rq_Buffer rq)) len w)) w
                         else (Inl (Msg ''libfabric: RMA write requires buffer or region''), Release c w)))
              w)"

end
