(* ===== verification/Separation.thy ===== *)
theory Separation
  imports Region_Life
begin

text \<open>
  Completion contexts and memory regions live in one C heap. Here they are separated: no operation
  on a context touches memory of a region, no operation on a region touches memory of a context,
  and so the two safety invariants hold together along any mixture of them.
\<close>

section \<open>Context operations leave regions alone\<close>

lemma region_frame_refl [simp]: "region_frame w w"
  by (simp add: region_frame_def)

lemma region_frame_trans: "region_frame u v \<Longrightarrow> region_frame v w \<Longrightarrow> region_frame u w"
  by (simp add: region_frame_def)

lemma region_frame_new:
  assumes "malloc_spec E"
  shows "region_frame w (snd (NewCompletionContext E w))"
proof -
  obtain r w' where n: "NewCompletionContext E w = (r, w')" by fastforce
  from n assms show ?thesis
    by (cases rule: NewCompletionContext_cases) (auto simp: n region_frame_def)
qed

lemma region_frame_upd_ctx: "region_frame w (upd_ctx c f w)"
  by (rule region_frame_shape) simp_all

lemma region_frame_updates [simp]:
  "region_frame w (SetValue c v w)" "region_frame w (AddOnComplete c f w)" "region_frame w (AddCleanup c f w)"
  "region_frame w (setCopyBack c s w)"
  by (simp_all add: SetValue_def AddOnComplete_def AddCleanup_def setCopyBack_def region_frame_upd_ctx split: option.split)

lemma region_frame_release:
  assumes "\<not> fault w" and "ctx_mem w c x" and "ctxs w c = Some x" "\<not> cc_closed x"
  shows "region_frame w (release_ctx c rc rm w)"
proof -
  have "shape w (cc_ptr x) = Some (OCtx c, 1)" "cc_buffer x = NULL \<or> shape w (cc_buffer x) = Some (OBuf c, cc_bufCap x)"
    using assms(2) by (simp_all add: ctx_mem_def)
  then show ?thesis
    using release_ctx_effect(1,4,6,8) [OF assms, of rc rm] assms(1) by (auto simp: region_frame_def)
qed

lemma region_frame_Release:
  assumes "ctx_inv w"
  shows "region_frame w (Release c w)"
proof (cases "\<exists>x. ctxs w c = Some x \<and> \<not> cc_closed x")
  case True
  then obtain x where x: "ctxs w c = Some x" "\<not> cc_closed x" by blast
  with region_frame_release [OF ctx_invD(1) [OF assms] ctx_inv_open(1) [OF assms x] x] show ?thesis
    by (simp add: Release_def)
next
  case False
  then have "Release c w = w" by (auto simp: Release_def release_ctx_def split: option.split)
  then show ?thesis by simp
qed

lemma region_frame_resolve:
  assumes "ctx_inv w"
  shows "region_frame w (snd (resolveCompletion p w))"
proof (cases "p = NULL \<or> registry w p = None")
  case False
  then obtain c where c: "registry w p = Some c" by auto
  with ctx_invD(4) [OF assms] obtain x where x: "ctxs w c = Some x" "\<not> cc_closed x" "cc_ptr x = p"
    by blast
  let ?v = "w\<lparr>registry := (registry w)(p := None)\<rparr>"
  have "region_frame ?v (release_ctx c True False ?v)"
    using ctx_inv_open(1) [OF assms x(1,2)] x ctx_invD(1) [OF assms]
    by (intro region_frame_release [of _ _ x]) (simp_all add: ctx_mem_def)
  moreover have "region_frame w ?v" by (rule region_frame_shape) simp_all
  ultimately show ?thesis
    using False c region_frame_trans by (auto simp: resolveCompletion_def)
qed (auto simp: resolveCompletion_def)

lemma region_frame_ensureBuffer:
  assumes inv: "ctx_inv w" and m: "malloc_spec E"
  shows "region_frame w (snd (ensureBuffer E c n w))"
proof (cases "n = 0 \<or> \<not> (\<exists>x. ctxs w c = Some x \<and> \<not> (cc_buffer x \<noteq> NULL \<and> n \<le> cc_bufCap x))")
  case True
  then show ?thesis by (auto simp: ensureBuffer_def split: option.split)
next
  case False
  then obtain x where x: "ctxs w c = Some x" "\<not> (cc_buffer x \<noteq> NULL \<and> n \<le> cc_bufCap x)" and n: "n \<noteq> 0"
    by blast
  define v where "v = (if cc_buffer x \<noteq> NULL
    then upd_ctx c (\<lambda>x. x\<lparr>cc_buffer := NULL, cc_bufCap := 0\<rparr>) (FreeBytes (cc_buffer x) w) else w)"
  have buf: "cc_buffer x = NULL \<or> shape w (cc_buffer x) = Some (OBuf c, cc_bufCap x)"
    using ctx_invD(3) [OF inv x(1)] by (auto simp: ctx_ok_def ctx_mem_def split: if_splits)
  then have fv: "region_frame w v"
    using ctx_invD(1) [OF inv] by (auto simp: v_def region_frame_def)
  obtain b v' where al: "AllocBytes E (OBuf c) n v = (b, v')" by fastforce
  have "region_frame v v'"
    using AllocBytes_cases [OF al m] by (auto simp: region_frame_def split: if_splits)
  then have "region_frame w (upd_ctx c f v')" "region_frame w v'" for f
    using fv region_frame_trans region_frame_upd_ctx by blast+
  with x n al show ?thesis
    by (auto simp: ensureBuffer_def v_def Let_def split: prod.splits)
qed

section \<open>Region operations leave contexts alone\<close>

text \<open>Blocks that belong to regions or to nothing are invisible to contexts.\<close>

lemma ctx_owned_upd:
  "shape w' = (shape w)(b \<mapsto> (ORegion r, n)) \<Longrightarrow> shape w b = None \<Longrightarrow> ctx_owned w' = ctx_owned w"
  by (auto simp: ctx_owned_def fun_eq_iff)

lemma ctx_owned_del:
  "shape w' = (shape w)(b := None) \<Longrightarrow> shape w b = Some (ORegion r, n) \<Longrightarrow> ctx_owned w' = ctx_owned w"
  by (auto simp: ctx_owned_def fun_eq_iff)

lemma ctx_frame_register:
  assumes "malloc_spec E" and "holds_bytes w (sl_loc buf) (sl_len buf)"
  shows "ctx_frame w (snd (RegisterMemoryWithOptions E d buf opts w))"
proof -
  obtain r w' where reg: "RegisterMemoryWithOptions E d buf opts w = (r, w')" by fastforce
  note rest = RegisterMemoryWithOptions_frame [of E d buf opts w, unfolded reg snd_conv]
  from reg assms show ?thesis
  proof (cases rule: RegisterMemory_cases)
    case (failed e)
    then show ?thesis unfolding reg snd_conv by (intro ctx_frame_shape) (simp_all add: rest)
  next
    case (made b p)
    then show ?thesis unfolding reg snd_conv ctx_frame_def using ctx_owned_upd [OF made(5,4)] by (simp add: rest)
  qed
qed

lemma ctx_frame_region_Close:
  assumes "region_inv w"
  shows "ctx_frame w (snd (region_Close E r w))"
proof -
  obtain e w' where c: "region_Close E r w = (e, w')" by fastforce
  note rest = region_Close_frame [of E r w, unfolded c snd_conv]
  from c show ?thesis
  proof (cases rule: region_Close_cases)
    case (failed m p err)
    then show ?thesis unfolding c snd_conv by (intro ctx_frame_shape) (simp_all add: rest)
  next
    case (closed m)
    have ok: "region_ok w r m" by (rule region_invD(2) [OF assms closed(1)])
    have "ctx_owned w' = ctx_owned w"
    proof (cases "mr_buffer m \<noteq> NULL \<and> mr_ownsBuf m")
      case True
      with closed(3) ctx_owned_del [of w' w "mr_buffer m" r "mr_length m"] ok show ?thesis
        by (simp add: region_ok_def)
    next
      case False
      with closed(3) ctx_owned_cong show ?thesis by (metis (full_types))
    qed
    with closed ok show ?thesis unfolding c snd_conv ctx_frame_def by (auto simp: rest region_ok_def)
  qed (simp add: c)
qed

section \<open>Both invariants together\<close>

definition mem_safe :: "'p cenv \<Rightarrow> 'p world \<Rightarrow> bool" where
  "mem_safe E w \<longleftrightarrow> ctx_safe E w \<and> region_inv w"

text \<open>A context operation, or a call that touches neither contexts nor regions.\<close>

definition call_frame :: "'p world \<Rightarrow> 'p world \<Rightarrow> bool" where
  "call_frame w w' \<longleftrightarrow> ctx_frame w w' \<and> region_frame w w'"

definition post_step :: "'p cenv \<Rightarrow> 'p world \<Rightarrow> 'p world \<Rightarrow> bool" where
  "post_step E w w' \<longleftrightarrow> ctx_step E w w' \<and> region_frame w w'"

lemma call_frame_refl [simp]: "call_frame w w"
  by (simp add: call_frame_def)

lemma call_frame_trans: "call_frame u v \<Longrightarrow> call_frame v w \<Longrightarrow> call_frame u w"
  unfolding call_frame_def using ctx_frame_trans region_frame_trans by blast

lemma call_frame_shape:
  assumes "shape w' = shape w" and "ctxs w' = ctxs w" and "registry w' = registry w"
    and "ran w' = ran w" and "next_id w \<le> next_id w'" and "fault w' = fault w"
    and "gomem w' = gomem w" and "regions w' = regions w"
  shows "call_frame w w'"
  using assms by (simp add: call_frame_def ctx_frame_shape region_frame_shape)

lemma call_frame_ccall [simp]: "call_frame w (snd (ccall E c w))"
  by (rule call_frame_shape) simp_all

lemma call_frame_ctx: "call_frame w w' \<Longrightarrow> ctx_frame w w'"
  by (simp add: call_frame_def)

lemma post_steps:
  "malloc_spec E \<Longrightarrow> post_step E w (snd (NewCompletionContext E w))"
  "post_step E w (SetValue c v w)"
  "sl_loc s = GoMem a \<Longrightarrow> sl_len s \<le> length (gomem w a) \<Longrightarrow>
     (\<And>x. ctxs w c = Some x \<Longrightarrow> cc_buffer x = NULL \<or> sl_len s \<le> cc_bufCap x) \<Longrightarrow> post_step E w (setCopyBack c s w)"
  "ctx_inv w \<Longrightarrow> malloc_spec E \<Longrightarrow> n = 0 \<or> buffer_ok w c n \<Longrightarrow> post_step E w (snd (ensureBuffer E c n w))"
  "ctx_inv w \<Longrightarrow> post_step E w (snd (resolveCompletion p w))"
  "ctx_inv w \<Longrightarrow> post_step E w (Release c w)"
  "call_frame w w' \<Longrightarrow> post_step E w w'"
  by (simp_all add: post_step_def call_frame_def st_new st_value st_copy st_buffer st_resolve st_release st_frame
      region_frame_new region_frame_ensureBuffer region_frame_resolve region_frame_Release)

lemma post_run_ctx: "(post_step E)\<^sup>*\<^sup>* w w' \<Longrightarrow> (ctx_step E)\<^sup>*\<^sup>* w w'"
  by (induction rule: rtranclp_induct) (auto simp: post_step_def)

lemma ctx_frame_run: "ctx_frame w w' \<Longrightarrow> (ctx_step E)\<^sup>*\<^sup>* w w'"
  by (rule r_into_rtranclp) (rule st_frame)

lemma ctx_run_safe: "ctx_safe E u \<Longrightarrow> (ctx_step E)\<^sup>*\<^sup>* u v \<Longrightarrow> ctx_safe E v"
  by (rule safe.reach_inv)

interpretation memory: transition_invariant "post_step E" "mem_safe E" for E :: "'p cenv"
proof
  show "mem_safe E t" if "mem_safe E s" "post_step E s t" for s t :: "'p world"
    using that safe.keeps region_inv_frame unfolding mem_safe_def post_step_def by blast
qed

lemma mem_safe_region_step:
  assumes "mem_safe E w" and "ctx_frame w w'" and "region_step E w w'"
  shows "mem_safe E w'"
  using assms safe.keeps [OF _ st_frame] region_step_inv unfolding mem_safe_def ctx_safe_def by blast

lemma mem_safe_register:
  assumes "mem_safe E w" and "holds_bytes w (sl_loc buf) (sl_len buf)"
  shows "mem_safe E (snd (RegisterMemoryWithOptions E d buf opts w))"
  using assms by (intro mem_safe_region_step [OF assms(1)] ctx_frame_register rs_register)
    (simp_all add: mem_safe_def ctx_safe_def)

lemma mem_safe_region_Close: "mem_safe E w \<Longrightarrow> mem_safe E (snd (region_Close E r w))"
  by (rule mem_safe_region_step [OF _ ctx_frame_region_Close rs_close]) (simp_all add: mem_safe_def)

lemma mem_safe_frame: "mem_safe E w \<Longrightarrow> call_frame w w' \<Longrightarrow> mem_safe E w'"
  by (rule memory.keeps [OF _ post_steps(7)])

lemma mem_safe_world0: "malloc_spec E \<Longrightarrow> mem_safe E world0"
  by (simp add: mem_safe_def ctx_safe_world0 region_inv_world0)

end
