(* ===== verification/Posting.thy ===== *)
theory Posting
  imports Messaging Separation
begin

text \<open>
  The six posting functions refine the step relation of completion contexts, and a failed post
  leaves no context open. Both are proved once for the shared shape, against the interface of
  a context manager, and then read off for each function.
\<close>

section \<open>The interface\<close>

text \<open>
  \<open>post_ok run opn c w out\<close>: the outcome was reached from \<open>w\<close> by a run; when it returns context \<open>c\<close>,
  the open contexts are the same, and when it returns none, \<open>c\<close> is no longer open.
\<close>

definition post_ok :: "('w \<Rightarrow> 'w \<Rightarrow> bool) \<Rightarrow> ('w \<Rightarrow> 'c set) \<Rightarrow> 'c \<Rightarrow> 'w \<Rightarrow> 'c option result \<times> 'w \<Rightarrow> bool" where
  "post_ok run opn c w out \<longleftrightarrow>
     (case out of (r, w') \<Rightarrow>
        run w w' \<and>
        (case r of
           Inl _ \<Rightarrow> opn w' = opn w - {c}
         | Inr None \<Rightarrow> opn w' = opn w - {c}
         | Inr (Some x) \<Rightarrow> x = c \<and> opn w' = opn w))"

locale context_manager =
  fixes inv :: "'w \<Rightarrow> bool"
    and run :: "'w \<Rightarrow> 'w \<Rightarrow> bool"
    and opn :: "'w \<Rightarrow> 'c set"
    and rel :: "'c \<Rightarrow> 'w \<Rightarrow> 'w"
  assumes run_trans: "run u v \<Longrightarrow> run v w \<Longrightarrow> run u w"
    and run_inv: "inv u \<Longrightarrow> run u v \<Longrightarrow> inv v"
    and rel_run: "inv u \<Longrightarrow> run u (rel c u)"
    and rel_opn: "inv u \<Longrightarrow> opn (rel c u) = opn u - {c}"
begin

lemma fail_ok: "inv w \<Longrightarrow> post_ok run opn c w (Inl e, rel c w)"
  by (simp add: post_ok_def rel_run rel_opn)

lemma fail_after:
  "inv w \<Longrightarrow> run w v \<Longrightarrow> opn v = opn w \<Longrightarrow> post_ok run opn c w (Inl e, rel c v)"
  unfolding post_ok_def using run_inv rel_run rel_opn run_trans by (auto intro: run_trans)

lemma after: "run w v \<Longrightarrow> opn v = opn w \<Longrightarrow> post_ok run opn c v out \<Longrightarrow> post_ok run opn c w out"
  by (cases out; cases "fst out") (auto simp: post_ok_def intro: run_trans split: option.splits)

lemma finish_ok:
  assumes "inv w" and "run w (snd (m w))" and "opn (snd (m w)) = opn w"
  shows "post_ok run opn c w (finish_post rel c m w)"
proof (cases "m w")
  case (Pair e v)
  then show ?thesis
    using assms fail_after [of w v]
    by (cases e) (simp_all add: finish_post_def post_ok_def)
qed

lemma stage_ok:
  assumes "inv w" and "\<And>e v. buf w = (e, v) \<Longrightarrow> run w v \<and> opn v = opn w"
    and "\<And>b v. buf w = (Inr b, v) \<Longrightarrow> post_ok run opn c v (k b v)"
  shows "post_ok run opn c w (stage rel c buf k w)"
proof (cases "buf w")
  case (Pair r v)
  then show ?thesis
    using assms(2) [OF Pair] assms(3) [of _ v] fail_after [OF assms(1)] after [of w v]
    by (cases r) (auto simp: stage_def try_act_def)
qed

end

section \<open>Completion contexts provide it\<close>

definition open_set :: "'p world \<Rightarrow> nat set" where
  "open_set w = {c. open_ctx w c}"

lemma open_set_ctx_frame: "ctx_frame w w' \<Longrightarrow> open_set w' = open_set w"
  by (simp add: open_set_def open_ctx_def ctx_frame_def)

lemma open_set_frame: "call_frame w w' \<Longrightarrow> open_set w' = open_set w"
  by (rule open_set_ctx_frame) (rule call_frame_ctx)

lemma open_set_Release:
  assumes "ctx_inv w"
  shows "open_set (Release c w) = open_set w - {c}"
proof (cases "open_ctx w c")
  case True
  then obtain x where x: "ctxs w c = Some x" "\<not> cc_closed x" by (auto simp: open_ctx_def)
  have "ctx_mem w c x" by (rule ctx_inv_open(1) [OF assms x])
  from release_ctx_effect(2) [OF ctx_invD(1) [OF assms] this x, of False True] show ?thesis
    by (auto simp: Release_def open_set_def open_ctx_def)
next
  case False
  then have "Release c w = w"
    by (auto simp: Release_def release_ctx_def open_ctx_def split: option.split)
  with False show ?thesis by (auto simp: open_set_def)
qed

interpretation posts: context_manager "ctx_safe E" "(post_step E)\<^sup>*\<^sup>*" open_set Release for E :: "'p cenv"
proof
  show "(post_step E)\<^sup>*\<^sup>* u w" if "(post_step E)\<^sup>*\<^sup>* u v" "(post_step E)\<^sup>*\<^sup>* v w" for u v w
    using that by (rule rtranclp_trans)
  show "ctx_safe E v" if "ctx_safe E u" "(post_step E)\<^sup>*\<^sup>* u v" for u v
    using safe.reach_inv post_run_ctx that by blast
  show "(post_step E)\<^sup>*\<^sup>* u (Release c u)" if "ctx_safe E u" for u c
    using that by (intro r_into_rtranclp post_steps(6)) (simp add: ctx_safe_def)
  show "open_set (Release c u) = open_set u - {c}" if "ctx_safe E u" for u c
    using that by (simp add: ctx_safe_def open_set_Release)
qed

section \<open>The steps of a post\<close>

lemma frame_run: "call_frame w w' \<Longrightarrow> (post_step E)\<^sup>*\<^sup>* w w'"
  by (rule r_into_rtranclp) (rule post_steps(7))

lemma guarded_frame: "call_frame w (snd (guarded E p c op w))"
  by (rule call_frame_shape) (simp_all add: guarded_def)

lemma Descriptor_frame: "call_frame w (snd (region_Descriptor E r w))"
  by (rule call_frame_shape)
    (simp_all add: region_Descriptor_def capi_MR_Descriptor_def split_beta split: option.split)

lemma finish_call:
  assumes "ctx_safe E w" and "\<And>v. call_frame v (snd (m v))"
  shows "post_ok (post_step E)\<^sup>*\<^sup>* open_set c w (finish_post Release c m w)"
  using assms(1) frame_run [OF assms(2)] open_set_frame [OF assms(2)] by (rule posts.finish_ok)

text \<open>A context that no post has used yet, the state of a new one.\<close>

definition unused :: "'p world \<Rightarrow> nat \<Rightarrow> bool" where
  "unused w c \<longleftrightarrow> (\<exists>x. ctxs w c = Some x \<and> \<not> cc_closed x \<and> cc_buffer x = NULL \<and> cc_copyBack x = None)"

lemma unused_frame: "call_frame w w' \<Longrightarrow> unused w' c = unused w c"
  by (simp add: unused_def call_frame_def ctx_frame_def)

text \<open>The byte slices Go code passes in.\<close>

definition go_slice :: "'p world \<Rightarrow> slice \<Rightarrow> bool" where
  "go_slice w s \<longleftrightarrow> sl_len s = 0 \<or>
     (case sl_loc s of GoMem a \<Rightarrow> sl_len s \<le> length (gomem w a) | GoVal bs \<Rightarrow> sl_len s \<le> length bs | CMem _ \<Rightarrow> False)"

definition go_array :: "'p world \<Rightarrow> slice \<Rightarrow> bool" where
  "go_array w s \<longleftrightarrow> sl_len s = 0 \<or> (\<exists>a. sl_loc s = GoMem a \<and> sl_len s \<le> length (gomem w a))"

lemma go_slice_frame: "call_frame w w' \<Longrightarrow> go_slice w' s = go_slice w s" "call_frame w w' \<Longrightarrow> go_array w' s = go_array w s"
  by (simp_all add: go_slice_def go_array_def call_frame_def ctx_frame_def split: loc.split)

text \<open>What \<open>ensureBuffer\<close> gives a post: an open context whose buffer is the one returned.\<close>

lemma gomem_ensureBuffer:
  "length (gomem (snd (ensureBuffer E c n w)) a) = length (gomem w a)"
  by (simp add: ensureBuffer_def Let_def split_beta AllocBytes_def split: option.split)

lemma ensureBuffer_post:
  assumes safe: "ctx_safe E w" and un: "unused w c" and n: "0 < n"
    and eb: "ensureBuffer E c n w = (r, w')"
  shows "(post_step E)\<^sup>*\<^sup>* w w'" and "open_set w' = open_set w"
    and "r = Inr b \<Longrightarrow> \<exists>x. ctxs w' c = Some x \<and> cc_buffer x = b \<and> b \<noteq> NULL \<and> n \<le> cc_bufCap x \<and>
      \<not> cc_closed x \<and> cc_copyBack x = None"
proof -
  have inv: "ctx_inv w" and m: "malloc_spec E" using safe by (simp_all add: ctx_safe_def)
  have ok: "n = 0 \<or> buffer_ok w c n" using un by (auto simp: buffer_ok_def unused_def)
  show "(post_step E)\<^sup>*\<^sup>* w w'"
    using post_steps(4) [OF inv m ok] eb by (simp add: r_into_rtranclp)
  have "open_ctx w' d = open_ctx w d" for d
    using ctx_inv_ensureBuffer(4) [OF inv m ok eb, of d] by (auto simp: open_ctx_def map_option_case split: option.splits)
  then show "open_set w' = open_set w" by (simp add: open_set_def)
  assume "r = Inr b"
  with ctx_inv_ensureBuffer(5) [OF inv m ok eb, of b] n obtain x where
    x: "ctxs w' c = Some x" "cc_buffer x = b" "b \<noteq> NULL" "n \<le> cc_bufCap x" "\<not> cc_closed x" by auto
  moreover have "cc_copyBack x = None"
    using un n eb x(1)
    by (auto simp: ensureBuffer_def unused_def Let_def ctxs_upd_ctx split_beta AllocBytes_def split: if_splits option.splits)
  ultimately show "\<exists>x. ctxs w' c = Some x \<and> cc_buffer x = b \<and> b \<noteq> NULL \<and> n \<le> cc_bufCap x \<and>
      \<not> cc_closed x \<and> cc_copyBack x = None" by blast
qed

text \<open>Copying the caller's bytes into the staging buffer is a step the contexts do not see.\<close>

lemma copy_in_frame:
  assumes inv: "ctx_inv w" and x: "ctxs w c = Some x" "\<not> cc_closed x" "cc_buffer x = b" "b \<noteq> NULL" "n \<le> cc_bufCap x"
    and s: "go_slice w s" "sl_len s = n"
  shows "call_frame w (Memcpy (CMem b) (sl_loc s) n w)"
proof -
  have "holds_bytes w (CMem b) n"
    using ctx_inv_open(1) [OF inv x(1,2)] x(3-5) by (auto simp: ctx_mem_def)
  moreover have "n = 0 \<or> holds_bytes w (sl_loc s) n"
    using s by (auto simp: go_slice_def split: loc.splits)
  moreover have "fault (Memcpy (CMem b) (sl_loc s) 0 w) = fault w"
    by (simp add: Memcpy_def)
  ultimately have "fault (Memcpy (CMem b) (sl_loc s) n w) = fault w"
    using fault_Memcpy by metis
  then show ?thesis by (intro call_frame_shape) simp_all
qed

lemma copy_back_run:
  assumes "\<And>x. ctxs w c = Some x \<Longrightarrow> cc_buffer x = NULL \<or> sl_len s \<le> cc_bufCap x" and "go_array w s" and "0 < sl_len s"
  shows "(post_step E)\<^sup>*\<^sup>* w (setCopyBack c s w)" and "open_set (setCopyBack c s w) = open_set w"
proof -
  from assms(2,3) obtain a where "sl_loc s = GoMem a" "sl_len s \<le> length (gomem w a)"
    by (auto simp: go_array_def)
  then show "(post_step E)\<^sup>*\<^sup>* w (setCopyBack c s w)"
    by (intro r_into_rtranclp post_steps(3) assms(1))
  show "open_set (setCopyBack c s w) = open_set w"
    by (auto simp: open_set_def open_ctx_def setCopyBack_def ctxs_upd_ctx split: option.splits if_splits)
qed

lemma go_slice_ensureBuffer:
  "go_slice (snd (ensureBuffer E c n w)) s = go_slice w s" "go_array (snd (ensureBuffer E c n w)) s = go_array w s"
  by (simp_all add: go_slice_def go_array_def gomem_ensureBuffer split: loc.split)

text \<open>The two staged shapes: copy in, or remember where to copy back.\<close>

lemma stage_in_ok:
  assumes safe: "ctx_safe E w" and un: "unused w c" and s: "go_slice w s" "sl_len s = n" "0 < n"
    and m: "\<And>b v u. call_frame u (snd (m b v u))"
  shows "post_ok (post_step E)\<^sup>*\<^sup>* open_set c w
    (stage Release c (ensureBuffer E c n)
       (\<lambda>b w. finish_post Release c (m b (Memcpy (CMem b) (sl_loc s) n w)) (Memcpy (CMem b) (sl_loc s) n w)) w)"
proof (rule posts.stage_ok [OF safe])
  fix e v assume eb: "ensureBuffer E c n w = (e, v)"
  show "(post_step E)\<^sup>*\<^sup>* w v \<and> open_set v = open_set w"
    using ensureBuffer_post(1,2) [OF safe un s(3) eb] by simp
next
  fix b v assume eb: "ensureBuffer E c n w = (Inr b, v)"
  from ensureBuffer_post(3) [OF safe un s(3) eb refl] obtain x where
    x: "ctxs v c = Some x" "cc_buffer x = b" "b \<noteq> NULL" "n \<le> cc_bufCap x" "\<not> cc_closed x" by blast
  have safe': "ctx_safe E v" by (rule posts.run_inv [OF safe ensureBuffer_post(1) [OF safe un s(3) eb]])
  have "go_slice v s" using go_slice_ensureBuffer(1) [of E c n w s] eb s(1) by simp
  then have fr: "call_frame v (Memcpy (CMem b) (sl_loc s) n v)"
    using copy_in_frame [of v c x b n s] x s(2) safe' by (simp add: ctx_safe_def)
  have "post_ok (post_step E)\<^sup>*\<^sup>* open_set c (Memcpy (CMem b) (sl_loc s) n v)
      (finish_post Release c (m b (Memcpy (CMem b) (sl_loc s) n v)) (Memcpy (CMem b) (sl_loc s) n v))"
    by (rule finish_call [OF posts.run_inv [OF safe' frame_run [OF fr]] m])
  then show "post_ok (post_step E)\<^sup>*\<^sup>* open_set c v
      (finish_post Release c (m b (Memcpy (CMem b) (sl_loc s) n v)) (Memcpy (CMem b) (sl_loc s) n v))"
    by (rule posts.after [OF frame_run [OF fr] open_set_frame [OF fr]])
qed

lemma stage_back_ok:
  assumes safe: "ctx_safe E w" and un: "unused w c" and s: "go_array w s" "sl_len s = n" "0 < n"
    and m: "\<And>b v u. call_frame u (snd (m b v u))"
  shows "post_ok (post_step E)\<^sup>*\<^sup>* open_set c w
    (stage Release c (ensureBuffer E c n)
       (\<lambda>b w. finish_post Release c (m b (setCopyBack c s w)) (setCopyBack c s w)) w)"
proof (rule posts.stage_ok [OF safe])
  fix e v assume eb: "ensureBuffer E c n w = (e, v)"
  show "(post_step E)\<^sup>*\<^sup>* w v \<and> open_set v = open_set w"
    using ensureBuffer_post(1,2) [OF safe un s(3) eb] by simp
next
  fix b v assume eb: "ensureBuffer E c n w = (Inr b, v)"
  from ensureBuffer_post(3) [OF safe un s(3) eb refl] obtain x where
    x: "ctxs v c = Some x" "n \<le> cc_bufCap x" by blast
  have safe': "ctx_safe E v" by (rule posts.run_inv [OF safe ensureBuffer_post(1) [OF safe un s(3) eb]])
  have "go_array v s" using go_slice_ensureBuffer(2) [of E c n w s] eb s(1) by simp
  then have run: "(post_step E)\<^sup>*\<^sup>* v (setCopyBack c s v)" "open_set (setCopyBack c s v) = open_set v"
    using copy_back_run [of v c s] x s(2,3) by auto
  have "post_ok (post_step E)\<^sup>*\<^sup>* open_set c (setCopyBack c s v)
      (finish_post Release c (m b (setCopyBack c s v)) (setCopyBack c s v))"
    by (rule finish_call [OF posts.run_inv [OF safe' run(1)] m])
  then show "post_ok (post_step E)\<^sup>*\<^sup>* open_set c v (finish_post Release c (m b (setCopyBack c s v)) (setCopyBack c s v))"
    by (rule posts.after [OF run])
qed

text \<open>The region branch, with or without a copy-back to remember.\<close>

lemma use_region_ok:
  assumes safe: "ctx_safe E w" and un: "unused w c"
    and k: "\<And>b d n v. call_frame w v \<Longrightarrow> post_ok (post_step E)\<^sup>*\<^sup>* open_set c v (k b d n v)"
  shows "post_ok (post_step E)\<^sup>*\<^sup>* open_set c w (use_region E c r len msg k w)"
proof -
  let ?v = "snd (region_Descriptor E r w)"
  have fr: "call_frame w ?v" by (rule Descriptor_frame)
  have "post_ok (post_step E)\<^sup>*\<^sup>* open_set c ?v (k b d n ?v)" for b d n by (rule k [OF fr])
  then show ?thesis
    using posts.after [OF frame_run [OF fr] open_set_frame [OF fr]]
      posts.fail_after [OF safe frame_run [OF fr] open_set_frame [OF fr]] posts.fail_ok [OF safe]
    by (auto simp: use_region_def Let_def split_beta split: option.split)
qed

section \<open>The six functions\<close>

text \<open>
  \<open>ready\<close>: the request brings no context, a released one (refused), or one no post has used yet.
  \<open>posted\<close>: what a posting function guarantees for a request with context \<open>ctx\<close>.
\<close>

definition ready :: "'p world \<Rightarrow> nat option \<Rightarrow> bool" where
  "ready w ctx \<longleftrightarrow> (case ctx of None \<Rightarrow> True | Some c \<Rightarrow> IsReleased c w \<or> unused w c)"

definition posted :: "'p cenv \<Rightarrow> nat option \<Rightarrow> 'p world \<Rightarrow> nat option result \<times> 'p world \<Rightarrow> bool" where
  "posted E ctx w out \<longleftrightarrow>
     (case out of (r, w') \<Rightarrow>
        (post_step E)\<^sup>*\<^sup>* w w' \<and>
        (case r of
           Inl _ \<Rightarrow> open_set w' \<subseteq> open_set w \<and> open_set w - set_option ctx \<subseteq> open_set w'
         | Inr None \<Rightarrow> open_set w' = open_set w
         | Inr (Some c) \<Rightarrow> open_set w' = insert c (open_set w) \<and>
             (case ctx of None \<Rightarrow> c \<notin> open_set w | Some d \<Rightarrow> c = d)))"

lemma posted_error: "posted E ctx w (Inl e, w)"
  by (simp add: posted_def)

lemma posted_fresh:
  assumes safe: "ctx_safe E w" and rd: "ready w ctx"
    and k: "\<And>c v. ctx_safe E v \<Longrightarrow> unused v c \<Longrightarrow> (\<And>s. go_slice v s = go_slice w s) \<Longrightarrow>
      (\<And>s. go_array v s = go_array w s) \<Longrightarrow> post_ok (post_step E)\<^sup>*\<^sup>* open_set c v (k c v)"
    and none: "\<And>c v v'. k c v = (Inr None, v') \<Longrightarrow> ctx = None"
  shows "posted E ctx w (try_act (ensureContext E ctx) (\<lambda>e w. (Inl e, w)) k w)"
proof (cases ctx)
  case (Some c)
  show ?thesis
  proof (cases "IsReleased c w")
    case True
    with Some show ?thesis by (simp add: try_act_def ensureContext_def posted_error)
  next
    case False
    with rd Some have un: "unused w c" by (simp add: ready_def)
    then have "c \<in> open_set w" by (auto simp: unused_def open_set_def open_ctx_def)
    moreover have "post_ok (post_step E)\<^sup>*\<^sup>* open_set c w (k c w)" by (rule k [OF safe un]) simp_all
    ultimately show ?thesis
      using False Some none [of c w]
      by (cases "k c w"; cases "fst (k c w)")
        (auto simp: try_act_def ensureContext_def posted_def post_ok_def split: option.splits)
  qed
next
  case None
  obtain r v where n: "NewCompletionContext E w = (r, v)" by fastforce
  have inv: "ctx_inv w" and m: "malloc_spec E" using safe by (simp_all add: ctx_safe_def)
  have run: "(post_step E)\<^sup>*\<^sup>* w v" using post_steps(1) [OF m, of w] n by (simp add: r_into_rtranclp)
  from n m show ?thesis
  proof (cases rule: NewCompletionContext_cases)
    case failed
    with None n run show ?thesis
      by (auto simp: try_act_def ensureContext_def posted_def open_set_def open_ctx_def)
  next
    case (made p)
    let ?c = "next_id w"
    have "ctxs w ?c = None"
      using ctx_invD(2) [OF inv, of ?c] by (cases "ctxs w ?c") auto
    then have new: "?c \<notin> open_set w" and opn: "open_set v = insert ?c (open_set w)"
      using made(5) by (auto simp: open_set_def open_ctx_def cc_new_def)
    have "post_ok (post_step E)\<^sup>*\<^sup>* open_set ?c v (k ?c v)"
      by (rule k [OF posts.run_inv [OF safe run]])
        (use made in \<open>simp_all add: unused_def cc_new_def go_slice_def go_array_def split: loc.split\<close>)
    then show ?thesis
      using None n made(1) new opn run
      by (cases "k ?c v"; cases "fst (k ?c v)")
        (auto simp: try_act_def ensureContext_def posted_def post_ok_def split: option.splits intro: rtranclp_trans)
  qed
qed

text \<open>The calls themselves are frames of the contexts.\<close>

lemma transfer_frame [simp]:
  "call_frame w (snd (capi_Send E p b n d a c w))"
  "call_frame w (snd (capi_Recv E p b n d a c w))"
  "call_frame w (snd (capi_TSend E p b n d a t c w))"
  "call_frame w (snd (capi_TRecv E p b n d a t i c w))"
  "call_frame w (snd (capi_Read E p b n d a k off c w))"
  "call_frame w (snd (capi_Write E p b n d a k off c w))"
  "call_frame w (snd (capi_Inject E p bs a w))"
  by (simp_all add: capi_Send_def capi_Recv_def capi_TSend_def capi_TRecv_def capi_Read_def capi_Write_def
      capi_Inject_def guarded_frame)

lemma not_posted_None:
  "finish_post rel c m w \<noteq> (Inr None, v)"
  by (simp add: finish_post_def split: prod.split option.split)

lemma stage_not_None:
  "(\<And>b w v. k b w \<noteq> (Inr None, v)) \<Longrightarrow> stage rel c buf k w \<noteq> (Inr None, v)"
  by (simp add: stage_def try_act_def split: prod.split sum.split)

lemma use_region_not_None:
  "(\<And>b d n w v. k b d n w \<noteq> (Inr None, v)) \<Longrightarrow> use_region E c r len msg k w \<noteq> (Inr None, v)"
  by (simp add: use_region_def Let_def split: prod.split option.split)

lemmas posts_something = not_posted_None stage_not_None use_region_not_None

lemma region_post_ok:
  assumes "ctx_safe E w" and "unused w c" and "\<And>b d n v u. call_frame u (snd (m b d n v u))"
  shows "post_ok (post_step E)\<^sup>*\<^sup>* open_set c w
    (use_region E c r len msg (\<lambda>b d n w. finish_post Release c (m b d n w) w) w)"
  by (rule use_region_ok [OF assms(1,2)], rule finish_call [OF posts.run_inv [OF assms(1) frame_run] assms(3)])

lemma region_back_ok:
  assumes safe: "ctx_safe E w" and un: "unused w c" and s: "go_array w s" "sl_len s = len"
    and m: "\<And>b d n v u. call_frame u (snd (m b d n v u))"
  shows "post_ok (post_step E)\<^sup>*\<^sup>* open_set c w
    (use_region E c r len msg
       (\<lambda>b d n w. finish_post Release c (m b d n (if 0 < len then setCopyBack c s w else w))
                    (if 0 < len then setCopyBack c s w else w)) w)"
proof (rule use_region_ok [OF safe un])
  fix b d n v
  assume fr: "call_frame w v"
  have safe': "ctx_safe E v" by (rule posts.run_inv [OF safe frame_run [OF fr]])
  let ?v = "if 0 < len then setCopyBack c s v else v"
  have "cc_buffer x = NULL \<or> sl_len s \<le> cc_bufCap x" if "ctxs v c = Some x" for x
    using un unused_frame [OF fr, of c] that by (auto simp: unused_def)
  moreover have "go_array v s" using go_slice_frame(2) [OF fr] s(1) by simp
  ultimately have run: "(post_step E)\<^sup>*\<^sup>* v ?v" "open_set ?v = open_set v"
    using copy_back_run [of v c s] s(2) by auto
  show "post_ok (post_step E)\<^sup>*\<^sup>* open_set c v (finish_post Release c (m b d n ?v) ?v)"
    by (rule posts.after [OF run]) (rule finish_call [OF posts.run_inv [OF safe' run(1)] m])
qed

text \<open>Calls on a closed endpoint are refused; the rest of the call is one on a live pointer.\<close>

lemma posted_handle:
  "(\<And>p. posted E ctx w (f p w)) \<Longrightarrow> posted E ctx w (with_handle r Inl e f w)"
  by (simp add: with_handle_def posted_error split: option.split prod.split)

lemma posted_unless:
  "(\<not> b \<Longrightarrow> posted E ctx w out) \<Longrightarrow> posted E ctx w (if b then (Inl e, w) else out)"
  by (simp add: posted_error)

lemma staged_send_ok:
  assumes "ctx_safe E w" and "unused w c" and "go_slice w s" and "0 < sl_len s"
    and "\<And>b v u. call_frame u (snd (m b v u))"
  shows "post_ok (post_step E)\<^sup>*\<^sup>* open_set c w
    (stage Release c (ensureBuffer E c (sl_len s))
       (\<lambda>b w. finish_post Release c (m b (Memcpy (CMem b) (sl_loc s) (sl_len s) w)) (Memcpy (CMem b) (sl_loc s) (sl_len s) w)) w)"
  by (rule stage_in_ok [OF assms(1-3) refl assms(4,5)])

lemma staged_recv_ok:
  assumes "ctx_safe E w" and "unused w c" and "go_array w s" and "0 < sl_len s"
    and "\<And>b v u. call_frame u (snd (m b v u))"
  shows "post_ok (post_step E)\<^sup>*\<^sup>* open_set c w
    (stage Release c (ensureBuffer E c (sl_len s))
       (\<lambda>b w. finish_post Release c (m b (setCopyBack c s w)) (setCopyBack c s w)) w)"
  by (rule stage_back_ok [OF assms(1-3) refl assms(4,5)])

lemma try_inject_frame: "call_frame w (snd (try_inject E ep p rq w))"
  by (simp add: try_inject_def split_beta)

section \<open>Each function\<close>

lemma PostSend_refines:
  assumes "ctx_safe E w" and "ready w (sr_Context rq)" and "sr_Region rq = None \<longrightarrow> go_slice w (sr_Buffer rq)"
  shows "posted E (sr_Context rq) w (PostSend E ep (Some rq) w)"
  unfolding PostSend_def option.case
proof (rule posted_handle, rule posted_fresh [OF assms(1,2)], goal_cases)
  case (1 p c v)
  let ?u = "snd (try_inject E ep p rq v)" and ?n = "sl_len (sr_Buffer rq)"
  let ?m = "\<lambda>b d n w. capi_Send E p b n d (sr_Dest rq) (Pointer c w)"
  note fr = try_inject_frame [of v E ep p rq]
  have u: "ctx_safe E ?u" "unused ?u c" "sr_Region rq = None \<Longrightarrow> go_slice ?u (sr_Buffer rq)"
    using posts.run_inv [OF 1(1) frame_run [OF fr]] unused_frame [OF fr] go_slice_frame(1) [OF fr] 1(2,3) assms(3)
    by auto
  have "post_ok (post_step E)\<^sup>*\<^sup>* open_set c v (Inr None, Release c ?u)"
    using posts.fail_after [OF 1(1) frame_run [OF fr] open_set_frame [OF fr]] by (simp add: post_ok_def)
  moreover have "post_ok (post_step E)\<^sup>*\<^sup>* open_set c v out" if "post_ok (post_step E)\<^sup>*\<^sup>* open_set c ?u out" for out
    by (rule posts.after [OF frame_run [OF fr] open_set_frame [OF fr] that])
  moreover note region_post_ok [OF u(1,2), of ?m] staged_send_ok [OF u(1,2), of "sr_Buffer rq" "\<lambda>b. ?m b NULL ?n"] u(3)
    finish_call [OF u(1), of "?m NULL NULL 0 ?u" c]
  ultimately show ?case
    by (cases "try_inject E ep p rq v"; cases "fst (try_inject E ep p rq v)") (simp_all add: Let_def split: option.split)
next
  case (2 p c v v')
  then show ?case
    by (cases "try_inject E ep p rq v"; cases "fst (try_inject E ep p rq v)")
      (auto simp: Let_def posts_something try_inject_def split: option.splits if_splits)
qed

lemma PostRecv_refines:
  assumes "ctx_safe E w" and "ready w (rr_Context rq)" and "go_array w (rr_Buffer rq)"
  shows "posted E (rr_Context rq) w (PostRecv E ep (Some rq) w)"
  unfolding PostRecv_def option.case
proof (rule posted_handle, rule posted_fresh [OF assms(1,2)], goal_cases)
  case (1 p c v)
  let ?m = "\<lambda>b d n w. capi_Recv E p b n d (recv_source (rr_Source rq)) (Pointer c w)"
  have s: "go_array v (rr_Buffer rq)" using 1(4) assms(3) by simp
  note region_back_ok [OF 1(1,2) s refl, of ?m]
    staged_recv_ok [OF 1(1,2) s, of "\<lambda>b. ?m b NULL (sl_len (rr_Buffer rq))"]
    finish_call [OF 1(1), of "?m NULL NULL 0 v" c] posts.fail_ok [OF 1(1), of c]
  then show ?case by (cases "0 < sl_len (rr_Buffer rq)") (simp_all add: Let_def split: option.split)
next
  case (2 p c v v')
  then show ?case by (auto simp: Let_def posts_something split: option.splits if_splits)
qed

lemma PostTaggedSend_refines:
  assumes "ctx_safe E w" and "ready w (ts_Context rq)" and "go_slice w (ts_Buffer rq)"
  shows "posted E (ts_Context rq) w (PostTaggedSend E ep (Some rq) w)"
  unfolding PostTaggedSend_def option.case
proof (rule posted_handle, rule posted_unless, rule posted_fresh [OF assms(1,2)], goal_cases)
  case (1 p c v)
  let ?m = "\<lambda>b n w. capi_TSend E p b n NULL (ts_Dest rq) (ts_Tag rq) (Pointer c w)"
  have s: "go_slice v (ts_Buffer rq)" using 1(4) assms(3) by simp
  note staged_send_ok [OF 1(2,3) s, of "\<lambda>b. ?m b (sl_len (ts_Buffer rq))"]
    finish_call [OF 1(2), of "?m NULL 0 v" c]
  then show ?case by (simp add: Let_def)
next
  case (2 p c v v')
  then show ?case by (auto simp: Let_def posts_something split: if_splits)
qed

lemma PostTaggedRecv_refines:
  assumes "ctx_safe E w" and "ready w (tr_Context rq)" and "go_array w (tr_Buffer rq)"
  shows "posted E (tr_Context rq) w (PostTaggedRecv E ep (Some rq) w)"
  unfolding PostTaggedRecv_def option.case
proof (rule posted_handle, rule posted_unless, rule posted_fresh [OF assms(1,2)], goal_cases)
  case (1 p c v)
  let ?m = "\<lambda>b n w. capi_TRecv E p b n NULL (recv_source (tr_Source rq)) (tr_Tag rq) (tr_Ignore rq) (Pointer c w)"
  have s: "go_array v (tr_Buffer rq)" using 1(5) assms(3) by simp
  note staged_recv_ok [OF 1(2,3) s, of "\<lambda>b. ?m b (sl_len (tr_Buffer rq))"]
    finish_call [OF 1(2), of "?m NULL 0 v" c]
  then show ?case by (simp add: Let_def)
next
  case (2 p c v v')
  then show ?case by (auto simp: Let_def posts_something split: if_splits)
qed

lemma PostRead_refines:
  assumes "ctx_safe E w" and "ready w (rq_Context rq)" and "go_array w (rq_Buffer rq)"
  shows "posted E (rq_Context rq) w (PostRead E ep (Some rq) w)"
  unfolding PostRead_def option.case
proof (rule posted_handle, rule posted_fresh [OF assms(1,2)], goal_cases)
  case (1 p c v)
  let ?m = "\<lambda>b d n w. capi_Read E p b n d (rq_Address rq) (rq_Key rq) (rq_Offset rq) (Pointer c w)"
  have s: "go_array v (rq_Buffer rq)" using 1(4) assms(3) by simp
  note region_back_ok [OF 1(1,2) s refl, of ?m]
    staged_recv_ok [OF 1(1,2) s, of "\<lambda>b. ?m b NULL (sl_len (rq_Buffer rq))"]
    finish_call [OF 1(1), of "?m NULL NULL 0 v" c] posts.fail_ok [OF 1(1), of c]
  then show ?case by (cases "0 < sl_len (rq_Buffer rq)") (simp_all add: Let_def split: option.split)
next
  case (2 p c v v')
  then show ?case by (auto simp: Let_def posts_something split: option.splits if_splits)
qed

lemma PostWrite_refines:
  assumes "ctx_safe E w" and "ready w (rq_Context rq)" and "rq_Region rq = None \<longrightarrow> go_slice w (rq_Buffer rq)"
  shows "posted E (rq_Context rq) w (PostWrite E ep (Some rq) w)"
  unfolding PostWrite_def option.case
proof (rule posted_handle, rule posted_fresh [OF assms(1,2)], goal_cases)
  case (1 p c v)
  let ?m = "\<lambda>b d n w. capi_Write E p b n d (rq_Address rq) (rq_Key rq) (rq_Offset rq) (Pointer c w)"
  have s: "rq_Region rq = None \<Longrightarrow> go_slice v (rq_Buffer rq)" using 1(3) assms(3) by simp
  note region_post_ok [OF 1(1,2), of ?m] s
    staged_send_ok [OF 1(1,2), of "rq_Buffer rq" "\<lambda>b. ?m b NULL (sl_len (rq_Buffer rq))"]
    finish_call [OF 1(1), of "?m NULL NULL 0 v" c] posts.fail_ok [OF 1(1), of c]
  then show ?case by (simp add: Let_def split: option.split)
next
  case (2 p c v v')
  then show ?case by (auto simp: Let_def posts_something split: option.splits if_splits)
qed

end
