(* ===== verification/Delivery.thy ===== *)
theory Delivery
  imports Posting
begin

text \<open>
  What the posting functions promise, stated once for all six: the requests as one datatype, the
  bytes the provider is handed, and what a completion delivers to the caller.
\<close>

section \<open>One type of requests\<close>

datatype post_op =
    OpSend SendRequest
  | OpRecv RecvRequest
  | OpTaggedSend TaggedSendRequest
  | OpTaggedRecv TaggedRecvRequest
  | OpRead RMARequest
  | OpWrite RMARequest

fun post :: "'p cenv \<Rightarrow> endpoint \<Rightarrow> post_op \<Rightarrow> 'p world \<Rightarrow> nat option result \<times> 'p world" where
  "post E ep (OpSend r) = PostSend E ep (Some r)"
| "post E ep (OpRecv r) = PostRecv E ep (Some r)"
| "post E ep (OpTaggedSend r) = PostTaggedSend E ep (Some r)"
| "post E ep (OpTaggedRecv r) = PostTaggedRecv E ep (Some r)"
| "post E ep (OpRead r) = PostRead E ep (Some r)"
| "post E ep (OpWrite r) = PostWrite E ep (Some r)"

fun op_context :: "post_op \<Rightarrow> nat option" where
  "op_context (OpSend r) = sr_Context r"
| "op_context (OpRecv r) = rr_Context r"
| "op_context (OpTaggedSend r) = ts_Context r"
| "op_context (OpTaggedRecv r) = tr_Context r"
| "op_context (OpRead r) = rq_Context r"
| "op_context (OpWrite r) = rq_Context r"

fun op_buffer :: "post_op \<Rightarrow> slice" where
  "op_buffer (OpSend r) = sr_Buffer r"
| "op_buffer (OpRecv r) = rr_Buffer r"
| "op_buffer (OpTaggedSend r) = ts_Buffer r"
| "op_buffer (OpTaggedRecv r) = tr_Buffer r"
| "op_buffer (OpRead r) = rq_Buffer r"
| "op_buffer (OpWrite r) = rq_Buffer r"

fun op_region :: "post_op \<Rightarrow> nat option" where
  "op_region (OpSend r) = sr_Region r"
| "op_region (OpRecv r) = rr_Region r"
| "op_region (OpRead r) = rq_Region r"
| "op_region (OpWrite r) = rq_Region r"
| "op_region _ = None"

fun receives :: "post_op \<Rightarrow> bool" where
  "receives (OpRecv r) = True"
| "receives (OpTaggedRecv r) = True"
| "receives (OpRead r) = True"
| "receives _ = False"

text \<open>The call a request makes: endpoint, buffer, length, descriptor, context.\<close>

fun op_call :: "post_op \<Rightarrow> ptr \<Rightarrow> ptr \<Rightarrow> nat \<Rightarrow> ptr \<Rightarrow> ptr \<Rightarrow> call" where
  "op_call (OpSend r) p b n d c = C_send p b n d (sr_Dest r) c"
| "op_call (OpRecv r) p b n d c = C_recv p b n d (recv_source (rr_Source r)) c"
| "op_call (OpTaggedSend r) p b n d c = C_tsend p b n d (ts_Dest r) (ts_Tag r) c"
| "op_call (OpTaggedRecv r) p b n d c = C_trecv p b n d (recv_source (tr_Source r)) (tr_Tag r) (tr_Ignore r) c"
| "op_call (OpRead r) p b n d c = C_read p b n d (rq_Address r) (rq_Offset r) (rq_Key r) c"
| "op_call (OpWrite r) p b n d c = C_write p b n d (rq_Address r) (rq_Offset r) (rq_Key r) c"

text \<open>
  The caller's buffer is Go memory that is really there. A send on a registered region does not read
  the buffer its request names, only the region, so nothing is asked of it.
\<close>

definition op_valid :: "'p world \<Rightarrow> post_op \<Rightarrow> bool" where
  "op_valid w op \<longleftrightarrow> (if receives op then go_array w (op_buffer op)
     else op_region op = None \<longrightarrow> go_slice w (op_buffer op))"

lemma post_refines_all:
  assumes "ctx_safe E w" and "ready w (op_context op)" and "op_valid w op"
  shows "posted E (op_context op) w (post E ep op w)"
  using assms PostSend_refines PostRecv_refines PostTaggedSend_refines PostTaggedRecv_refines
    PostRead_refines PostWrite_refines
  by (cases op) (simp_all add: op_valid_def)

section \<open>What the provider is handed\<close>

text \<open>
  \<open>handed\<close>: the world \<open>w'\<close> is the answer to the call \<open>mk b x\<close>, made for context \<open>c\<close> with context
  pointer \<open>x\<close> and staging buffer \<open>b\<close>; a receive has the copy-back to \<open>s\<close> pending, a send has the
  bytes of \<open>s\<close> in the staging buffer.
\<close>

definition handed ::
  "'p cenv \<Rightarrow> (ptr \<Rightarrow> ptr \<Rightarrow> call) \<Rightarrow> slice \<Rightarrow> bool \<Rightarrow> nat \<Rightarrow> 'p world \<Rightarrow> 'p world \<Rightarrow> bool" where
  "handed E mk s back c w w' \<longleftrightarrow>
     (\<exists>v x. w' = snd (ccall E (mk (cc_buffer x) (cc_ptr x)) v) \<and> ctx_safe E v \<and> gomem v = gomem w \<and>
        ctxs v c = Some x \<and> \<not> cc_closed x \<and> cc_buffer x \<noteq> NULL \<and> sl_len s \<le> cc_bufCap x \<and>
        cc_copyBack x = (if back then Some s else None) \<and>
        (back \<or> (\<exists>bs. contents v (cc_buffer x) = Some bs \<and> take (sl_len s) bs = slice_bytes s v)))"

lemma guarded_None:
  "guarded E p k op w = (None, w') \<Longrightarrow> w' = snd (ccall E k w)"
  by (auto simp: guarded_def status_call_def split: if_splits prod.splits)

lemma finish_Some:
  "finish_post rel c m w = (Inr (Some d), w') \<longleftrightarrow> d = c \<and> m w = (None, w')"
  by (auto simp: finish_post_def split: prod.split option.split)

lemma gomem_new: "NewCompletionContext E w = (r, v) \<Longrightarrow> gomem v = gomem w"
  by (auto simp: NewCompletionContext_def CompletionContextAlloc_def Let_def split: if_splits prod.splits
      dest: arg_cong [where f = "\<lambda>x. gomem (snd x)"])

lemma ensured:
  assumes safe: "ctx_safe E w" and rd: "ready w ctx"
    and t: "try_act (ensureContext E ctx) (\<lambda>e w. (Inl e, w)) k w = (Inr (Some c), w')"
  obtains d v where "ctx_safe E v" "unused v d" "gomem v = gomem w" "k d v = (Inr (Some c), w')"
proof (cases ctx)
  case (Some d)
  with rd t have "unused w d" "k d w = (Inr (Some c), w')"
    by (auto simp: ready_def ensureContext_def try_act_def split: if_splits)
  with safe show ?thesis by (intro that) simp_all
next
  case None
  obtain r v where n: "NewCompletionContext E w = (r, v)" by fastforce
  have m: "malloc_spec E" using safe by (simp add: ctx_safe_def)
  from None t n obtain d where r: "r = Inr d" and k: "k d v = (Inr (Some c), w')"
    by (auto simp: ensureContext_def try_act_def split: sum.splits)
  have "ctx_safe E v" using safe.keeps [OF safe st_new] n by (metis snd_conv)
  moreover from n m r have "unused v d"
    by (cases rule: NewCompletionContext_cases) (auto simp: unused_def cc_new_def)
  ultimately show ?thesis using k gomem_new [OF n] by (intro that)
qed

text \<open>The staged shapes: the context of the buffer, and what \<open>prep\<close> did before the call.\<close>

lemma stage_Some:
  assumes safe: "ctx_safe E w" and un: "unused w c" and n: "0 < n"
    and st: "stage Release c (ensureBuffer E c n) k w = (Inr (Some d), w')"
  obtains b v x where "ctx_safe E v" "ctxs v c = Some x" "cc_buffer x = b" "b \<noteq> NULL" "n \<le> cc_bufCap x"
    "\<not> cc_closed x" "cc_copyBack x = None" "gomem v = gomem w" "k b v = (Inr (Some d), w')"
proof -
  from st obtain b v where eb: "ensureBuffer E c n w = (Inr b, v)" and k: "k b v = (Inr (Some d), w')"
    by (auto simp: stage_def try_act_def split: prod.splits sum.splits)
  have "gomem (snd (ensureBuffer E c n w)) = gomem w"
    by (simp add: ensureBuffer_def Let_def split_beta AllocBytes_def split: option.split)
  with eb have g: "gomem v = gomem w" by simp
  from ensureBuffer_post(3) [OF safe un n eb refl] obtain x where
    "ctxs v c = Some x" "cc_buffer x = b" "b \<noteq> NULL" "n \<le> cc_bufCap x" "\<not> cc_closed x" "cc_copyBack x = None"
    by blast
  moreover have "ctx_safe E v" by (rule posts.run_inv [OF safe ensureBuffer_post(1) [OF safe un n eb]])
  ultimately show ?thesis using k g by (intro that)
qed

lemma staged_send_handed:
  assumes safe: "ctx_safe E w" and un: "unused w c" and s: "go_slice w s" "0 < sl_len s"
    and st: "stage Release c (ensureBuffer E c (sl_len s))
      (\<lambda>b w. finish_post Release c
         (guarded E p (mk b (Pointer c (Memcpy (CMem b) (sl_loc s) (sl_len s) w))) op)
         (Memcpy (CMem b) (sl_loc s) (sl_len s) w)) w = (Inr (Some d), w')"
  shows "d = c \<and> handed E mk s False c w w'"
  using safe un s(2) st
proof (cases rule: stage_Some)
  case (1 b v x)
  let ?u = "Memcpy (CMem b) (sl_loc s) (sl_len s) v"
  from 1 have inv: "ctx_inv v" by (simp add: ctx_safe_def)
  have gs: "go_slice v s" using s(1) 1(8) by (cases "sl_loc s") (simp_all add: go_slice_def)
  have fr: "call_frame v ?u"
    using copy_in_frame [OF inv 1(2,6,3,4,5) gs refl] .
  have mem: "shape v b = Some (OBuf c, cc_bufCap x)"
    using ctx_inv_open(1) [OF inv 1(2,6)] 1(3,4) by (simp add: ctx_mem_def)
  then obtain bl where bl: "heap v b = Some bl" "length (blk_bytes bl) = cc_bufCap x"
    by (auto simp: shape_Some_iff)
  obtain src where src: "load (sl_loc s) v = Some src" "sl_len s \<le> length src" "sl_loc s \<noteq> CMem NULL"
    using gs s(2) by (auto simp: go_slice_def load_def split: loc.splits)
  have u: "?u = v\<lparr>heap := (heap v)(b \<mapsto> bl\<lparr>blk_bytes := take (sl_len s) src @ drop (sl_len s) (blk_bytes bl)\<rparr>)\<rparr>"
    using s(2) 1(4,5) bl src by (simp add: Memcpy_def load_def store_def)
  have "contents ?u b = Some (take (sl_len s) src @ drop (sl_len s) (blk_bytes bl))"
    by (simp add: u contents_def)
  moreover have "slice_bytes s ?u = take (sl_len s) src"
    using src gs s(2) by (auto simp: slice_bytes_def load_def u go_slice_def split: loc.splits)
  moreover have "d = c" "w' = snd (ccall E (mk b (Pointer c ?u)) ?u)"
    using 1(9) by (auto simp: finish_Some dest: guarded_None)
  moreover have "Pointer c ?u = cc_ptr x" using 1(2) by (simp add: Pointer_def)
  moreover have "gomem ?u = gomem v" by (simp add: u)
  ultimately show ?thesis
    unfolding handed_def using posts.run_inv [OF 1(1) frame_run [OF fr]] 1(2-8) src(2)
    by (intro conjI exI [of _ ?u] exI [of _ x]) simp_all
qed

lemma staged_recv_handed:
  assumes safe: "ctx_safe E w" and un: "unused w c" and s: "go_array w s" "0 < sl_len s"
    and st: "stage Release c (ensureBuffer E c (sl_len s))
      (\<lambda>b w. finish_post Release c (guarded E p (mk b (Pointer c (setCopyBack c s w))) op) (setCopyBack c s w)) w =
      (Inr (Some d), w')"
  shows "d = c \<and> handed E mk s True c w w'"
  using safe un s(2) st
proof (cases rule: stage_Some)
  case (1 b v x)
  let ?u = "setCopyBack c s v"
  have "go_array v s" using s(1) 1(8) by (simp add: go_array_def)
  then have "ctx_safe E ?u"
    using 1(2,5) s(2) by (intro posts.run_inv [OF 1(1) copy_back_run(1)]) auto
  moreover have "d = c" "w' = snd (ccall E (mk b (Pointer c ?u)) ?u)"
    using 1(9) by (auto simp: finish_Some dest: guarded_None)
  moreover have "Pointer c ?u = cc_ptr x" "ctxs ?u c = Some (x\<lparr>cc_copyBack := Some s\<rparr>)" "gomem ?u = gomem v"
    using 1(2) by (simp_all add: Pointer_def setCopyBack_def ctxs_upd_ctx)
  ultimately show ?thesis
    using 1 by (auto simp: handed_def intro!: exI [of _ ?u] exI [of _ "x\<lparr>cc_copyBack := Some s\<rparr>"])
qed

text \<open>Every staged post hands the provider its context and its staging buffer.\<close>

lemma try_inject_gomem: "gomem (snd (try_inject E ep p rq w)) = gomem w"
  by (simp add: try_inject_def split_beta capi_Inject_def guarded_def)

lemma go_slice_gomem:
  "gomem v = gomem w \<Longrightarrow> go_slice v s = go_slice w s" "gomem v = gomem w \<Longrightarrow> go_array v s = go_array w s"
  by (cases "sl_loc s"; simp add: go_slice_def go_array_def)+

lemma handed_from: "handed E mk s back c v w' \<Longrightarrow> gomem v = gomem w \<Longrightarrow> handed E mk s back c w w'"
  by (simp add: handed_def)

lemma with_handle_Inr:
  "with_handle r Inl e f w = (Inr a, w') \<longleftrightarrow> (\<exists>k p. handles w r = Some (k, p) \<and> f p w = (Inr a, w'))"
  by (auto simp: with_handle_def split: option.split)

lemma posted_via:
  assumes "ctx_safe E w" and "ready w ctx"
    and "with_handle r Inl e (\<lambda>p w. try_act (ensureContext E ctx) (\<lambda>e w. (Inl e, w)) (k p) w) w = (Inr (Some c), w')"
  obtains p d v where "ctx_safe E v" "unused v d" "gomem v = gomem w" "k p d v = (Inr (Some c), w')"
proof -
  from assms(3) obtain p where "try_act (ensureContext E ctx) (\<lambda>e w. (Inl e, w)) (k p) w = (Inr (Some c), w')"
    by (auto simp: with_handle_Inr)
  from ensured [OF assms(1,2) this] that show thesis by blast
qed

lemma posted_via_tagged:
  assumes "ctx_safe E w" and "ready w ctx"
    and "with_handle r Inl e (\<lambda>p w. if \<not> b then (Inl e', w)
      else try_act (ensureContext E ctx) (\<lambda>e w. (Inl e, w)) (k p) w) w = (Inr (Some c), w')"
  obtains p d v where "ctx_safe E v" "unused v d" "gomem v = gomem w" "k p d v = (Inr (Some c), w')"
proof (cases b)
  case True
  with assms(3) that show thesis by (auto intro: posted_via [OF assms(1,2)])
next
  case False
  with assms(3) show thesis by (simp add: with_handle_Inr)
qed

lemma inject_Some:
  assumes "(case try_inject E ep p r v of (True, w1) \<Rightarrow> (Inr None, f w1) | (False, w1) \<Rightarrow> g w1) = (Inr (Some c), w')"
  shows "g (snd (try_inject E ep p r v)) = (Inr (Some c), w')"
  using assms by (cases "try_inject E ep p r v"; cases "fst (try_inject E ep p r v)") simp_all

lemma staged_PostSend:
  assumes "ctx_safe E w" and "ready w (sr_Context r)" and "go_slice w (sr_Buffer r)"
    and "sr_Region r = None" and "0 < sl_len (sr_Buffer r)" and ps: "PostSend E ep (Some r) w = (Inr (Some c), w')"
  shows "\<exists>p. handed E (\<lambda>b x. C_send p b (sl_len (sr_Buffer r)) NULL (sr_Dest r) x) (sr_Buffer r) False c w w'"
  using assms(1,2) ps [unfolded PostSend_def option.case]
proof (cases rule: posted_via)
  case (1 p d v)
  let ?u = "snd (try_inject E ep p r v)" and ?n = "sl_len (sr_Buffer r)"
  note fr = try_inject_frame [of v E ep p r]
  have u: "ctx_safe E ?u" "unused ?u d" "go_slice ?u (sr_Buffer r)" "gomem ?u = gomem w"
    using posts.run_inv [OF 1(1) frame_run [OF fr]] unused_frame [OF fr] 1(2,3) assms(3)
    by (simp_all add: try_inject_gomem go_slice_gomem(1) [of ?u w])
  have "stage Release d (ensureBuffer E d ?n)
      (\<lambda>b w. finish_post Release d
         (guarded E p (C_send p b ?n NULL (sr_Dest r) (Pointer d (Memcpy (CMem b) (sl_loc (sr_Buffer r)) ?n w))) ''fi_send'')
         (Memcpy (CMem b) (sl_loc (sr_Buffer r)) ?n w)) ?u = (Inr (Some c), w')"
    using inject_Some [OF 1(4)] assms(4,5) by (simp add: Let_def capi_Send_def)
  from staged_send_handed [OF u(1-3) assms(5) this] u(4) show ?thesis
    by (intro exI [of _ p]) (auto intro: handed_from)
qed

lemma staged_PostRecv:
  assumes "ctx_safe E w" and "ready w (rr_Context r)" and "go_array w (rr_Buffer r)"
    and "rr_Region r = None" and "0 < sl_len (rr_Buffer r)" and ps: "PostRecv E ep (Some r) w = (Inr (Some c), w')"
  shows "\<exists>p. handed E (\<lambda>b x. C_recv p b (sl_len (rr_Buffer r)) NULL (recv_source (rr_Source r)) x) (rr_Buffer r) True c w w'"
  using assms(1,2) ps [unfolded PostRecv_def option.case]
proof (cases rule: posted_via)
  case (1 p d v)
  let ?n = "sl_len (rr_Buffer r)"
  have s: "go_array v (rr_Buffer r)" using assms(3) 1(3) by (simp add: go_slice_gomem [of v w])
  have "stage Release d (ensureBuffer E d ?n)
      (\<lambda>b w. finish_post Release d
         (guarded E p (C_recv p b ?n NULL (recv_source (rr_Source r)) (Pointer d (setCopyBack d (rr_Buffer r) w))) ''fi_recv'')
         (setCopyBack d (rr_Buffer r) w)) v = (Inr (Some c), w')"
    using 1(4) assms(4,5) by (simp add: Let_def capi_Recv_def)
  from staged_recv_handed [OF 1(1,2) s assms(5) this] 1(3) show ?thesis
    by (intro exI [of _ p]) (auto intro: handed_from)
qed

lemma staged_PostTaggedSend:
  assumes "ctx_safe E w" and "ready w (ts_Context r)" and "go_slice w (ts_Buffer r)"
    and "0 < sl_len (ts_Buffer r)" and ps: "PostTaggedSend E ep (Some r) w = (Inr (Some c), w')"
  shows "\<exists>p. handed E (\<lambda>b x. C_tsend p b (sl_len (ts_Buffer r)) NULL (ts_Dest r) (ts_Tag r) x) (ts_Buffer r) False c w w'"
  using assms(1,2) ps [unfolded PostTaggedSend_def option.case]
proof (cases rule: posted_via_tagged)
  case (1 p d v)
  let ?n = "sl_len (ts_Buffer r)"
  have s: "go_slice v (ts_Buffer r)" using assms(3) 1(3) by (simp add: go_slice_gomem [of v w])
  have "stage Release d (ensureBuffer E d ?n)
      (\<lambda>b w. finish_post Release d
         (guarded E p (C_tsend p b ?n NULL (ts_Dest r) (ts_Tag r) (Pointer d (Memcpy (CMem b) (sl_loc (ts_Buffer r)) ?n w))) ''fi_tsend'')
         (Memcpy (CMem b) (sl_loc (ts_Buffer r)) ?n w)) v = (Inr (Some c), w')"
    using 1(4) assms(4) by (simp add: Let_def capi_TSend_def)
  from staged_send_handed [OF 1(1,2) s assms(4) this] 1(3) show ?thesis
    by (intro exI [of _ p]) (auto intro: handed_from)
qed

lemma staged_PostTaggedRecv:
  assumes "ctx_safe E w" and "ready w (tr_Context r)" and "go_array w (tr_Buffer r)"
    and "0 < sl_len (tr_Buffer r)" and ps: "PostTaggedRecv E ep (Some r) w = (Inr (Some c), w')"
  shows "\<exists>p. handed E (\<lambda>b x. C_trecv p b (sl_len (tr_Buffer r)) NULL (recv_source (tr_Source r)) (tr_Tag r) (tr_Ignore r) x) (tr_Buffer r) True c w w'"
  using assms(1,2) ps [unfolded PostTaggedRecv_def option.case]
proof (cases rule: posted_via_tagged)
  case (1 p d v)
  let ?n = "sl_len (tr_Buffer r)"
  have s: "go_array v (tr_Buffer r)" using assms(3) 1(3) by (simp add: go_slice_gomem [of v w])
  have "stage Release d (ensureBuffer E d ?n)
      (\<lambda>b w. finish_post Release d
         (guarded E p (C_trecv p b ?n NULL (recv_source (tr_Source r)) (tr_Tag r) (tr_Ignore r) (Pointer d (setCopyBack d (tr_Buffer r) w))) ''fi_trecv'')
         (setCopyBack d (tr_Buffer r) w)) v = (Inr (Some c), w')"
    using 1(4) assms(4) by (simp add: Let_def capi_TRecv_def)
  from staged_recv_handed [OF 1(1,2) s assms(4) this] 1(3) show ?thesis
    by (intro exI [of _ p]) (auto intro: handed_from)
qed

lemma staged_PostRead:
  assumes "ctx_safe E w" and "ready w (rq_Context r)" and "go_array w (rq_Buffer r)"
    and "rq_Region r = None" and "0 < sl_len (rq_Buffer r)" and ps: "PostRead E ep (Some r) w = (Inr (Some c), w')"
  shows "\<exists>p. handed E (\<lambda>b x. C_read p b (sl_len (rq_Buffer r)) NULL (rq_Address r) (rq_Offset r) (rq_Key r) x) (rq_Buffer r) True c w w'"
  using assms(1,2) ps [unfolded PostRead_def option.case]
proof (cases rule: posted_via)
  case (1 p d v)
  let ?n = "sl_len (rq_Buffer r)"
  have s: "go_array v (rq_Buffer r)" using assms(3) 1(3) by (simp add: go_slice_gomem [of v w])
  have "stage Release d (ensureBuffer E d ?n)
      (\<lambda>b w. finish_post Release d
         (guarded E p (C_read p b ?n NULL (rq_Address r) (rq_Offset r) (rq_Key r) (Pointer d (setCopyBack d (rq_Buffer r) w))) ''fi_read'')
         (setCopyBack d (rq_Buffer r) w)) v = (Inr (Some c), w')"
    using 1(4) assms(4,5) by (simp add: Let_def capi_Read_def)
  from staged_recv_handed [OF 1(1,2) s assms(5) this] 1(3) show ?thesis
    by (intro exI [of _ p]) (auto intro: handed_from)
qed

lemma staged_PostWrite:
  assumes "ctx_safe E w" and "ready w (rq_Context r)" and "go_slice w (rq_Buffer r)"
    and "rq_Region r = None" and "0 < sl_len (rq_Buffer r)" and ps: "PostWrite E ep (Some r) w = (Inr (Some c), w')"
  shows "\<exists>p. handed E (\<lambda>b x. C_write p b (sl_len (rq_Buffer r)) NULL (rq_Address r) (rq_Offset r) (rq_Key r) x) (rq_Buffer r) False c w w'"
  using assms(1,2) ps [unfolded PostWrite_def option.case]
proof (cases rule: posted_via)
  case (1 p d v)
  let ?n = "sl_len (rq_Buffer r)"
  have s: "go_slice v (rq_Buffer r)" using assms(3) 1(3) by (simp add: go_slice_gomem [of v w])
  have "stage Release d (ensureBuffer E d ?n)
      (\<lambda>b w. finish_post Release d
         (guarded E p (C_write p b ?n NULL (rq_Address r) (rq_Offset r) (rq_Key r) (Pointer d (Memcpy (CMem b) (sl_loc (rq_Buffer r)) ?n w))) ''fi_write'')
         (Memcpy (CMem b) (sl_loc (rq_Buffer r)) ?n w)) v = (Inr (Some c), w')"
    using 1(4) assms(4,5) by (simp add: Let_def capi_Write_def)
  from staged_send_handed [OF 1(1,2) s assms(5) this] 1(3) show ?thesis
    by (intro exI [of _ p]) (auto intro: handed_from)
qed

lemma staged_post:
  assumes "ctx_safe E w" and "ready w (op_context op)" and "op_valid w op"
    and "op_region op = None" and "0 < sl_len (op_buffer op)"
    and "post E ep op w = (Inr (Some c), w')"
  shows "\<exists>p. handed E (\<lambda>b x. op_call op p b (sl_len (op_buffer op)) NULL x) (op_buffer op) (receives op) c w w'"
  using assms staged_PostSend staged_PostRecv staged_PostTaggedSend staged_PostTaggedRecv staged_PostRead staged_PostWrite
  by (cases op) (simp_all add: op_valid_def)

section \<open>Registered regions\<close>

text \<open>A post on a region leaves its context without a staging buffer.\<close>

definition bufferless :: "'p world \<Rightarrow> nat \<Rightarrow> bool" where
  "bufferless w c \<longleftrightarrow> (\<exists>x. ctxs w c = Some x \<and> \<not> cc_closed x \<and> cc_buffer x = NULL)"

lemma bufferless_intros:
  "unused w c \<Longrightarrow> bufferless w c" "unused w c \<Longrightarrow> bufferless (setCopyBack c s w) c"
  "unused w c \<Longrightarrow> bufferless (if b then setCopyBack c s w else w) c"
  by (auto simp: unused_def bufferless_def setCopyBack_def ctxs_upd_ctx)

lemma region_bufferless:
  assumes un: "unused w c" and g: "\<And>v. unused v c \<Longrightarrow> bufferless (g v) c"
    and st: "use_region E c r len msg
      (\<lambda>b d n w. finish_post Release c (guarded E p (mk b d n (Pointer c (g w))) op) (g w)) w = (Inr (Some d), w')"
  shows "d = c \<and> bufferless w' c"
proof -
  let ?v = "snd (region_Descriptor E r w)"
  have un': "unused ?v c" using un unused_frame [OF Descriptor_frame] by blast
  from st obtain b ds n where "finish_post Release c (guarded E p (mk b ds n (Pointer c (g ?v))) op) (g ?v) = (Inr (Some d), w')"
    by (auto simp: use_region_def Let_def split_beta split: option.splits if_splits)
  then have "d = c" "w' = snd (ccall E (mk b ds n (Pointer c (g ?v))) (g ?v))"
    by (auto simp: finish_Some dest: guarded_None)
  with g [OF un'] show ?thesis by (auto simp: bufferless_def)
qed

lemma region_post:
  assumes "ctx_safe E w" and "ready w (op_context op)" and rg: "op_region op = Some rg"
    and ps: "post E ep op w = (Inr (Some c), w')"
  shows "bufferless w' c"
proof (cases op)
  case (OpSend r)
  from assms(1,2) [unfolded OpSend op_context.simps] ps [unfolded OpSend post.simps PostSend_def option.case]
  show ?thesis
  proof (cases rule: posted_via)
    case (1 p d v)
    have un: "unused (snd (try_inject E ep p r v)) d"
      using 1(2) unused_frame [OF try_inject_frame] by blast
    have "use_region E d rg (sl_len (sr_Buffer r)) ''libfabric: send length exceeds registered region''
        (\<lambda>b ds n w. finish_post Release d (guarded E p (C_send p b n ds (sr_Dest r) (Pointer d w)) ''fi_send'') w)
        (snd (try_inject E ep p r v)) = (Inr (Some c), w')"
      using inject_Some [OF 1(4)] rg OpSend by (simp add: Let_def capi_Send_def)
    from region_bufferless [where g = "\<lambda>w. w", OF un bufferless_intros(1) this] show ?thesis by simp
  qed
next
  case (OpRecv r)
  from assms(1,2) [unfolded OpRecv op_context.simps] ps [unfolded OpRecv post.simps PostRecv_def option.case]
  show ?thesis
  proof (cases rule: posted_via)
    case (1 p d v)
    have "use_region E d rg (sl_len (rr_Buffer r)) ''libfabric: recv length exceeds registered region''
        (\<lambda>b ds n w. finish_post Release d
           (guarded E p (C_recv p b n ds (recv_source (rr_Source r)) (Pointer d (if 0 < sl_len (rr_Buffer r) then setCopyBack d (rr_Buffer r) w else w))) ''fi_recv'') (if 0 < sl_len (rr_Buffer r) then setCopyBack d (rr_Buffer r) w else w))
        v = (Inr (Some c), w')"
      using 1(4) rg OpRecv by (simp add: Let_def capi_Recv_def)
    from region_bufferless [where g = "\<lambda>w. (if 0 < sl_len (rr_Buffer r) then setCopyBack d (rr_Buffer r) w else w)", OF 1(2) bufferless_intros(3) this] show ?thesis by simp
  qed
next
  case (OpRead r)
  from assms(1,2) [unfolded OpRead op_context.simps] ps [unfolded OpRead post.simps PostRead_def option.case]
  show ?thesis
  proof (cases rule: posted_via)
    case (1 p d v)
    have "use_region E d rg (sl_len (rq_Buffer r)) ''libfabric: read length exceeds registered region''
        (\<lambda>b ds n w. finish_post Release d
           (guarded E p (C_read p b n ds (rq_Address r) (rq_Offset r) (rq_Key r) (Pointer d (if 0 < sl_len (rq_Buffer r) then setCopyBack d (rq_Buffer r) w else w))) ''fi_read'') (if 0 < sl_len (rq_Buffer r) then setCopyBack d (rq_Buffer r) w else w))
        v = (Inr (Some c), w')"
      using 1(4) rg OpRead by (simp add: Let_def capi_Read_def)
    from region_bufferless [where g = "\<lambda>w. (if 0 < sl_len (rq_Buffer r) then setCopyBack d (rq_Buffer r) w else w)", OF 1(2) bufferless_intros(3) this] show ?thesis by simp
  qed
next
  case (OpWrite r)
  from assms(1,2) [unfolded OpWrite op_context.simps] ps [unfolded OpWrite post.simps PostWrite_def option.case]
  show ?thesis
  proof (cases rule: posted_via)
    case (1 p d v)
    have "use_region E d rg (sl_len (rq_Buffer r)) ''libfabric: write length exceeds registered region''
        (\<lambda>b ds n w. finish_post Release d
           (guarded E p (C_write p b n ds (rq_Address r) (rq_Offset r) (rq_Key r) (Pointer d w)) ''fi_write'') w)
        v = (Inr (Some c), w')"
      using 1(4) rg OpWrite by (simp add: Let_def capi_Write_def)
    from region_bufferless [where g = "\<lambda>w. w", OF 1(2) bufferless_intros(1) this] show ?thesis by simp
  qed
qed (use rg in simp_all)

text \<open>Resolving a context without a staging buffer copies nothing.\<close>

lemma resolve_bufferless:
  assumes "ctx_safe E w" and "bufferless w c"
  shows "gomem (snd (resolveCompletion (Pointer c w) w)) = gomem w"
proof -
  from assms(2) obtain x where x: "ctxs w c = Some x" "\<not> cc_closed x" "cc_buffer x = NULL"
    by (auto simp: bufferless_def)
  have "registry w (cc_ptr x) = Some c"
    using ctx_inv_open(2) [OF _ x(1,2)] assms(1) by (simp add: ctx_safe_def)
  with x show ?thesis
    by (simp add: resolveCompletion_def Pointer_def release_ctx_def Let_def split: option.split)
qed

lemma post_safe:
  assumes "ctx_safe E w" and "ready w (op_context op)" and "op_valid w op"
    and "post E ep op w = (r, w')"
  shows "ctx_safe E w'"
  using posts.run_inv [OF assms(1)] post_refines_all [OF assms(1-3), of ep] assms(4)
  by (auto simp: posted_def)

lemma ctx_safe_ccall: "ctx_safe E w \<Longrightarrow> ctx_safe E (snd (ccall E' k w))"
  using posts.run_inv [OF _ frame_run] call_frame_ccall by blast

section \<open>Properties\<close>




text \<open>
  Claim C33. A receive or RMA read into a registered region delivers nothing to the buffer of the
  request: whatever the provider writes, resolving the completion leaves every Go array as it was,
  although the request asked for the data in its buffer and a copy-back is recorded for it.
\<close>

theorem region_receive_undelivered:
  assumes "ctx_safe E w" and "ready w (op_context op)" and "op_valid w op"
    and "op_region op = Some r" and "post E ep op w = (Inr (Some c), w')" and "w'' = snd (ccall E' k w')"
  shows "gomem (snd (resolveCompletion (Pointer c w') w'')) = gomem w''"
proof -
  have "bufferless w'' c"
    using region_post [OF assms(1,2,4,5)] by (simp add: assms(6) bufferless_def)
  moreover have "ctx_safe E w''"
    using ctx_safe_ccall [OF post_safe [OF assms(1-3,5)]] assms(6) by simp
  moreover have "Pointer c w'' = Pointer c w'" by (simp add: assms(6) Pointer_def)
  ultimately show ?thesis using resolve_bufferless [of E w'' c] by simp
qed

section \<open>Instances\<close>

text \<open>
  An open endpoint (cell 0, native pointer 77) on a library that answers every call with success
  and fills posted buffers with ones; Go array 5 holds six bytes.
\<close>

definition post_env :: "nat cenv" where
  "post_env = \<lparr>hdr = linux_hdr, lib = (\<lambda>c h q. (resp0, \<lambda>p. (case h p of None \<Rightarrow> [] | Some bs \<Rightarrow> replicate (length bs) 1), q)),
     malloc = bump_malloc\<rparr>"

definition post_world :: "nat world" where
  "post_world = world0\<lparr>handles := [0 \<mapsto> (KEndpoint, 77)], next_id := 1, gomem := (\<lambda>_. [1, 2, 3, 4, 5, 6]),
     regions := [3 \<mapsto> \<lparr>mr_handle = Some 9, mr_buffer = 12, mr_length = 8, mr_access = -1,
       mr_descSize = 0, mr_ownsBuf = False\<rparr>]\<rparr>"

definition post_ep :: endpoint where
  "post_ep = \<lparr>ep_ref = 0, ep_injectLimit = 0, ep_supportsTagged = True\<rparr>"

definition demo_send :: post_op where
  "demo_send = OpSend \<lparr>sr_Buffer = \<lparr>sl_loc = GoMem 5, sl_len = 4\<rparr>, sr_Dest = 7, sr_Flags = 0, sr_Context = None, sr_Region = None\<rparr>"

definition demo_recv :: "nat option \<Rightarrow> post_op" where
  "demo_recv r = OpRecv \<lparr>rr_Buffer = \<lparr>sl_loc = GoMem 5, sl_len = 4\<rparr>, rr_Source = 0, rr_Flags = 0, rr_Context = None, rr_Region = r\<rparr>"

lemma post_env_spec [simp]: "malloc_spec post_env" "hdr post_env = linux_hdr"
  by (simp_all add: post_env_def bump_malloc_spec)

lemma post_world_safe [simp]: "ctx_safe post_env post_world"
  by (simp add: ctx_safe_def ctx_inv_def no_leak_def post_world_def world0_def shape_def)

lemma demo_valid [simp]:
  "op_valid post_world demo_send" "op_valid post_world (demo_recv r)" "ready w (op_context demo_send)"
  "ready w (op_context (demo_recv r))" "op_region demo_send = None" "op_region (demo_recv r) = r"
  "op_buffer demo_send = \<lparr>sl_loc = GoMem 5, sl_len = 4\<rparr>" "op_buffer (demo_recv r) = \<lparr>sl_loc = GoMem 5, sl_len = 4\<rparr>"
  "\<not> receives demo_send" "receives (demo_recv r)"
  by (simp_all add: op_valid_def demo_send_def demo_recv_def go_slice_def go_array_def post_world_def ready_def)

lemmas post_eval = post_env_def post_world_def post_ep_def world0_def resp0_def linux_hdr_def bump_malloc_def
  NewCompletionContext_def CompletionContextAlloc_def c_malloc_def cc_new_def ensureContext_def ensureBuffer_def
  AllocBytes_def upd_ctx_def Let_def contents_def PostSend_def PostRecv_def with_handle_def try_act_def stage_def
  finish_post_def guarded_def capi_Send_def capi_Recv_def status_call_def ccall_def Pointer_def setCopyBack_def
  use_region_def ensureRegionAccess_def hasAccess_def region_Descriptor_def capi_MR_Descriptor_def region_Size_def try_inject_def Memcpy_def
  ErrorFromStatus_def demo_send_def demo_recv_def

lemma demo_posts:
  "fst (post post_env post_ep demo_send post_world) = Inr (Some 1)"
  "fst (post post_env post_ep (demo_recv None) post_world) = Inr (Some 1)"
  "fst (post post_env post_ep (demo_recv (Some 3)) post_world) = Inr (Some 1)"
  by code_simp+

lemma demo_pair:
  "post post_env post_ep demo_send post_world = (Inr (Some 1), snd (post post_env post_ep demo_send post_world))"
  "post post_env post_ep (demo_recv None) post_world = (Inr (Some 1), snd (post post_env post_ep (demo_recv None) post_world))"
  "post post_env post_ep (demo_recv (Some 3)) post_world =
     (Inr (Some 1), snd (post post_env post_ep (demo_recv (Some 3)) post_world))"
  by (metis demo_posts prod.collapse)+

text \<open>The world after the receive, and after the provider was asked for completions.\<close>

definition recv_world :: "nat option \<Rightarrow> nat world" where
  "recv_world r = snd (post post_env post_ep (demo_recv r) post_world)"

definition polled :: "nat option \<Rightarrow> nat world" where
  "polled r = snd (ccall post_env (C_cq_read 50) (recv_world r))"

lemma demo_recv_facts:
  "fst (last (calls (recv_world None))) = C_recv 77 2 4 0 (-1) 1"
  "Pointer 1 (recv_world None) = 1"
  "map_option blk_bytes (heap (polled None) 2) = Some [1, 1, 1, 1]"
  by code_simp+




theorem region_receive_undelivered_witness:
  "gomem (snd (resolveCompletion (Pointer 1 (recv_world (Some 3))) (polled (Some 3)))) 5 = [1, 2, 3, 4, 5, 6]"
proof -
  have "gomem (polled (Some 3)) 5 = [1, 2, 3, 4, 5, 6]" by code_simp
  with region_receive_undelivered [OF post_world_safe demo_valid(4,2,6) demo_pair(3) refl, of post_env "C_cq_read 50"]
  show ?thesis by (simp add: recv_world_def polled_def)
qed

end
