(* ===== verification/Waiting.thy ===== *)
theory Waiting
  imports Delivery
begin

text \<open>
  The polling loop of \<open>fi/wait.go\<close> (\<open>waitForCompletion\<close>) and the blocking helpers built on it in
  \<open>fi/messaging.go\<close>, \<open>fi/tagged.go\<close> and \<open>fi/rma.go\<close>.

  The loop has no bound, so it takes fuel and \<open>None\<close> is "still polling". What it observes of the
  outside besides the queue is the record \<open>clock\<close>, indexed by the iteration: whether the caller's
  \<open>context.Context\<close> is done, and whether the deadline has passed.
\<close>

record clock =
  cancelled :: "nat \<Rightarrow> ctxerr option"
  expired :: "nat \<Rightarrow> bool"

text \<open>\<open>context.TODO()\<close>, which is never done.\<close>

definition todo :: "(nat \<Rightarrow> bool) \<Rightarrow> clock" where
  "todo ex = \<lparr>cancelled = (\<lambda>_. None), expired = ex\<rparr>"

section \<open>The loop\<close>

fun wait_loop ::
  "nat \<Rightarrow> 'p cenv \<Rightarrow> clock \<Rightarrow> compq \<Rightarrow> nat \<Rightarrow> int \<Rightarrow> bool \<Rightarrow> nat \<Rightarrow> 'p world \<Rightarrow>
   (CompletionEvent option result \<times> 'p world) option" where
  "wait_loop 0 E K cq target timeout want i w = None"
| "wait_loop (Suc fuel) E K cq target timeout want i w =
     (case cancelled K i of
        Some e \<Rightarrow> Some (Inl (CtxErr e), w)
      | None \<Rightarrow>
          (case CQ_ReadContext E cq w of
             (Inl err, w1) \<Rightarrow>
               if errors_Is err (Sentinel ErrNoCompletion) then
                 if 0 < timeout \<and> expired K i then Some (Inl (Sentinel ErrTimeout), w1)
                 else if timeout = 0 then Some (Inl (Sentinel ErrTimeout), w1)
                 else wait_loop fuel E K cq target timeout want (Suc i) w1
               else Some (Inl err, w1)
           | (Inr evt, w1) \<Rightarrow>
               (case CompletionEvent_Resolve (Some evt) w1 of
                  (Inl err, w2) \<Rightarrow>
                    if errors_Is err (Sentinel ErrContextUnknown)
                    then wait_loop fuel E K cq target timeout want (Suc i) w2
                    else Some (Inl err, w2)
                | (Inr c, w2) \<Rightarrow>
                    if c = target then Some (Inr (if want then Some evt else None), w2)
                    else wait_loop fuel E K cq target timeout want (Suc i) w2)))"

definition waitForCompletion ::
  "nat \<Rightarrow> 'p cenv \<Rightarrow> clock \<Rightarrow> compq \<Rightarrow> nat option \<Rightarrow> int \<Rightarrow> bool \<Rightarrow> 'p world \<Rightarrow>
   (CompletionEvent option result \<times> 'p world) option" where
  "waitForCompletion fuel E K cq target timeout want w =
     (case target of
        None \<Rightarrow> Some (Inr None, w)
      | Some c \<Rightarrow>
          if handles w (cq_ref cq) = None then Some (Inl (ErrInvalidHandle ''completion queue''), w)
          else wait_loop fuel E K cq c timeout want 0 w)"

section \<open>The blocking helpers\<close>

text \<open>\<open>waitForContext\<close> and \<open>waitForContextWithContext\<close> keep only the error.\<close>

definition waitForContext ::
  "nat \<Rightarrow> 'p cenv \<Rightarrow> clock \<Rightarrow> compq \<Rightarrow> nat option \<Rightarrow> int \<Rightarrow> 'p world \<Rightarrow> (goerr option \<times> 'p world) option" where
  "waitForContext fuel E K cq target timeout w =
     map_option (\<lambda>(r, w'). (case r of Inl e \<Rightarrow> Some e | Inr _ \<Rightarrow> None, w'))
       (waitForCompletion fuel E K cq target timeout False w)"

text \<open>The shape of every helper: a queue is required, post, wait for the context of the post.\<close>

definition sync ::
  "nat \<Rightarrow> 'p cenv \<Rightarrow> clock \<Rightarrow> ('p world \<Rightarrow> nat option result \<times> 'p world) \<Rightarrow> compq option \<Rightarrow> int \<Rightarrow> 'p world \<Rightarrow>
   (goerr option \<times> 'p world) option" where
  "sync fuel E K pst cq timeout w =
     (case cq of
        None \<Rightarrow> Some (Some (Msg ''libfabric: completion queue required''), w)
      | Some q \<Rightarrow>
          (case pst w of
             (Inl e, w1) \<Rightarrow> Some (Some e, w1)
           | (Inr ctx, w1) \<Rightarrow> waitForContext fuel E K q ctx timeout w1))"

definition SendSyncContext ::
  "nat \<Rightarrow> 'p cenv \<Rightarrow> clock \<Rightarrow> endpoint \<Rightarrow> slice \<Rightarrow> uint64 \<Rightarrow> compq option \<Rightarrow> int \<Rightarrow> 'p world \<Rightarrow>
   (goerr option \<times> 'p world) option" where
  "SendSyncContext fuel E K ep buf dest =
     sync fuel E K (PostSend E ep (Some \<lparr>sr_Buffer = buf, sr_Dest = dest, sr_Flags = 0, sr_Context = None, sr_Region = None\<rparr>))"

definition SendSync ::
  "nat \<Rightarrow> 'p cenv \<Rightarrow> (nat \<Rightarrow> bool) \<Rightarrow> endpoint \<Rightarrow> slice \<Rightarrow> uint64 \<Rightarrow> compq option \<Rightarrow> int \<Rightarrow> 'p world \<Rightarrow>
   (goerr option \<times> 'p world) option" where
  "SendSync fuel E ex ep buf dest =
     sync fuel E (todo ex) (PostSend E ep (Some \<lparr>sr_Buffer = buf, sr_Dest = dest, sr_Flags = 0, sr_Context = None, sr_Region = None\<rparr>))"

definition RecvSyncContext ::
  "nat \<Rightarrow> 'p cenv \<Rightarrow> clock \<Rightarrow> endpoint \<Rightarrow> slice \<Rightarrow> compq option \<Rightarrow> int \<Rightarrow> 'p world \<Rightarrow> (goerr option \<times> 'p world) option" where
  "RecvSyncContext fuel E K ep buf =
     sync fuel E K (PostRecv E ep (Some \<lparr>rr_Buffer = buf, rr_Source = 0, rr_Flags = 0, rr_Context = None, rr_Region = None\<rparr>))"

definition RecvSync ::
  "nat \<Rightarrow> 'p cenv \<Rightarrow> (nat \<Rightarrow> bool) \<Rightarrow> endpoint \<Rightarrow> slice \<Rightarrow> compq option \<Rightarrow> int \<Rightarrow> 'p world \<Rightarrow> (goerr option \<times> 'p world) option" where
  "RecvSync fuel E ex ep buf =
     sync fuel E (todo ex) (PostRecv E ep (Some \<lparr>rr_Buffer = buf, rr_Source = 0, rr_Flags = 0, rr_Context = None, rr_Region = None\<rparr>))"

definition TaggedSendSyncContext ::
  "nat \<Rightarrow> 'p cenv \<Rightarrow> clock \<Rightarrow> endpoint \<Rightarrow> slice \<Rightarrow> uint64 \<Rightarrow> uint64 \<Rightarrow> compq option \<Rightarrow> int \<Rightarrow> 'p world \<Rightarrow>
   (goerr option \<times> 'p world) option" where
  "TaggedSendSyncContext fuel E K ep buf dest tag =
     sync fuel E K (PostTaggedSend E ep (Some \<lparr>ts_Buffer = buf, ts_Dest = dest, ts_Tag = tag, ts_Context = None\<rparr>))"

definition TaggedSendSync ::
  "nat \<Rightarrow> 'p cenv \<Rightarrow> (nat \<Rightarrow> bool) \<Rightarrow> endpoint \<Rightarrow> slice \<Rightarrow> uint64 \<Rightarrow> uint64 \<Rightarrow> compq option \<Rightarrow> int \<Rightarrow> 'p world \<Rightarrow>
   (goerr option \<times> 'p world) option" where
  "TaggedSendSync fuel E ex ep buf dest tag =
     sync fuel E (todo ex) (PostTaggedSend E ep (Some \<lparr>ts_Buffer = buf, ts_Dest = dest, ts_Tag = tag, ts_Context = None\<rparr>))"

definition ReadSyncContext ::
  "nat \<Rightarrow> 'p cenv \<Rightarrow> clock \<Rightarrow> endpoint \<Rightarrow> RMARequest option \<Rightarrow> compq option \<Rightarrow> int \<Rightarrow> 'p world \<Rightarrow> (goerr option \<times> 'p world) option" where
  "ReadSyncContext fuel E K ep req = sync fuel E K (PostRead E ep req)"

definition ReadSync ::
  "nat \<Rightarrow> 'p cenv \<Rightarrow> (nat \<Rightarrow> bool) \<Rightarrow> endpoint \<Rightarrow> RMARequest option \<Rightarrow> compq option \<Rightarrow> int \<Rightarrow> 'p world \<Rightarrow> (goerr option \<times> 'p world) option" where
  "ReadSync fuel E ex ep req = sync fuel E (todo ex) (PostRead E ep req)"

definition WriteSyncContext ::
  "nat \<Rightarrow> 'p cenv \<Rightarrow> clock \<Rightarrow> endpoint \<Rightarrow> RMARequest option \<Rightarrow> compq option \<Rightarrow> int \<Rightarrow> 'p world \<Rightarrow> (goerr option \<times> 'p world) option" where
  "WriteSyncContext fuel E K ep req = sync fuel E K (PostWrite E ep req)"

definition WriteSync ::
  "nat \<Rightarrow> 'p cenv \<Rightarrow> (nat \<Rightarrow> bool) \<Rightarrow> endpoint \<Rightarrow> RMARequest option \<Rightarrow> compq option \<Rightarrow> int \<Rightarrow> 'p world \<Rightarrow> (goerr option \<times> 'p world) option" where
  "WriteSync fuel E ex ep req = sync fuel E (todo ex) (PostWrite E ep req)"

text \<open>
  The tagged receives also return the tag and data of the event. The code reads them through the
  event pointer, which \<open>waitForCompletion\<close> returns as nil only for a nil target; the post of a
  tagged receive always returns a context (\<open>tagged_receive_event\<close> below), so the branch for the
  nil dereference is never taken.
\<close>

definition TaggedRecvSyncContext ::
  "nat \<Rightarrow> 'p cenv \<Rightarrow> clock \<Rightarrow> endpoint \<Rightarrow> slice \<Rightarrow> uint64 \<Rightarrow> uint64 \<Rightarrow> compq option \<Rightarrow> int \<Rightarrow> 'p world \<Rightarrow>
   ((uint64 \<times> uint64) result \<times> 'p world) option" where
  "TaggedRecvSyncContext fuel E K ep buf tag ign cq timeout w =
     (case cq of
        None \<Rightarrow> Some (Inl (Msg ''libfabric: completion queue required''), w)
      | Some q \<Rightarrow>
          (case PostTaggedRecv E ep (Some \<lparr>tr_Buffer = buf, tr_Source = 0, tr_Tag = tag, tr_Ignore = ign, tr_Context = None\<rparr>) w of
             (Inl e, w1) \<Rightarrow> Some (Inl e, w1)
           | (Inr ctx, w1) \<Rightarrow>
               map_option
                 (\<lambda>(r, w'). (case r of
                     Inl e \<Rightarrow> Inl e
                   | Inr None \<Rightarrow> Inl (Msg ''nil completion event'')
                   | Inr (Some evt) \<Rightarrow> Inr (ev_Tag evt, ev_Data evt), w'))
                 (waitForCompletion fuel E K q ctx timeout True w1)))"

definition TaggedRecvSync ::
  "nat \<Rightarrow> 'p cenv \<Rightarrow> (nat \<Rightarrow> bool) \<Rightarrow> endpoint \<Rightarrow> slice \<Rightarrow> uint64 \<Rightarrow> uint64 \<Rightarrow> compq option \<Rightarrow> int \<Rightarrow> 'p world \<Rightarrow>
   ((uint64 \<times> uint64) result \<times> 'p world) option" where
  "TaggedRecvSync fuel E ex = TaggedRecvSyncContext fuel E (todo ex)"

section \<open>Lemmas\<close>

lemma read_frame: "ctx_frame w (snd (CQ_ReadContext E cq w))"
  by (rule ctx_frame_shape)
    (simp_all add: CQ_ReadContext_def with_handle_def capi_ReadContext_def split_beta split: option.split)

text \<open>One poll that neither returns nor fails: what the loop continues with.\<close>

definition polls :: "'p cenv \<Rightarrow> compq \<Rightarrow> nat \<Rightarrow> 'p world \<Rightarrow> 'p world \<Rightarrow> bool" where
  "polls E cq target w w' \<longleftrightarrow>
     (\<exists>e. CQ_ReadContext E cq w = (Inl e, w')) \<or>
     (\<exists>evt w1 r. CQ_ReadContext E cq w = (Inr evt, w1) \<and> resolveCompletion (ev_Context evt) w1 = (r, w') \<and>
        r \<noteq> Inr target)"

lemma wait_loop_cases [consumes 1, case_names cancelled empty failed unresolved resolved again]:
  assumes "wait_loop (Suc fuel) E K cq target timeout want i w = Some (r, w')"
  obtains e where "cancelled K i = Some e" "r = Inl (CtxErr e)" "w' = w"
  | e where "CQ_ReadContext E cq w = (Inl e, w')" "errors_Is e (Sentinel ErrNoCompletion)" "r = Inl (Sentinel ErrTimeout)"
      "0 < timeout \<and> expired K i \<or> timeout = 0"
  | e where "CQ_ReadContext E cq w = (Inl e, w')" "\<not> errors_Is e (Sentinel ErrNoCompletion)" "r = Inl e"
  | evt w1 e where "CQ_ReadContext E cq w = (Inr evt, w1)" "resolveCompletion (ev_Context evt) w1 = (Inl e, w')" "r = Inl e"
  | evt w1 where "CQ_ReadContext E cq w = (Inr evt, w1)" "resolveCompletion (ev_Context evt) w1 = (Inr target, w')"
      "r = Inr (if want then Some evt else None)"
  | w2 where "polls E cq target w w2" "wait_loop fuel E K cq target timeout want (Suc i) w2 = Some (r, w')"
  using assms
  by (auto simp: polls_def CompletionEvent_Resolve_def split: option.splits prod.splits sum.splits if_splits)

lemma read_run: "CQ_ReadContext E cq w = (r, w') \<Longrightarrow> (ctx_step E)\<^sup>*\<^sup>* w w'"
  using ctx_frame_run [OF read_frame] by (metis snd_conv)

lemma resolve_run: "resolveCompletion p w = (r, w') \<Longrightarrow> (ctx_step E)\<^sup>*\<^sup>* w w'"
  using st_resolve [of E w p] by (simp add: r_into_rtranclp)

lemma polls_run: "polls E cq target w w' \<Longrightarrow> (ctx_step E)\<^sup>*\<^sup>* w w'"
  unfolding polls_def by (auto intro: read_run rtranclp_trans [OF read_run resolve_run])

text \<open>Resolving another context leaves the target's record and its part of the log.\<close>

lemma resolve_other:
  assumes "ctx_inv w" and "resolveCompletion p w = (r, w')" and "r \<noteq> Inr c"
  shows "ctxs w' c = ctxs w c" and "filter (about c) (ran w') = filter (about c) (ran w)"
proof -
  have "ctxs w' c = ctxs w c \<and> filter (about c) (ran w') = filter (about c) (ran w)"
  proof (cases "p = NULL \<or> registry w p = None")
    case True
    with assms(2) show ?thesis by (auto simp: resolveCompletion_def split: if_splits option.splits)
  next
    case False
    then obtain d where d: "registry w p = Some d" by auto
    with ctx_invD(4) [OF assms(1)] obtain x where x: "ctxs w d = Some x" "\<not> cc_closed x" by blast
    have pre: "\<not> fault (w\<lparr>registry := (registry w)(p := None)\<rparr>)" "ctx_mem (w\<lparr>registry := (registry w)(p := None)\<rparr>) d x"
      "ctxs (w\<lparr>registry := (registry w)(p := None)\<rparr>) d = Some x"
      using ctx_invD(1) [OF assms(1)] ctx_inv_open(1) [OF assms(1) x] x by (simp_all add: ctx_mem_def)
    from release_ctx_effect(2,10) [OF pre x(2), of True False] False d assms(2,3) show ?thesis
      by (auto simp: resolveCompletion_def)
  qed
  then show "ctxs w' c = ctxs w c" and "filter (about c) (ran w') = filter (about c) (ran w)" by simp_all
qed

lemma resolve_Inr:
  assumes "resolveCompletion p w = (Inr c, w')" and "ctx_inv w"
  obtains x where "registry w p = Some c" "ctxs w c = Some x" "\<not> cc_closed x" "cc_ptr x = p"
  using assms ctx_invD(4) [OF assms(2), of p c]
  by (auto simp: resolveCompletion_def split: if_splits option.splits)

lemma polls_other:
  assumes "ctx_safe E w" and "polls E cq target w w'"
  shows "ctxs w' target = ctxs w target \<and> filter (about target) (ran w') = filter (about target) (ran w)"
  using assms(2) unfolding polls_def
proof (elim disjE exE conjE)
  fix e assume "CQ_ReadContext E cq w = (Inl e, w')"
  then show ?thesis using read_frame [of w E cq] by (simp add: ctx_frame_def)
next
  fix evt w1 r
  assume rd: "CQ_ReadContext E cq w = (Inr evt, w1)" and rs: "resolveCompletion (ev_Context evt) w1 = (r, w')" "r \<noteq> Inr target"
  have fr: "ctx_frame w w1" using read_frame [of w E cq] rd by simp
  have "ctx_inv w1" using ctx_inv_frame [OF _ fr] assms(1) by (simp add: ctx_safe_def)
  from resolve_other [OF this rs] fr show ?thesis by (simp add: ctx_frame_def)
qed

text \<open>Whatever the outcome, the loop is a run of the contexts; a success ends with the target's resolution.\<close>

lemma wait_loop_run:
  assumes "wait_loop fuel E K cq target timeout want i w = Some (r, w')"
  shows "(ctx_step E)\<^sup>*\<^sup>* w w'"
  using assms
proof (induction fuel arbitrary: i w)
  case (Suc fuel)
  from Suc.prems show ?case
  proof (cases rule: wait_loop_cases)
    case (again w2)
    from rtranclp_trans [OF polls_run [OF again(1)] Suc.IH [OF again(2)]] show ?thesis .
  qed (auto intro: read_run rtranclp_trans [OF read_run resolve_run])
qed simp

lemma wait_loop_success:
  assumes "wait_loop fuel E K cq target timeout want i w = Some (Inr ev, w')" and "ctx_safe E w"
  shows "\<exists>evt v x. (ctx_step E)\<^sup>*\<^sup>* w v \<and> ctx_safe E v \<and> ctxs v target = ctxs w target \<and>
    filter (about target) (ran v) = filter (about target) (ran w) \<and> ctxs v target = Some x \<and>
    registry v (ev_Context evt) = Some target \<and> cc_ptr x = ev_Context evt \<and>
    w' = snd (resolveCompletion (ev_Context evt) v) \<and> ev = (if want then Some evt else None)"
  using assms
proof (induction fuel arbitrary: i w)
  case (Suc fuel)
  from Suc.prems(1) show ?case
  proof (cases rule: wait_loop_cases)
    case (resolved evt w1)
    have fr: "ctx_frame w w1" using read_frame [of w E cq] resolved(1) by simp
    have safe: "ctx_safe E w1" by (rule ctx_run_safe [OF Suc.prems(2) ctx_frame_run [OF fr]])
    from resolved(2) obtain x where "registry w1 (ev_Context evt) = Some target" "ctxs w1 target = Some x"
        "cc_ptr x = ev_Context evt"
      by (rule resolve_Inr) (use safe in \<open>auto simp: ctx_safe_def\<close>)
    with safe ctx_frame_run [OF fr] fr resolved show ?thesis
      by (intro exI [of _ evt] exI [of _ w1] exI [of _ x]) (simp add: ctx_frame_def)
  next
    case (again w2)
    have run: "(ctx_step E)\<^sup>*\<^sup>* w w2" by (rule polls_run [OF again(1)])
    have safe: "ctx_safe E w2" by (rule ctx_run_safe [OF Suc.prems(2) run])
    from Suc.IH [OF again(2) safe] show ?thesis
      using rtranclp_trans [OF run] polls_other [OF Suc.prems(2) again(1)] by metis
  qed simp_all
qed simp

text \<open>Within a bounded number of polls: the caller's context is done, or the queue has run dry after the deadline.\<close>

lemma wait_loop_cancelled:
  assumes "cancelled K n \<noteq> None" and "i \<le> n" and "n - i < fuel"
  shows "wait_loop fuel E K cq target timeout want i w \<noteq> None"
  using assms(2,3)
proof (induction fuel arbitrary: i w)
  case (Suc fuel)
  show ?case
  proof (cases "i = n")
    case True
    with assms(1) show ?thesis by auto
  next
    case False
    with Suc.prems have "wait_loop fuel E K cq target timeout want (Suc i) v \<noteq> None" for v
      by (intro Suc.IH) auto
    then show ?thesis by (auto split: option.split prod.split sum.split)
  qed
qed simp

definition drains :: "'p cenv \<Rightarrow> ('p \<Rightarrow> nat) \<Rightarrow> bool" where
  "drains E pend \<longleftrightarrow>
     (\<forall>c h p. pend (snd (snd (lib E c h p))) + (if 0 < sint (r_ret (fst (lib E c h p))) then 1 else 0) \<le> pend p)"

lemma drains_ccall:
  assumes "drains E pend"
  shows "pend (native (snd (ccall E c w))) + (if 0 < sint (r_ret (fst (ccall E c w))) then 1 else 0) \<le> pend (native w)"
  using assms [unfolded drains_def, rule_format, of c "contents w" "native w"]
  by (cases "lib E c (contents w) (native w)") (simp add: ccall_def split: if_splits)

lemma native_resolve [simp]: "native (snd (resolveCompletion p w)) = native w"
  by (simp add: resolveCompletion_def release_ctx_def Let_def CompletionContextFree_def FreeBytes_def Memcpy_def store_def
      split: option.split loc.split)

text \<open>A read is one call at most, and yields an event only when that call returned a positive count.\<close>

lemma entry_result_Inr: "entry_result H s f r = Inr x \<Longrightarrow> \<exists>e. r = Inr (Some e)"
  by (auto simp: entry_result_def split: sum.splits option.splits)

lemma read_result_Some: "read_result E op r e = Inr (Some x) \<Longrightarrow> 0 < sint (r_ret r)"
  by (auto simp: read_result_def as_sum_def split: if_splits option.splits)

lemma read_call:
  assumes "CQ_ReadContext E cq w = (r, w')"
  shows "(w' = w \<and> (\<exists>e. r = Inl e)) \<or>
    (\<exists>c. w' = snd (ccall E c w) \<and> ((\<exists>e. r = Inl e) \<or> 0 < sint (r_ret (fst (ccall E c w)))))"
proof (cases r)
  case (Inl e)
  with assms show ?thesis
    by (auto simp: CQ_ReadContext_def with_handle_def capi_ReadContext_def split_beta split: option.splits if_splits)
next
  case (Inr evt)
  with assms obtain p where p: "w' = snd (capi_ReadContext E p (cq_format cq) w)"
    and er: "entry_result (hdr E) ErrNoCompletion (\<lambda>e. \<lparr>ev_Context = ce_Context e, ev_Tag = ce_Tag e, ev_Data = ce_Data e,
      ev_Source = ce_SrcAddr e\<rparr>) (fst (capi_ReadContext E p (cq_format cq) w)) = Inr evt"
    by (auto simp: CQ_ReadContext_def with_handle_def split_beta split: option.splits)
  from entry_result_Inr [OF er] obtain x where "fst (capi_ReadContext E p (cq_format cq) w) = Inr (Some x)" by blast
  with p show ?thesis
    by (auto simp: capi_ReadContext_def split_beta split: if_splits dest: read_result_Some)
qed

lemma drains_read:
  assumes "drains E pend" and "CQ_ReadContext E cq w = (r, w')"
  shows "pend (native w') + (case r of Inr _ \<Rightarrow> 1 | Inl _ \<Rightarrow> 0) \<le> pend (native w)"
  using read_call [OF assms(2)]
proof (elim disjE exE conjE)
  fix c
  assume "w' = snd (ccall E c w)" "0 < sint (r_ret (fst (ccall E c w)))"
  with drains_ccall [OF assms(1), of c w] show ?thesis by (auto split: sum.split)
next
  fix c e
  assume "w' = snd (ccall E c w)" "r = Inl e"
  with drains_ccall [OF assms(1), of c w] show ?thesis by (auto split: if_splits)
qed simp

lemma wait_loop_drains:
  assumes dr: "drains E pend" and t: "0 \<le> timeout" and ex: "\<And>j. n \<le> j \<Longrightarrow> expired K j"
    and fuel: "(n - i) + pend (native w) < fuel"
  shows "wait_loop fuel E K cq target timeout want i w \<noteq> None"
  using fuel
proof (induction fuel arbitrary: i w)
  case (Suc fuel)
  show ?case
  proof (cases "CQ_ReadContext E cq w")
    case (Pair r w1)
    note d = drains_read [OF dr Pair]
    show ?thesis
    proof (cases r)
      case (Inl e)
      show ?thesis
      proof (cases "n \<le> i \<or> timeout = 0")
        case True
        with ex [of i] t Pair Inl show ?thesis by (auto split: option.split)
      next
        case False
        with Suc.prems d Inl have "wait_loop fuel E K cq target timeout want (Suc i) w1 \<noteq> None"
          by (intro Suc.IH) auto
        with Pair Inl show ?thesis by (auto split: option.split)
      qed
    next
      case (Inr evt)
      with Suc.prems d have "wait_loop fuel E K cq target timeout want (Suc i) (snd (resolveCompletion p w1)) \<noteq> None" for p
        by (intro Suc.IH) auto
      with Pair Inr show ?thesis
        by (auto simp: CompletionEvent_Resolve_def split: option.split prod.split sum.split)
          (metis snd_conv)+
    qed
  qed
qed simp

text \<open>A released context is not in the registry, so no event resolves to it.\<close>

lemma wait_loop_released:
  assumes "ctx_safe E w" and "IsReleased c w"
  shows "wait_loop fuel E K cq c timeout want i w \<noteq> Some (Inr ev, w')"
proof
  assume "wait_loop fuel E K cq c timeout want i w = Some (Inr ev, w')"
  from wait_loop_success [OF this assms(1)] obtain evt :: CompletionEvent and v where
    v: "ctx_safe E v" "ctxs v c = ctxs w c" "registry v (ev_Context evt) = Some c" by blast
  then have "ctx_inv v" by (simp add: ctx_safe_def)
  from ctx_invD(4) [OF this v(3)] v(2) assms(2) show False by (auto simp: IsReleased_def)
qed

text \<open>What a resolution leaves: the context released, its callbacks in the log.\<close>

lemma resolve_effect:
  assumes "ctx_safe E w" and "registry w p = Some c" and "ctxs w c = Some x"
  shows "IsReleased c (snd (resolveCompletion p w))"
    and "filter (about c) (ran (snd (resolveCompletion p w))) = filter (about c) (ran w) @
      map (RanComplete c) (cc_onComplete x) @ map (RanCleanup c) (rev (cc_cleanups x))"
    and "open_set (snd (resolveCompletion p w)) = open_set w - {c}"
proof -
  have inv: "ctx_inv w" using assms(1) by (simp add: ctx_safe_def)
  from ctx_invD(4) [OF inv assms(2)] assms(3) have x: "\<not> cc_closed x" "cc_ptr x = p" by auto
  then have p: "p \<noteq> NULL" using ctx_inv_open(1) [OF inv assms(3)] by (auto simp: ctx_mem_def)
  have pre: "\<not> fault (w\<lparr>registry := (registry w)(p := None)\<rparr>)" "ctx_mem (w\<lparr>registry := (registry w)(p := None)\<rparr>) c x"
    "ctxs (w\<lparr>registry := (registry w)(p := None)\<rparr>) c = Some x"
    using ctx_invD(1) [OF inv] ctx_inv_open(1) [OF inv assms(3) x(1)] assms(3) by (simp_all add: ctx_mem_def)
  note eff = release_ctx_effect(2,10) [OF pre x(1), of True False]
  show "IsReleased c (snd (resolveCompletion p w))"
    and "filter (about c) (ran (snd (resolveCompletion p w))) = filter (about c) (ran w) @
      map (RanComplete c) (cc_onComplete x) @ map (RanCleanup c) (rev (cc_cleanups x))"
    and "open_set (snd (resolveCompletion p w)) = open_set w - {c}"
    using p assms(2,3) eff by (auto simp: resolveCompletion_def IsReleased_def open_set_def open_ctx_def)
qed

text \<open>The loop opens no context.\<close>

lemma polls_open: "ctx_safe E w \<Longrightarrow> polls E cq t w w' \<Longrightarrow> open_set w' \<subseteq> open_set w"
  unfolding polls_def
proof (elim disjE exE conjE)
  fix e assume "CQ_ReadContext E cq w = (Inl e, w')"
  then show ?thesis using open_set_ctx_frame [OF read_frame [of w E cq]] by simp
next
  fix evt w1 r
  assume s: "ctx_safe E w" and rd: "CQ_ReadContext E cq w = (Inr evt, w1)" and rs: "resolveCompletion (ev_Context evt) w1 = (r, w')"
  have fr: "ctx_frame w w1" using read_frame [of w E cq] rd by simp
  have safe: "ctx_safe E w1" by (rule ctx_run_safe [OF s ctx_frame_run [OF fr]])
  have "open_set w' \<subseteq> open_set w1"
  proof (cases "ev_Context evt = NULL \<or> registry w1 (ev_Context evt) = None")
    case True
    with rs show ?thesis by (auto simp: resolveCompletion_def split: option.splits if_splits)
  next
    case False
    then obtain c where c: "registry w1 (ev_Context evt) = Some c" by auto
    with ctx_invD(4) [of w1] safe obtain x where "ctxs w1 c = Some x" by (auto simp: ctx_safe_def)
    from resolve_effect(3) [OF safe c this] rs show ?thesis by auto
  qed
  then show ?thesis using open_set_ctx_frame [OF fr] by simp
qed

lemma wait_loop_open:
  assumes "wait_loop fuel E K cq target timeout want i w = Some (r, w')" and "ctx_safe E w"
  shows "open_set w' \<subseteq> open_set w"
  using assms
proof (induction fuel arbitrary: i w)
  case (Suc fuel)
  have one: "open_set w' \<subseteq> open_set w" if "CQ_ReadContext E cq w = (Inr evt, w1)" "resolveCompletion (ev_Context evt) w1 = (x, w')" for evt w1 x
  proof (cases "polls E cq (Suc target) w w' \<or> polls E cq target w w'")
    case True
    with polls_open [OF Suc.prems(2)] show ?thesis by blast
  next
    case False
    with that show ?thesis by (auto simp: polls_def)
  qed
  from Suc.prems(1) show ?case
  proof (cases rule: wait_loop_cases)
    case (again w2)
    with polls_open [OF Suc.prems(2) again(1)] Suc.IH [OF again(2)]
      ctx_run_safe [OF Suc.prems(2) polls_run [OF again(1)]] show ?thesis by blast
  qed (use one open_set_ctx_frame [OF read_frame [of w E cq]] in auto)
qed simp

lemma wait_loop_want: "wait_loop fuel E K cq c timeout True i w \<noteq> Some (Inr None, w')"
proof (induction fuel arbitrary: i w)
  case (Suc fuel)
  show ?case
    by (rule notI, erule wait_loop_cases) (use Suc in simp_all)
qed simp

lemma tagged_receive_event:
  "PostTaggedRecv E ep req w \<noteq> (Inr None, w')"
  "waitForCompletion fuel E K cq (Some c) timeout True w \<noteq> Some (Inr None, w')"
  by (auto simp: wait_loop_want PostTaggedRecv_def with_handle_def try_act_def Let_def posts_something waitForCompletion_def
      split: option.splits prod.splits sum.splits if_splits)

section \<open>Properties\<close>

text \<open>
  Claim C32. When the wait for a context succeeds, the context was resolved by it: it is released, its
  completion callbacks and cleanups have run exactly once and in order, and the event returned (when
  asked for) is the one that carries the context's pointer.
\<close>

theorem wait_resolves_target:
  assumes "ctx_safe E w" and "ctxs w c = Some x"
    and "waitForCompletion fuel E K cq (Some c) timeout want w = Some (Inr ev, w')"
  shows "IsReleased c w' \<and>
    filter (about c) (ran w') = filter (about c) (ran w) @
      map (RanComplete c) (cc_onComplete x) @ map (RanCleanup c) (rev (cc_cleanups x)) \<and>
    map_option ev_Context ev = (if want then Some (cc_ptr x) else None)"
proof -
  from assms(3) have "wait_loop fuel E K cq c timeout want 0 w = Some (Inr ev, w')"
    by (simp add: waitForCompletion_def split: if_splits)
  from wait_loop_success [OF this assms(1)] obtain evt v where
    v: "ctx_safe E v" "ctxs v c = Some x" "filter (about c) (ran v) = filter (about c) (ran w)"
      "registry v (ev_Context evt) = Some c" "cc_ptr x = ev_Context evt"
      "w' = snd (resolveCompletion (ev_Context evt) v)" "ev = (if want then Some evt else None)"
    using assms(2) by auto
  from resolve_effect(1,2) [OF v(1,4,2)] v(3,5-7) show ?thesis by simp
qed

text \<open>
  Claim C24. The wait ends. With a deadline (or timeout 0) and a provider that has \<open>pend\<close> completions
  to report, it returns within one poll per completion after the deadline has passed; and it
  returns at the poll at which the caller's context is done, whatever the provider does.
\<close>

theorem wait_returns:
  assumes "0 \<le> timeout \<and> drains E pend \<and> (\<forall>j\<ge>n. expired K j) \<and> n + pend (native w) < fuel \<or>
    cancelled K n \<noteq> None \<and> n < fuel"
  shows "\<exists>out. waitForCompletion fuel E K cq target timeout want w = Some out"
proof -
  have "wait_loop fuel E K cq c timeout want 0 w \<noteq> None" for c
    using assms wait_loop_drains [of E pend timeout n K 0 w fuel] wait_loop_cancelled [of K n 0 fuel] by auto
  then show ?thesis by (auto simp: waitForCompletion_def split: option.split)
qed

text \<open>
  Claim C35. A context whose completion another wait on the same queue has already consumed (it is
  released, its callbacks have run) is never reported: the wait for it does not succeed, however
  long it polls.
\<close>

theorem wait_misses_released:
  assumes "ctx_safe E w" and "IsReleased c w"
  shows "waitForCompletion fuel E K cq (Some c) timeout want w \<noteq> Some (Inr ev, w')"
  using wait_loop_released [OF assms, of fuel K cq timeout want 0 ev w'] by (simp add: waitForCompletion_def)

lemma sync_None:
  assumes "sync fuel E K pst (Some q) timeout w = Some (None, w')"
  obtains ctx u ev where "pst w = (Inr ctx, u)" "waitForCompletion fuel E K q ctx timeout False u = Some (Inr ev, w')"
proof -
  obtain r u where p: "pst w = (r, u)" by fastforce
  with assms obtain ctx where r: "r = Inr ctx" and wt: "waitForContext fuel E K q ctx timeout u = Some (None, w')"
    by (cases r) (auto simp: sync_def)
  from wt obtain z where z: "waitForCompletion fuel E K q ctx timeout False u = Some (z, w')"
    "(case z of Inl e \<Rightarrow> Some e | Inr _ \<Rightarrow> None) = None"
    by (auto simp: waitForContext_def)
  then obtain ev where "z = Inr ev" by (cases z) simp_all
  with p r z(1) that show thesis by blast
qed

text \<open>
  Claim C23. \<open>RecvSyncContext\<close> end to end. When it returns nil, the receive was posted on a staging
  buffer, and the caller's array begins with what that buffer held when the completion was
  resolved, unchanged behind it; no context is left open that was not open before.
\<close>

theorem RecvSync_delivers:
  assumes "ctx_safe E w" and "go_array w buf" and "0 < sl_len buf" and "sl_loc buf = GoMem a"
    and "RecvSyncContext fuel E K ep buf (Some q) timeout w = Some (None, w')"
  shows "\<exists>p b c u v. fst (last (calls u)) = C_recv p b (sl_len buf) NULL FIAddrUnspec (Pointer c u) \<and>
    (ctx_step E)\<^sup>*\<^sup>* w u \<and> (ctx_step E)\<^sup>*\<^sup>* u v \<and> w' = snd (resolveCompletion (Pointer c u) v) \<and>
    gomem w' a = take (sl_len buf) (blk_bytes (the (heap v b))) @ drop (sl_len buf) (gomem v a) \<and>
    open_set w' \<subseteq> open_set w"
proof -
  let ?rq = "\<lparr>rr_Buffer = buf, rr_Source = 0, rr_Flags = 0, rr_Context = None, rr_Region = None\<rparr>"
  obtain r u where post: "PostRecv E ep (Some ?rq) w = (r, u)" by fastforce
  have not_None: "r \<noteq> Inr None"
    using post by (auto simp: PostRecv_def with_handle_def try_act_def Let_def posts_something
        split: option.splits prod.splits sum.splits if_splits)
  from assms(5) [unfolded RecvSyncContext_def] obtain ctx ev where "r = Inr ctx"
    "waitForCompletion fuel E K q ctx timeout False u = Some (Inr ev, w')"
    by (rule sync_None) (use post in auto)
  with not_None obtain c where r: "r = Inr (Some c)"
    and wt: "waitForCompletion fuel E K q (Some c) timeout False u = Some (Inr ev, w')" by (cases ctx) auto
  have post': "PostRecv E ep (Some ?rq) w = (Inr (Some c), u)" using post r by simp
  have "posted E None w (PostRecv E ep (Some ?rq) w)"
    using PostRecv_refines [OF assms(1), of ?rq ep] assms(2) by (simp add: ready_def)
  then have run: "(ctx_step E)\<^sup>*\<^sup>* w u" and op: "open_set u = insert c (open_set w)"
    by (auto simp: post' posted_def intro: post_run_ctx)
  have safe: "ctx_safe E u" by (rule ctx_run_safe [OF assms(1) run])
  obtain p x where call: "fst (last (calls u)) = C_recv p (cc_buffer x) (sl_len buf) NULL FIAddrUnspec (cc_ptr x)"
    and x: "ctxs u c = Some x" "cc_buffer x \<noteq> NULL" "cc_copyBack x = Some buf"
    using staged_PostRecv [OF assms(1), of ?rq ep c u] assms(2,3) post'
    by (auto simp: handed_def ready_def recv_source_def)
  from wt have "wait_loop fuel E K q c timeout False 0 u = Some (Inr ev, w')"
    by (simp add: waitForCompletion_def split: if_splits)
  from wait_loop_success [OF this safe] wait_loop_open [OF this safe] x(1) obtain evt :: CompletionEvent and v where
    v: "(ctx_step E)\<^sup>*\<^sup>* u v" "ctx_safe E v" "ctxs v c = Some x" "registry v (ev_Context evt) = Some c"
      "cc_ptr x = ev_Context evt" "w' = snd (resolveCompletion (ev_Context evt) v)" "open_set w' \<subseteq> open_set u"
    by auto
  have "gomem w' a = take (sl_len buf) (blk_bytes (the (heap v (cc_buffer x)))) @ drop (sl_len buf) (gomem v a)"
    using copied_back [OF v(2,4,3) x(3) assms(4)] x(2) v(6) by simp
  moreover have "c \<notin> open_set w'"
    using resolve_effect(3) [OF v(2,4,3)] v(6) by simp
  moreover have "Pointer c u = ev_Context evt" using x(1) v(5) by (simp add: Pointer_def)
  ultimately show ?thesis
    using call run v op by (intro exI [of _ p] exI [of _ "cc_buffer x"] exI [of _ c] exI [of _ u] exI [of _ v]) auto
qed

section \<open>A wait that never ends\<close>

text \<open>
  A queue on which some completion is always waiting, none of a context of this program: the
  deadline is only looked at when the queue is empty.
\<close>

definition flood_env :: "nat cenv" where
  "flood_env = \<lparr>hdr = linux_hdr, lib = (\<lambda>c h q. (resp0\<lparr>r_ret := 1, r_ctx := 99\<rparr>, \<lambda>_. [], q)), malloc = bump_malloc\<rparr>"

definition flood_cq :: compq where
  "flood_cq = \<lparr>cq_ref = 2, cq_format = 0\<rparr>"

lemma flood_read:
  assumes "handles w 2 = Some (KCQ, 50)" and "registry w 99 = None"
  shows "polls flood_env flood_cq c w (snd (ccall flood_env (C_cq_read 50) w)) \<and>
    wait_loop (Suc fuel) flood_env (todo ex) flood_cq c t want i w =
    wait_loop fuel flood_env (todo ex) flood_cq c t want (Suc i) (snd (ccall flood_env (C_cq_read 50) w))"
proof -
  have "CQ_ReadContext flood_env flood_cq w =
      (Inr \<lparr>ev_Context = 99, ev_Tag = 0, ev_Data = 0, ev_Source = 0\<rparr>, snd (ccall flood_env (C_cq_read 50) w))"
    using assms(1)
    by (simp add: CQ_ReadContext_def with_handle_def capi_ReadContext_def flood_cq_def flood_env_def linux_hdr_def
        ccall_def read_result_def entry_result_def resp0_def)
  moreover have "registry (snd (ccall flood_env (C_cq_read 50) w)) 99 = None" using assms(2) by simp
  ultimately show ?thesis
    by (simp add: polls_def todo_def CompletionEvent_Resolve_def resolveCompletion_def)
qed

lemma flood_loop:
  "handles w 2 = Some (KCQ, 50) \<Longrightarrow> registry w 99 = None \<Longrightarrow>
    wait_loop fuel flood_env (todo ex) flood_cq c t want i w = None"
proof (induction fuel arbitrary: i w)
  case (Suc fuel)
  then have "wait_loop fuel flood_env (todo ex) flood_cq c t want (Suc i) (snd (ccall flood_env (C_cq_read 50) w)) = None"
    by (intro Suc.IH) simp_all
  with flood_read [OF Suc.prems, of c fuel ex t want i] show ?case by simp
qed simp

definition wait_world :: "nat world" where
  "wait_world = post_world\<lparr>handles := [0 \<mapsto> (KEndpoint, 77), 2 \<mapsto> (KCQ, 50)], next_id := 3\<rparr>"

text \<open>
  Claim C34. The deadline does not bound the wait: with a one-millisecond timeout whose deadline has
  passed before the first poll, on a queue that keeps reporting completions the program does not
  know, the wait is still polling after any number of polls.
\<close>

theorem wait_starves:
  "waitForCompletion fuel flood_env (todo (\<lambda>_. True)) flood_cq (Some c) 1000000 want wait_world = None"
  by (simp add: waitForCompletion_def flood_cq_def [THEN arg_cong [where f = cq_ref]] flood_loop wait_world_def post_world_def world0_def)

section \<open>Instances\<close>

text \<open>
  The library of \<open>post_env\<close> with a queue that reports the context pointer 1 once per unit of the
  native state, then nothing.
\<close>

definition wait_env :: "nat cenv" where
  "wait_env = post_env\<lparr>lib := (\<lambda>c h q. case c of
     C_cq_read _ \<Rightarrow> (if 0 < q then resp0\<lparr>r_ret := 1, r_ctx := 1\<rparr> else resp0\<lparr>r_ret := -11\<rparr>,
       \<lambda>p. (case h p of None \<Rightarrow> [] | Some bs \<Rightarrow> replicate (length bs) 1), q - 1)
   | _ \<Rightarrow> (resp0, \<lambda>_. [], q))\<rparr>"

definition got_world :: "nat world" where
  "got_world = (case RecvSyncContext 3 wait_env (todo (\<lambda>_. False)) post_ep \<lparr>sl_loc = GoMem 5, sl_len = 4\<rparr> (Some flood_cq) 5 wait_world of
     Some (_, w) \<Rightarrow> w | None \<Rightarrow> wait_world)"

lemma wait_demo:
  "map_option fst (RecvSyncContext 3 wait_env (todo (\<lambda>_. False)) post_ep \<lparr>sl_loc = GoMem 5, sl_len = 4\<rparr> (Some flood_cq) 5 wait_world) = Some None"
  "gomem got_world 5 = [1, 1, 1, 1, 5, 6]"
  by code_simp+

lemma wait_env_spec [simp]: "malloc_spec wait_env"
  by (simp add: wait_env_def post_env_def bump_malloc_spec)

lemma wait_drains: "drains wait_env id"
  by (simp add: drains_def wait_env_def resp0_def split: call.split)

lemma wait_world_safe [simp]: "ctx_safe wait_env wait_world"
  by (simp add: ctx_safe_def ctx_inv_def no_leak_def wait_world_def post_world_def world0_def shape_def)

theorem wait_returns_witness:
  "\<exists>out. waitForCompletion 9 wait_env (todo (\<lambda>j. 3 \<le> j)) flood_cq (Some 0) 5 False wait_world = Some out"
  by (rule wait_returns [where pend = id and n = 3])
    (simp add: wait_drains todo_def wait_world_def post_world_def world0_def)

text \<open>The state between posting the receive and waiting for it.\<close>

definition armed :: "nat world" where
  "armed = snd (post wait_env post_ep (demo_recv None) wait_world)"

lemma armed_facts:
  "map_option cc_ptr (ctxs armed 3) = Some 1" "map_option cc_onComplete (ctxs armed 3) = Some []"
  "map_option cc_cleanups (ctxs armed 3) = Some []"
  "map_option fst (waitForCompletion 2 wait_env (todo (\<lambda>_. False)) flood_cq (Some 3) 5 True armed) =
     Some (Inr (Some \<lparr>ev_Context = 1, ev_Tag = 0, ev_Data = 0, ev_Source = 0\<rparr>))"
  by code_simp+

lemma armed_safe: "ctx_safe wait_env armed"
proof -
  have "op_valid wait_world (demo_recv None)"
    by (simp add: op_valid_def demo_recv_def go_array_def wait_world_def post_world_def)
  then show ?thesis
    unfolding armed_def by (intro post_safe [OF wait_world_safe _ _ prod.collapse [symmetric]]) simp_all
qed

theorem wait_resolves_target_witness:
  "\<exists>w'. waitForCompletion 2 wait_env (todo (\<lambda>_. False)) flood_cq (Some 3) 5 True armed =
      Some (Inr (Some \<lparr>ev_Context = 1, ev_Tag = 0, ev_Data = 0, ev_Source = 0\<rparr>), w') \<and> IsReleased 3 w'"
proof -
  from armed_facts(4) obtain w' where w': "waitForCompletion 2 wait_env (todo (\<lambda>_. False)) flood_cq (Some 3) 5 True armed =
      Some (Inr (Some \<lparr>ev_Context = 1, ev_Tag = 0, ev_Data = 0, ev_Source = 0\<rparr>), w')" by auto
  from armed_facts(1) obtain x where "ctxs armed 3 = Some x" by auto
  from wait_resolves_target [OF armed_safe this w'] w' show ?thesis by blast
qed

theorem wait_misses_released_witness:
  "waitForCompletion 9 quiet_env (todo (\<lambda>_. False)) flood_cq (Some 0) 5 False (snd (resolveCompletion 1 demo_world)) \<noteq>
     Some (Inr None, demo_world)"
proof -
  have "IsReleased 0 (snd (resolveCompletion 1 demo_world))" by code_simp
  from wait_misses_released [OF ctx_safe_steps(5) [OF demo_safe] this] show ?thesis by blast
qed

theorem RecvSync_delivers_witness: "open_set got_world = {}"
proof -
  from wait_demo(1) obtain w' where
    "RecvSyncContext 3 wait_env (todo (\<lambda>_. False)) post_ep \<lparr>sl_loc = GoMem 5, sl_len = 4\<rparr> (Some flood_cq) 5 wait_world = Some (None, w')"
    by auto
  with RecvSync_delivers [OF wait_world_safe _ _ _ this, of 5] show ?thesis
    by (auto simp: got_world_def go_array_def wait_world_def post_world_def open_set_def open_ctx_def world0_def)
qed

end
