(* ===== verification/Client.thy ===== *)
theory Client
  imports Telemetry Pool Waiting "HOL-Library.AList"
begin

text \<open>
  The client of \<open>client/client.go\<close>: its state, operations and futures, handlers, statistics, and the
  functions that post sends and receives.

  A client is one record; it contains the world below it. Its operations (\<open>*operation\<close>) are the
  list \<open>cl_ops\<close>, an operation is its index there, and a future is the operation it tracks. Every
  goroutine the client starts for a callback or handler is a value in the log \<open>cl_spawned\<close>, every
  call of an observer one in \<open>cl_tele\<close>.
\<close>

section \<open>State\<close>

record operationResult =
  or_length :: nat
  or_err :: "goerr option"

record receiveMeta =
  rm_buffer :: slice
  rm_source :: uint64

text \<open>The \<open>release\<close> closures: give the region back to the pool, or close it.\<close>

datatype release_fn = RelPool nat | RelRegion nat

record operation =
  op_kind :: OperationKind
  op_size :: nat
  op_release :: "release_fn option"
  op_meta :: "receiveMeta option"
  op_once :: bool
  op_completed :: bool
  op_result :: operationResult
  op_callbacks :: "nat list"
  op_done :: bool

record SendCompletion =
  sc_Size :: nat
  sc_Err :: "goerr option"

record ReceiveCompletion =
  rc_Payload :: "byte list"
  rc_Source :: uint64
  rc_Err :: "goerr option"

datatype spawn =
    GoCallback nat nat operationResult
  | GoSendHandler nat SendCompletion
  | GoReceiveHandler nat ReceiveCompletion

record Stats =
  st_SendPosted :: uint64
  st_SendCompleted :: uint64
  st_SendErrored :: uint64
  st_ReceivePosted :: uint64
  st_ReceiveMatched :: uint64
  st_ReceiveErrored :: uint64

record 'p client =
  cl_obs :: observers
  cl_fabric :: nat
  cl_domain :: godomain
  cl_endpoint :: endpoint
  cl_cq :: compq
  cl_eq :: "nat option"
  cl_av :: "nat option"
  cl_selfAddr :: uint64
  cl_peerAddr :: uint64
  cl_peerConfigured :: bool
  cl_selfRaw :: "byte list"
  cl_mrPool :: "mrpool option"
  cl_mrAccess :: uint64
  cl_requiresMR :: bool
  cl_closed :: bool
  cl_stopped :: bool
  cl_dispatcherErr :: "goerr option"
  cl_sendHandlers :: "(uint64 \<times> nat) list"
  cl_receiveHandlers :: "(uint64 \<times> nat) list"
  cl_handlerSeq :: uint64
  cl_stats :: Stats
  cl_ownFabric :: bool
  cl_ownDomain :: bool
  cl_ownEndpoint :: bool
  cl_ownCompletion :: bool
  cl_ownEventQueue :: bool
  cl_ops :: "operation list"
  cl_spawned :: "spawn list"
  cl_tele :: "tele list"
  cl_world :: "'p world"

definition newOperation :: "OperationKind \<Rightarrow> nat \<Rightarrow> receiveMeta option \<Rightarrow> operation" where
  "newOperation kind sz meta =
     \<lparr>op_kind = kind, op_size = sz, op_release = None, op_meta = meta, op_once = False, op_completed = False,
      op_result = \<lparr>or_length = 0, or_err = None\<rparr>, op_callbacks = [], op_done = False\<rparr>"

definition tell :: "tele list \<Rightarrow> 'p client \<Rightarrow> 'p client" where
  "tell ts c = c\<lparr>cl_tele := cl_tele c @ ts\<rparr>"

definition in_world :: "('p world \<Rightarrow> 'a \<times> 'p world) \<Rightarrow> 'p client \<Rightarrow> 'a \<times> 'p client" where
  "in_world m c = (case m (cl_world c) of (a, w) \<Rightarrow> (a, c\<lparr>cl_world := w\<rparr>))"

section \<open>Completing an operation\<close>

definition run_release :: "'p cenv \<Rightarrow> release_fn option \<Rightarrow> 'p client \<Rightarrow> 'p client" where
  "run_release E rel c =
     (case rel of
        None \<Rightarrow> c
      | Some (RelPool r) \<Rightarrow>
          (case cl_mrPool c of
             None \<Rightarrow> c
           | Some p \<Rightarrow> (case Pool_Release E p (Some r) (cl_world c) of
                          (p', w) \<Rightarrow> c\<lparr>cl_mrPool := Some p', cl_world := w\<rparr>))
      | Some (RelRegion r) \<Rightarrow> c\<lparr>cl_world := snd (region_Close E r (cl_world c))\<rparr>)"

text \<open>\<open>emit\<close>: count, log, and start one goroutine per registered handler.\<close>

definition emit_send ::
  "fi_hdr \<Rightarrow> (errno \<Rightarrow> string) \<Rightarrow> operationResult \<Rightarrow> 'p client \<Rightarrow> 'p client" where
  "emit_send H strerror res c =
     (let c1 = (case or_err res of
                  Some e \<Rightarrow>
                    tell (logf (cl_obs c) (''client: send errored: '' @ error_text H strerror e))
                      (c\<lparr>cl_stats := (cl_stats c)\<lparr>st_SendErrored := st_SendErrored (cl_stats c) + 1\<rparr>\<rparr>)
                | None \<Rightarrow>
                    tell (logf (cl_obs c) (''client: send completed size='' @ show_nat (or_length res)))
                      (c\<lparr>cl_stats := (cl_stats c)\<lparr>st_SendCompleted := st_SendCompleted (cl_stats c) + 1\<rparr>\<rparr>))
      in c1\<lparr>cl_spawned := cl_spawned c1 @
            map (\<lambda>h. GoSendHandler (snd h) \<lparr>sc_Size = or_length res, sc_Err = or_err res\<rparr>) (cl_sendHandlers c1)\<rparr>)"

text \<open>The payload a receive handler gets: the first \<open>length\<close> bytes of the caller's buffer, or zeros.\<close>

definition receive_payload :: "receiveMeta option \<Rightarrow> nat \<Rightarrow> 'p world \<Rightarrow> byte list" where
  "receive_payload meta n w =
     (if n = 0 then []
      else
        (case meta of
           Some m \<Rightarrow> if n \<le> sl_len (rm_buffer m) then slice_bytes \<lparr>sl_loc = sl_loc (rm_buffer m), sl_len = n\<rparr> w
                     else replicate n 0
         | None \<Rightarrow> replicate n 0))"

definition emit_receive ::
  "fi_hdr \<Rightarrow> (errno \<Rightarrow> string) \<Rightarrow> receiveMeta option \<Rightarrow> operationResult \<Rightarrow> 'p client \<Rightarrow> 'p client" where
  "emit_receive H strerror meta res c =
     (let c1 = (case or_err res of
                  Some e \<Rightarrow>
                    tell (logf (cl_obs c) (''client: receive errored: '' @ error_text H strerror e))
                      (c\<lparr>cl_stats := (cl_stats c)\<lparr>st_ReceiveErrored := st_ReceiveErrored (cl_stats c) + 1\<rparr>\<rparr>)
                | None \<Rightarrow> c\<lparr>cl_stats := (cl_stats c)\<lparr>st_ReceiveMatched := st_ReceiveMatched (cl_stats c) + 1\<rparr>\<rparr>);
          source = (case meta of None \<Rightarrow> 0 | Some m \<Rightarrow> rm_source m)
      in if cl_receiveHandlers c1 = [] then c1
         else
           let c2 = c1\<lparr>cl_spawned := cl_spawned c1 @
                 map (\<lambda>h. GoReceiveHandler (snd h)
                        \<lparr>rc_Payload = receive_payload meta (or_length res) (cl_world c1), rc_Source = source,
                         rc_Err = or_err res\<rparr>) (cl_receiveHandlers c1)\<rparr>
           in if or_err res = None
              then tell (logf (cl_obs c2) (''client: receive completed size='' @ show_nat (or_length res) @
                     '' source='' @ show_nat (unat source))) c2
              else c2)"

definition emit ::
  "fi_hdr \<Rightarrow> (errno \<Rightarrow> string) \<Rightarrow> operation \<Rightarrow> operationResult \<Rightarrow> 'p client \<Rightarrow> 'p client" where
  "emit H strerror op res c =
     (case op_kind op of
        OperationSend \<Rightarrow> emit_send H strerror res c
      | OperationReceive \<Rightarrow> emit_receive H strerror (op_meta op) res c)"

text \<open>
  \<open>complete\<close>, once per operation: store the result, count and notify handlers, run the release,
  close \<open>done\<close>, start the callbacks.
\<close>

definition upd_op :: "nat \<Rightarrow> (operation \<Rightarrow> operation) \<Rightarrow> 'p client \<Rightarrow> 'p client" where
  "upd_op i f c = (if i < length (cl_ops c) then c\<lparr>cl_ops := (cl_ops c)[i := f (cl_ops c ! i)]\<rparr> else c)"

definition complete ::
  "'p cenv \<Rightarrow> (errno \<Rightarrow> string) \<Rightarrow> nat \<Rightarrow> operationResult \<Rightarrow> 'p client \<Rightarrow> 'p client" where
  "complete E strerror i res c =
     (if length (cl_ops c) \<le> i then c
      else
        let op = cl_ops c ! i
        in if op_once op then c
           else
             let c1 = upd_op i (\<lambda>x. x\<lparr>op_once := True, op_result := res, op_completed := True, op_callbacks := []\<rparr>) c;
                 c2 = emit (hdr E) strerror op res c1;
                 c3 = run_release E (op_release op) c2;
                 c4 = upd_op i (\<lambda>x. x\<lparr>op_done := True\<rparr>) c3
             in c4\<lparr>cl_spawned := cl_spawned c4 @ map (\<lambda>f. GoCallback i f res) (op_callbacks op)\<rparr>)"

definition addCallback :: "nat \<Rightarrow> nat option \<Rightarrow> 'p client \<Rightarrow> 'p client" where
  "addCallback i cb c =
     (case cb of
        None \<Rightarrow> c
      | Some f \<Rightarrow>
          if length (cl_ops c) \<le> i then c
          else if op_completed (cl_ops c ! i)
          then c\<lparr>cl_spawned := cl_spawned c @ [GoCallback i f (op_result (cl_ops c ! i))]\<rparr>
          else upd_op i (\<lambda>x. x\<lparr>op_callbacks := op_callbacks x @ [f]\<rparr>) c)"

section \<open>Futures\<close>

text \<open>
  \<open>Await\<close> of a future at one moment: \<open>done\<close> is closed or not, the caller's context is done with an
  error or not, and when both are, \<open>pick\<close> is the choice of the \<open>select\<close> (\<open>True\<close>: the context).
  \<open>None\<close>: it blocks.
\<close>

definition op_result_of :: "nat \<Rightarrow> 'p client \<Rightarrow> operationResult option" where
  "op_result_of i c =
     (if i < length (cl_ops c) \<and> op_done (cl_ops c ! i) then Some (op_result (cl_ops c ! i)) else None)"

definition await :: "nat \<Rightarrow> ctxerr option \<Rightarrow> bool \<Rightarrow> 'p client \<Rightarrow> (ctxerr + operationResult) option" where
  "await i ctx pick c =
     (case (ctx, op_result_of i c) of
        (None, None) \<Rightarrow> None
      | (None, Some r) \<Rightarrow> Some (Inr r)
      | (Some e, None) \<Rightarrow> Some (Inl e)
      | (Some e, Some r) \<Rightarrow>
          if pick then (case op_result_of i c of Some r' \<Rightarrow> Some (Inr r') | None \<Rightarrow> Some (Inl e))
          else Some (Inr r))"

definition SendFuture_Await ::
  "nat option \<Rightarrow> ctxerr option \<Rightarrow> bool \<Rightarrow> 'p client \<Rightarrow> goerr option option" where
  "SendFuture_Await f ctx pick c =
     (case f of
        None \<Rightarrow> Some (Some (Msg ''libfabric client: nil send future''))
      | Some i \<Rightarrow> map_option (\<lambda>r. case r of Inl e \<Rightarrow> Some (CtxErr e) | Inr res \<Rightarrow> or_err res) (await i ctx pick c))"

definition ReceiveFuture_Await ::
  "nat option \<Rightarrow> ctxerr option \<Rightarrow> bool \<Rightarrow> 'p client \<Rightarrow> (nat \<times> goerr option) option" where
  "ReceiveFuture_Await f ctx pick c =
     (case f of
        None \<Rightarrow> Some (0, Some (Msg ''libfabric client: nil receive future''))
      | Some i \<Rightarrow> map_option (\<lambda>r. case r of Inl e \<Rightarrow> (0, Some (CtxErr e)) | Inr res \<Rightarrow> (or_length res, or_err res))
          (await i ctx pick c))"

text \<open>\<open>Done\<close> of both futures: whether the channel it returns is closed; nil for a nil future.\<close>

definition future_Done :: "nat option \<Rightarrow> 'p client \<Rightarrow> bool option" where
  "future_Done f c = (case f of None \<Rightarrow> None | Some i \<Rightarrow> Some (i < length (cl_ops c) \<and> op_done (cl_ops c ! i)))"

definition future_OnComplete :: "nat option \<Rightarrow> nat option \<Rightarrow> 'p client \<Rightarrow> 'p client" where
  "future_OnComplete f fn c = (case f of None \<Rightarrow> c | Some i \<Rightarrow> addCallback i fn c)"

definition future_meta :: "nat option \<Rightarrow> 'p client \<Rightarrow> receiveMeta option" where
  "future_meta f c =
     (case f of None \<Rightarrow> None | Some i \<Rightarrow> if i < length (cl_ops c) then op_meta (cl_ops c ! i) else None)"

definition ReceiveFuture_Buffer :: "nat option \<Rightarrow> 'p client \<Rightarrow> slice" where
  "ReceiveFuture_Buffer f c = (case future_meta f c of None \<Rightarrow> nil_slice | Some m \<Rightarrow> rm_buffer m)"

definition ReceiveFuture_Source :: "nat option \<Rightarrow> 'p client \<Rightarrow> uint64" where
  "ReceiveFuture_Source f c = (case future_meta f c of None \<Rightarrow> 0 | Some m \<Rightarrow> rm_source m)"

section \<open>Guards and addresses\<close>

definition ensureOpen :: "'p client option \<Rightarrow> goerr option" where
  "ensureOpen c = (case c of None \<Rightarrow> Some (Sentinel ErrClosed) | Some x \<Rightarrow> if cl_closed x then Some (Sentinel ErrClosed) else None)"

definition dispatchFailure :: "'p client \<Rightarrow> goerr option" where
  "dispatchFailure c = map_option (Wrap ''libfabric client dispatcher failed'') (cl_dispatcherErr c)"

definition defaultDestination :: "fi_hdr \<Rightarrow> 'p client \<Rightarrow> uint64 result" where
  "defaultDestination H c =
     (let t = cf_EndpointType (ob_cfg (cl_obs c))
      in if t = FI_EP_RDM H \<or> t = FI_EP_DGRAM H then
           (if \<not> cl_peerConfigured c then Inl (Msg ''libfabric client: destination address not configured'')
            else Inr (cl_peerAddr c))
         else Inr FIAddrUnspec)"

text \<open>
  \<open>operationContext\<close>: \<open>remaining\<close> is the time left until the deadline of the caller's context, if it
  has one; the result is the timeout the context is wrapped with, \<open>None\<close> when it is used as it is.
\<close>

definition operationContext :: "Config \<Rightarrow> int option \<Rightarrow> int option" where
  "operationContext cfg remaining =
     (let timeout = cf_Timeout cfg
      in case remaining of
           Some r \<Rightarrow>
             if r \<le> 0 then None
             else if timeout \<le> 0 \<or> r < timeout then None
             else (let timeout = r in if timeout \<le> 0 then None else Some timeout)
         | None \<Rightarrow> if timeout \<le> 0 then None else Some timeout)"

section \<open>Preparing requests\<close>

definition in_pool :: "('p cenv \<Rightarrow> mrpool \<Rightarrow> 'p world \<Rightarrow> ('a \<times> mrpool) \<times> 'p world) \<Rightarrow> 'p cenv \<Rightarrow> mrpool \<Rightarrow> 'p client \<Rightarrow> 'a \<times> 'p client" where
  "in_pool m E p c = (case m E p (cl_world c) of ((a, p'), w) \<Rightarrow> (a, c\<lparr>cl_mrPool := Some p', cl_world := w\<rparr>))"

definition too_small :: "nat \<Rightarrow> nat \<Rightarrow> goerr" where
  "too_small have_n want =
     Msg (''libfabric client: MR pool region too small (have '' @ show_nat have_n @ '' want '' @ show_nat want @ '')'')"

definition prepareSend ::
  "'p cenv \<Rightarrow> slice \<Rightarrow> uint64 \<Rightarrow> 'p client \<Rightarrow> (SendRequest \<times> release_fn option) result \<times> 'p client" where
  "prepareSend E payload dest c =
     (let t = cf_EndpointType (ob_cfg (cl_obs c)); n = sl_len payload
      in if n = 0 then (Inl (Msg ''libfabric client: empty payload''), c)
         else if (t = FI_EP_RDM (hdr E) \<or> t = FI_EP_DGRAM (hdr E)) \<and> dest = FIAddrUnspec
         then (Inl (Msg ''libfabric client: destination address required''), c)
         else
           let d = (if t = FI_EP_MSG (hdr E) then FIAddrUnspec else dest);
               req = (\<lambda>buf reg. \<lparr>sr_Buffer = buf, sr_Dest = d, sr_Flags = 0, sr_Context = None, sr_Region = reg\<rparr>);
               plain = (\<lambda>c.
                 if cl_requiresMR c then
                   try_act (in_world (RegisterMemory E (cl_domain c) payload (cl_mrAccess c)))
                     (\<lambda>e c. (Inl e, c))
                     (\<lambda>r c. (Inr (req \<lparr>sl_loc = sl_loc (region_Bytes r (cl_world c)), sl_len = n\<rparr> (Some r),
                                  Some (RelRegion r)), c)) c
                 else (Inr (req payload None, None), c))
           in case cl_mrPool c of
                None \<Rightarrow> plain c
              | Some p \<Rightarrow>
                  if int n \<le> mp_size p then
                    try_act (in_pool Acquire E p) (\<lambda>e c. (Inl e, c))
                      (\<lambda>r c.
                         let buf = region_Bytes r (cl_world c)
                         in if sl_len buf < n
                            then (Inl (too_small (sl_len buf) n), run_release E (Some (RelPool r)) c)
                            else (Inr (req \<lparr>sl_loc = sl_loc buf, sl_len = n\<rparr> (Some r), Some (RelPool r)),
                                  c\<lparr>cl_world := Memcpy (sl_loc buf) (sl_loc payload) n (cl_world c)\<rparr>)) c
                  else plain c)"

definition prepareReceive ::
  "'p cenv \<Rightarrow> slice \<Rightarrow> 'p client \<Rightarrow> (RecvRequest \<times> release_fn option) result \<times> 'p client" where
  "prepareReceive E buf c =
     (let n = sl_len buf;
          req = (\<lambda>reg. \<lparr>rr_Buffer = buf, rr_Source = 0, rr_Flags = 0, rr_Context = None, rr_Region = reg\<rparr>);
          plain = (\<lambda>c.
            if cl_requiresMR c then
              try_act (in_world (RegisterMemory E (cl_domain c) (zero_slice n) (cl_mrAccess c)))
                (\<lambda>e c. (Inl e, c))
                (\<lambda>r c. (Inr (req (Some r), Some (RelRegion r)), c)) c
            else (Inr (req None, None), c))
      in if n = 0 then (Inl (Msg ''libfabric client: buffer must be non-empty''), c)
         else
           case cl_mrPool c of
             None \<Rightarrow> plain c
           | Some p \<Rightarrow>
               if int n \<le> mp_size p then
                 try_act (in_pool Acquire E p) (\<lambda>e c. (Inl e, c))
                   (\<lambda>r c.
                      if region_Size r (cl_world c) < n
                      then (Inl (too_small (region_Size r (cl_world c)) n), run_release E (Some (RelPool r)) c)
                      else (Inr (req (Some r), Some (RelPool r)), c)) c
               else plain c)"

section \<open>Posting\<close>

text \<open>
  \<open>sendAsync\<close> and \<open>ReceiveAsync\<close> in two parts: everything up to and including the post, and the
  \<open>ctx.SetValue(op)\<close> that follows, between which the dispatcher may run. The operation joins
  \<open>cl_ops\<close> when the post has succeeded; before that nothing refers to it.
\<close>

definition sendAsync_post ::
  "'p cenv \<Rightarrow> (errno \<Rightarrow> string) \<Rightarrow> slice \<Rightarrow> uint64 \<Rightarrow> 'p client \<Rightarrow> (nat \<times> nat option) result \<times> 'p client" where
  "sendAsync_post E strerror payload dest c =
     (case ensureOpen (Some c) of
        Some e \<Rightarrow> (Inl e, c)
      | None \<Rightarrow>
          if sl_len payload = 0 then (Inl (Msg ''libfabric client: empty payload''), c)
          else
            (case dispatchFailure c of
               Some e \<Rightarrow> (Inl e, c)
             | None \<Rightarrow>
                 try_act (prepareSend E payload dest) (\<lambda>e c. (Inl e, c))
                   (\<lambda>(req, rel) c.
                      let posted = (if sl_len (sr_Buffer req) = 0
                                    then (case sr_Region req of None \<Rightarrow> 0 | Some r \<Rightarrow> region_Size r (cl_world c))
                                    else sl_len (sr_Buffer req));
                          op = (newOperation OperationSend posted None)\<lparr>op_release := rel\<rparr>
                      in try_act (in_world (PostSend E (cl_endpoint c) (Some req)))
                           (\<lambda>e c. (Inl (Wrap ''post send'' e), run_release E rel c))
                           (\<lambda>ctx c.
                              let i = length (cl_ops c);
                                  c1 = tell (logf (cl_obs c) (''client: send posted size='' @ show_nat posted @
                                         '' dest='' @ show_nat (unat dest)))
                                    (c\<lparr>cl_ops := cl_ops c @ [op],
                                       cl_stats := (cl_stats c)\<lparr>st_SendPosted := st_SendPosted (cl_stats c) + 1\<rparr>\<rparr>)
                              in case ctx of
                                   None \<Rightarrow> (Inr (i, None),
                                     complete E strerror i \<lparr>or_length = sl_len (sr_Buffer req), or_err = None\<rparr> c1)
                                 | Some x \<Rightarrow> (Inr (i, Some x), c1)) c) c))"

definition bind_op :: "nat \<Rightarrow> nat option \<Rightarrow> 'p client \<Rightarrow> 'p client" where
  "bind_op i ctx c =
     (case ctx of None \<Rightarrow> c | Some x \<Rightarrow> c\<lparr>cl_world := SetValue x (OpVal i) (cl_world c)\<rparr>)"

definition sendAsync ::
  "'p cenv \<Rightarrow> (errno \<Rightarrow> string) \<Rightarrow> slice \<Rightarrow> uint64 \<Rightarrow> 'p client \<Rightarrow> nat result \<times> 'p client" where
  "sendAsync E strerror payload dest =
     try_act (sendAsync_post E strerror payload dest) (\<lambda>e c. (Inl e, c)) (\<lambda>(i, ctx) c. (Inr i, bind_op i ctx c))"

definition ReceiveAsync_post ::
  "'p cenv \<Rightarrow> slice \<Rightarrow> 'p client \<Rightarrow> (nat \<times> nat option) result \<times> 'p client" where
  "ReceiveAsync_post E buf c =
     (case ensureOpen (Some c) of
        Some e \<Rightarrow> (Inl e, c)
      | None \<Rightarrow>
          if sl_len buf = 0 then (Inl (Msg ''libfabric client: buffer must be non-empty''), c)
          else
            (case dispatchFailure c of
               Some e \<Rightarrow> (Inl e, c)
             | None \<Rightarrow>
                 try_act (prepareReceive E buf) (\<lambda>e c. (Inl e, c))
                   (\<lambda>(req, rel) c.
                      let meta = \<lparr>rm_buffer = buf, rm_source = 0\<rparr>;
                          op = (newOperation OperationReceive (sl_len buf) (Some meta))\<lparr>op_release := rel\<rparr>;
                          reposted = (case rr_Region req of
                                        Some r \<Rightarrow> if sl_len buf = 0 then region_Size r (cl_world c) else sl_len buf
                                      | None \<Rightarrow> sl_len buf)
                      in try_act (in_world (PostRecv E (cl_endpoint c) (Some req)))
                           (\<lambda>e c. (Inl (Wrap ''post recv'' e), run_release E rel c))
                           (\<lambda>ctx c.
                              (Inr (length (cl_ops c), ctx),
                               tell (logf (cl_obs c) (''client: receive posted size='' @ show_nat reposted))
                                 (c\<lparr>cl_ops := cl_ops c @ [op],
                                    cl_stats := (cl_stats c)\<lparr>st_ReceivePosted := st_ReceivePosted (cl_stats c) + 1\<rparr>\<rparr>))) c) c))"

definition ReceiveAsync :: "'p cenv \<Rightarrow> slice \<Rightarrow> 'p client \<Rightarrow> nat result \<times> 'p client" where
  "ReceiveAsync E buf =
     try_act (ReceiveAsync_post E buf) (\<lambda>e c. (Inl e, c)) (\<lambda>(i, ctx) c. (Inr i, bind_op i ctx c))"

definition SendAsync :: "'p cenv \<Rightarrow> (errno \<Rightarrow> string) \<Rightarrow> slice \<Rightarrow> 'p client \<Rightarrow> nat result \<times> 'p client" where
  "SendAsync E strerror payload c =
     (case defaultDestination (hdr E) c of
        Inl e \<Rightarrow> (Inl e, c)
      | Inr dest \<Rightarrow> sendAsync E strerror payload dest c)"

definition SendToAsync :: "'p cenv \<Rightarrow> (errno \<Rightarrow> string) \<Rightarrow> slice \<Rightarrow> uint64 \<Rightarrow> 'p client \<Rightarrow> nat result \<times> 'p client" where
  "SendToAsync E strerror payload dest = sendAsync E strerror payload dest"

text \<open>
  The blocking calls up to their \<open>Await\<close>; \<open>ctx\<close> is the error of the operation context at entry.
  What they return afterwards is \<open>SendFuture_Await\<close>, or \<open>ReceiveFrom_result\<close> of the future.
\<close>

definition Send :: "'p cenv \<Rightarrow> (errno \<Rightarrow> string) \<Rightarrow> ctxerr option \<Rightarrow> slice \<Rightarrow> 'p client \<Rightarrow> nat result \<times> 'p client" where
  "Send E strerror ctx payload c =
     (case ctx of Some e \<Rightarrow> (Inl (CtxErr e), c) | None \<Rightarrow> SendAsync E strerror payload c)"

definition SendTo :: "'p cenv \<Rightarrow> (errno \<Rightarrow> string) \<Rightarrow> ctxerr option \<Rightarrow> uint64 \<Rightarrow> slice \<Rightarrow> 'p client \<Rightarrow> nat result \<times> 'p client" where
  "SendTo E strerror ctx dest payload c =
     (case ctx of Some e \<Rightarrow> (Inl (CtxErr e), c) | None \<Rightarrow> sendAsync E strerror payload dest c)"

definition ReceiveFrom :: "'p cenv \<Rightarrow> ctxerr option \<Rightarrow> slice \<Rightarrow> 'p client \<Rightarrow> nat result \<times> 'p client" where
  "ReceiveFrom E ctx buf c =
     (case ctx of Some e \<Rightarrow> (Inl (CtxErr e), c) | None \<Rightarrow> ReceiveAsync E buf c)"

definition ReceiveFrom_result ::
  "nat \<Rightarrow> ctxerr option \<Rightarrow> bool \<Rightarrow> 'p client \<Rightarrow> (nat \<times> uint64 \<times> goerr option) option" where
  "ReceiveFrom_result i ctx pick c =
     map_option (\<lambda>(n, e). case e of Some x \<Rightarrow> (0, 0, Some x) | None \<Rightarrow> (n, ReceiveFuture_Source (Some i) c, None))
       (ReceiveFuture_Await (Some i) ctx pick c)"

definition Receive_result :: "nat \<Rightarrow> ctxerr option \<Rightarrow> bool \<Rightarrow> 'p client \<Rightarrow> (nat \<times> goerr option) option" where
  "Receive_result i ctx pick c = map_option (\<lambda>(n, s, e). (n, e)) (ReceiveFrom_result i ctx pick c)"

section \<open>Addresses, handlers, counters\<close>

definition LocalAddress :: "'p cenv \<Rightarrow> 'p client option \<Rightarrow> byte list result \<times> 'p client option" where
  "LocalAddress E c =
     (case c of
        None \<Rightarrow> (Inl (Sentinel ErrClosed), None)
      | Some x \<Rightarrow>
          (case ensureOpen (Some x) of
             Some e \<Rightarrow> (Inl e, c)
           | None \<Rightarrow>
               if cl_selfRaw x \<noteq> [] then (Inr (cl_selfRaw x), c)
               else (case in_world (Endpoint_Name E (cl_endpoint x)) x of (r, x') \<Rightarrow> (r, Some x'))))"

definition RegisterPeer :: "'p cenv \<Rightarrow> byte list \<Rightarrow> bool \<Rightarrow> 'p client \<Rightarrow> uint64 result \<times> 'p client" where
  "RegisterPeer E addr setDefault c =
     (case ensureOpen (Some c) of
        Some e \<Rightarrow> (Inl e, c)
      | None \<Rightarrow>
          (case cl_av c of
             None \<Rightarrow> (Inl (Msg ''libfabric client: address vector unavailable for this endpoint type''), c)
           | Some av \<Rightarrow>
               if addr = [] then (Inl (Msg ''libfabric client: peer address must be non-empty''), c)
               else
                 try_act (in_world (InsertRaw E av addr 0)) (\<lambda>e c. (Inl e, c))
                   (\<lambda>a c. (Inr a, if setDefault then c\<lparr>cl_peerAddr := a, cl_peerConfigured := True\<rparr> else c)) c))"

definition SetDefaultPeer :: "uint64 \<Rightarrow> 'p client \<Rightarrow> 'p client" where
  "SetDefaultPeer a c = c\<lparr>cl_peerAddr := a, cl_peerConfigured := True\<rparr>"

definition DefaultPeer :: "'p client option \<Rightarrow> uint64" where
  "DefaultPeer c = (case c of None \<Rightarrow> 0 | Some x \<Rightarrow> cl_peerAddr x)"

definition Client_Stats :: "'p client option \<Rightarrow> Stats" where
  "Client_Stats c =
     (case c of
        None \<Rightarrow> \<lparr>st_SendPosted = 0, st_SendCompleted = 0, st_SendErrored = 0, st_ReceivePosted = 0,
                 st_ReceiveMatched = 0, st_ReceiveErrored = 0\<rparr>
      | Some x \<Rightarrow> cl_stats x)"

text \<open>Registration returns the id whose removal is the returned closure; \<open>None\<close> is the no-op closure.\<close>

definition RegisterSendHandler :: "nat option \<Rightarrow> 'p client \<Rightarrow> uint64 option \<times> 'p client" where
  "RegisterSendHandler h c =
     (case h of
        None \<Rightarrow> (None, c)
      | Some f \<Rightarrow>
          (let hid = cl_handlerSeq c + 1
           in (Some hid, c\<lparr>cl_handlerSeq := hid, cl_sendHandlers := AList.update hid f (cl_sendHandlers c)\<rparr>)))"

definition UnregisterSendHandler :: "uint64 option \<Rightarrow> 'p client \<Rightarrow> 'p client" where
  "UnregisterSendHandler hid c =
     (case hid of None \<Rightarrow> c | Some i \<Rightarrow> c\<lparr>cl_sendHandlers := AList.delete i (cl_sendHandlers c)\<rparr>)"

definition RegisterReceiveHandler :: "nat option \<Rightarrow> 'p client \<Rightarrow> uint64 option \<times> 'p client" where
  "RegisterReceiveHandler h c =
     (case h of
        None \<Rightarrow> (None, c)
      | Some f \<Rightarrow>
          (let hid = cl_handlerSeq c + 1
           in (Some hid, c\<lparr>cl_handlerSeq := hid, cl_receiveHandlers := AList.update hid f (cl_receiveHandlers c)\<rparr>)))"

definition UnregisterReceiveHandler :: "uint64 option \<Rightarrow> 'p client \<Rightarrow> 'p client" where
  "UnregisterReceiveHandler hid c =
     (case hid of None \<Rightarrow> c | Some i \<Rightarrow> c\<lparr>cl_receiveHandlers := AList.delete i (cl_receiveHandlers c)\<rparr>)"

section \<open>The dispatcher\<close>

definition logOperationCompletion ::
  "fi_hdr \<Rightarrow> (errno \<Rightarrow> string) \<Rightarrow> observers \<Rightarrow> nat option \<Rightarrow> operation \<Rightarrow> operationResult \<Rightarrow>
   CompletionEvent option \<Rightarrow> CQError option \<Rightarrow> tele list" where
  "logOperationCompletion H strerror ob span op res event entry =
     (let ok = (or_err res = None);
          name = (if ok then ''completion'' else ''completion_error'');
          f1 = [(''operation'', FStr (OperationKind_String (op_kind op))),
                (''status'', FStr (if ok then ''ok'' else ''error''))];
          f2 = (if 0 < op_size op then [(''requested_size'', FInt (int (op_size op)))] else []);
          f3 = (if 0 < or_length res then [(''length'', FInt (int (or_length res)))] else []);
          f4 = (case event of Some ev \<Rightarrow> if ev_Source ev \<noteq> 0 then [(''source'', FUint (ev_Source ev))] else [] | None \<Rightarrow> []);
          f5 = (case entry of
                  None \<Rightarrow> []
                | Some en \<Rightarrow>
                    [(''errno'', FErr (Errno (cqe_Err en))), (''provider_err'', FInt (cqe_ProviderErr en)),
                     (''flags'', FStr (''0x'' @ show_hex (unat (cqe_Flags en)))), (''provider_length'', FUint (cqe_Length en)),
                     (''provider_data'', FUint (cqe_Data en)), (''provider_tag'', FUint (cqe_Tag en))] @
                    (if cqe_SrcAddr en \<noteq> 0 then [(''source'', FUint (cqe_SrcAddr en))] else []));
          f6 = (case or_err res of Some e \<Rightarrow> [(''error'', FErr e)] | None \<Rightarrow> []);
          fs = f1 @ f2 @ f3 @ f4 @ f5 @ f6
      in logDispatcherEvent H strerror ob name fs @ spanAddEvent span name fs @ spanRecordError span (or_err res) @
         (case op_kind op of
            OperationSend \<Rightarrow>
              (case or_err res of Some e \<Rightarrow> send_metric H strerror ob (SendFailed e) fs
               | None \<Rightarrow> send_metric H strerror ob SendCompleted fs)
          | OperationReceive \<Rightarrow>
              (case or_err res of Some e \<Rightarrow> send_metric H strerror ob (ReceiveFailed e) fs
               | None \<Rightarrow> send_metric H strerror ob ReceiveCompleted fs)))"

text \<open>
  \<open>handleCompletion\<close> for an event or an error entry. Completions of contexts this client does not
  know, or whose value is not one of its operations, are dropped.
\<close>

definition set_source :: "uint64 \<Rightarrow> operation \<Rightarrow> operation" where
  "set_source s op =
     (if op_kind op = OperationReceive
      then op\<lparr>op_meta := map_option (\<lambda>m. m\<lparr>rm_source := s\<rparr>) (op_meta op)\<rparr> else op)"

definition finish_completion ::
  "'p cenv \<Rightarrow> (errno \<Rightarrow> string) \<Rightarrow> nat option \<Rightarrow> CompletionEvent option \<Rightarrow> CQError option \<Rightarrow> nat \<Rightarrow>
   'p client \<Rightarrow> 'p client" where
  "finish_completion E strerror span event entry x c =
     (case Value x (cl_world c) of
        OpVal i \<Rightarrow>
          if length (cl_ops c) \<le> i then c
          else
            let source = (case event of Some ev \<Rightarrow> ev_Source ev
                          | None \<Rightarrow> (case entry of Some en \<Rightarrow> cqe_SrcAddr en | None \<Rightarrow> 0));
                c1 = upd_op i (set_source source) c;
                op = cl_ops c1 ! i;
                res = \<lparr>or_length = op_size op,
                       or_err = map_option (\<lambda>en. OperationError
                         \<lparr>oe_Kind = op_kind op, oe_Errno = cqe_Err en, oe_ProviderErr = cqe_ProviderErr en,
                          oe_Flags = cqe_Flags en, oe_Length = cqe_Length en, oe_Data = cqe_Data en, oe_Tag = cqe_Tag en\<rparr>) entry\<rparr>
            in complete E strerror i res
                 (tell (logOperationCompletion (hdr E) strerror (cl_obs c1) span op res event entry) c1)
      | _ \<Rightarrow> c)"

definition handleCompletion ::
  "'p cenv \<Rightarrow> (errno \<Rightarrow> string) \<Rightarrow> CompletionEvent option \<Rightarrow> CQError option \<Rightarrow> nat option \<Rightarrow> 'p client \<Rightarrow> 'p client" where
  "handleCompletion E strerror event entry span c =
     (case (event, entry) of
        (Some ev, _) \<Rightarrow>
          (case in_world (CompletionEvent_Resolve (Some ev)) c of
             (Inl e, c1) \<Rightarrow> c1
           | (Inr x, c1) \<Rightarrow> finish_completion E strerror span event entry x c1)
      | (None, Some en) \<Rightarrow>
          (case in_world (CompletionError_Resolve (Some en)) c of
             (Inl e, c1) \<Rightarrow> c1
           | (Inr x, c1) \<Rightarrow> finish_completion E strerror span event entry x c1)
      | (None, None) \<Rightarrow> c)"

definition recordDispatcherError :: "goerr option \<Rightarrow> 'p client \<Rightarrow> 'p client" where
  "recordDispatcherError err c =
     (case err of
        None \<Rightarrow> c
      | Some e \<Rightarrow> if cl_dispatcherErr c = None then c\<lparr>cl_dispatcherErr := Some e\<rparr> else c)"

definition dispatcherError :: "'p client option \<Rightarrow> goerr option" where
  "dispatcherError c = (case c of None \<Rightarrow> None | Some x \<Rightarrow> cl_dispatcherErr x)"

text \<open>
  One iteration of the dispatcher's loop after its test of \<open>stopCh\<close>. The result says whether a
  completion was handled (then the loop starts over with the initial backoff).
\<close>

definition note_failure ::
  "'p cenv \<Rightarrow> (errno \<Rightarrow> string) \<Rightarrow> nat option \<Rightarrow> string \<Rightarrow> string \<Rightarrow> goerr \<Rightarrow> 'p client \<Rightarrow> 'p client" where
  "note_failure E strerror span event what err c =
     (if errors_Is err (Sentinel ErrNoCompletion) then c
      else
        let e = Wrap what err
        in recordDispatcherError (Some e) (tell (recordDispatcherFailure (hdr E) strerror (cl_obs c) span event (Some e)) c))"

definition dispatch_poll ::
  "'p cenv \<Rightarrow> (errno \<Rightarrow> string) \<Rightarrow> nat option \<Rightarrow> 'p client \<Rightarrow> bool \<times> 'p client" where
  "dispatch_poll E strerror span c =
     (case in_world (CQ_ReadContext E (cl_cq c)) c of
        (Inr event, c1) \<Rightarrow> (True, handleCompletion E strerror (Some event) None span c1)
      | (Inl err, c1) \<Rightarrow>
          (case in_world (CQ_ReadError E (cl_cq c) 0) (note_failure E strerror span ''cq_read_error'' ''cq read'' err c1) of
             (Inr entry, c2) \<Rightarrow> (True, handleCompletion E strerror None (Some entry) span c2)
           | (Inl err2, c2) \<Rightarrow> (False, note_failure E strerror span ''cq_readerr_error'' ''cq readerr'' err2 c2)))"

text \<open>The wait between polls, in milliseconds.\<close>

definition next_backoff :: "bool \<Rightarrow> nat \<Rightarrow> nat" where
  "next_backoff handled b = (if handled then 1 else if b < 10 then 2 * b else b)"

text \<open>
  The loop: \<open>stop k\<close> tells whether \<open>stopCh\<close> is closed when it is tested for the \<open>k\<close>-th time. The result
  is the client at the return, before the deferred functions; \<open>None\<close> when it has not returned yet.
\<close>

fun dispatch_loop ::
  "nat \<Rightarrow> 'p cenv \<Rightarrow> (errno \<Rightarrow> string) \<Rightarrow> nat option \<Rightarrow> (nat \<Rightarrow> bool) \<Rightarrow> nat \<Rightarrow> nat \<Rightarrow> 'p client \<Rightarrow> 'p client option" where
  "dispatch_loop 0 E strerror span stop k b c = None"
| "dispatch_loop (Suc fuel) E strerror span stop k b c =
     (if stop k then Some c
      else
        (case dispatch_poll E strerror span c of
           (True, c1) \<Rightarrow> dispatch_loop fuel E strerror span stop (Suc k) (next_backoff True b) c1
         | (False, c1) \<Rightarrow>
             if stop (Suc k) then Some c1
             else dispatch_loop fuel E strerror span stop (Suc (Suc k)) (next_backoff False b) c1))"

definition dispatch ::
  "nat \<Rightarrow> 'p cenv \<Rightarrow> (errno \<Rightarrow> string) \<Rightarrow> (nat \<Rightarrow> bool) \<Rightarrow> 'p client \<Rightarrow> 'p client option" where
  "dispatch fuel E strerror stop c =
     (case dispatch_started (hdr E) strerror (cl_obs c) of
        (span, ts) \<Rightarrow>
          map_option (\<lambda>c1. tell (dispatch_stopped (hdr E) strerror (cl_obs c1) span (cl_dispatcherErr c1)) c1)
            (dispatch_loop fuel E strerror span stop 0 1 (tell ts c)))"

text \<open>
  \<open>Close\<close>: once; stop the dispatcher and wait for it (its last state is this one), forget the handlers,
  then close the pool, the address vector, and what the client owns, in this order.
\<close>

definition Client_Close :: "'p cenv \<Rightarrow> 'p client \<Rightarrow> 'p client" where
  "Client_Close E c =
     (if cl_closed c then c
      else
        let c1 = c\<lparr>cl_closed := True, cl_stopped := True, cl_sendHandlers := [], cl_receiveHandlers := []\<rparr>;
            c2 = (case cl_mrPool c1 of
                    None \<Rightarrow> c1
                  | Some p \<Rightarrow> (case Pool_Close E p (cl_world c1) of (p', w) \<Rightarrow> c1\<lparr>cl_mrPool := Some p', cl_world := w\<rparr>));
            w2 = cl_world c2;
            w3 = (case cl_av c of None \<Rightarrow> w2 | Some a \<Rightarrow> snd (AV_Close E a w2));
            w4 = (if cl_ownEndpoint c then snd (Endpoint_Close E (cl_endpoint c) w3) else w3);
            w5 = (if cl_ownCompletion c then snd (CQ_Close E (cl_cq c) w4) else w4);
            w6 = (case cl_eq c of None \<Rightarrow> w5 | Some q \<Rightarrow> if cl_ownEventQueue c then snd (EQ_Close E q w5) else w5);
            w7 = (if cl_ownDomain c then snd (Domain_Close E (cl_domain c) w6) else w6);
            w8 = (if cl_ownFabric c then snd (Fabric_Close E (cl_fabric c) w7) else w7)
        in c2\<lparr>cl_world := w8\<rparr>)"

end
