(* ===== verification/Client_Life.thy ===== *)
theory Client_Life
  imports Client
begin

text \<open>
  The operations of a client as a small state machine, and the refinement of the client to it.

  The abstract state is what futures, callbacks and counters can see: the operations, the
  statistics, the goroutines started, and (a ghost) the callbacks registered. The client's methods
  and its dispatcher, interleaved at any granularity the code has, only ever post, complete and
  observe operations.
\<close>

section \<open>The abstract machine\<close>

record ops_state =
  os_ops :: "operation list"
  os_stats :: Stats
  os_spawned :: "spawn list"
  os_reg :: "(nat \<times> nat) list"

definition finished :: "operationResult \<Rightarrow> operation \<Rightarrow> operation" where
  "finished res op = op\<lparr>op_once := True, op_result := res, op_completed := True, op_callbacks := [], op_done := True\<rparr>"

definition fresh_op :: "operation \<Rightarrow> bool" where
  "fresh_op op \<longleftrightarrow> \<not> op_once op \<and> \<not> op_completed op \<and> \<not> op_done op \<and> op_callbacks op = []"

definition post_stat :: "OperationKind \<Rightarrow> Stats \<Rightarrow> Stats" where
  "post_stat k s =
     (case k of
        OperationSend \<Rightarrow> s\<lparr>st_SendPosted := st_SendPosted s + 1\<rparr>
      | OperationReceive \<Rightarrow> s\<lparr>st_ReceivePosted := st_ReceivePosted s + 1\<rparr>)"

definition done_stat :: "OperationKind \<Rightarrow> operationResult \<Rightarrow> Stats \<Rightarrow> Stats" where
  "done_stat k res s =
     (case (k, or_err res) of
        (OperationSend, None) \<Rightarrow> s\<lparr>st_SendCompleted := st_SendCompleted s + 1\<rparr>
      | (OperationSend, Some _) \<Rightarrow> s\<lparr>st_SendErrored := st_SendErrored s + 1\<rparr>
      | (OperationReceive, None) \<Rightarrow> s\<lparr>st_ReceiveMatched := st_ReceiveMatched s + 1\<rparr>
      | (OperationReceive, Some _) \<Rightarrow> s\<lparr>st_ReceiveErrored := st_ReceiveErrored s + 1\<rparr>)"

fun of_callback :: "spawn \<Rightarrow> (nat \<times> nat) option" where
  "of_callback (GoCallback i f r) = Some (i, f)"
| "of_callback _ = None"

inductive ops_step :: "ops_state \<Rightarrow> ops_state \<Rightarrow> bool" where
  os_post: "fresh_op op \<Longrightarrow>
    ops_step s (s\<lparr>os_ops := os_ops s @ [op], os_stats := post_stat (op_kind op) (os_stats s)\<rparr>)"
| os_source: "i < length (os_ops s) \<Longrightarrow> ops_step s (s\<lparr>os_ops := (os_ops s)[i := set_source a (os_ops s ! i)]\<rparr>)"
| os_complete: "i < length (os_ops s) \<Longrightarrow> \<not> op_once (os_ops s ! i) \<Longrightarrow>
    or_length res = op_size (os_ops s ! i) \<Longrightarrow> (\<And>h. h \<in> set hs \<Longrightarrow> of_callback h = None) \<Longrightarrow>
    ops_step s (s\<lparr>os_ops := (os_ops s)[i := finished res (os_ops s ! i)],
      os_stats := done_stat (op_kind (os_ops s ! i)) res (os_stats s),
      os_spawned := os_spawned s @ hs @ map (\<lambda>f. GoCallback i f res) (op_callbacks (os_ops s ! i))\<rparr>)"
| os_register: "i < length (os_ops s) \<Longrightarrow> \<not> op_completed (os_ops s ! i) \<Longrightarrow>
    ops_step s (s\<lparr>os_ops := (os_ops s)[i := (os_ops s ! i)\<lparr>op_callbacks := op_callbacks (os_ops s ! i) @ [f]\<rparr>],
      os_reg := os_reg s @ [(i, f)]\<rparr>)"
| os_late: "i < length (os_ops s) \<Longrightarrow> op_completed (os_ops s ! i) \<Longrightarrow>
    ops_step s (s\<lparr>os_spawned := os_spawned s @ [GoCallback i f (op_result (os_ops s ! i))], os_reg := os_reg s @ [(i, f)]\<rparr>)"

inductive_cases ops_stepE: "ops_step s t"

section \<open>Its invariant\<close>

definition count_ops :: "(operation \<Rightarrow> bool) \<Rightarrow> operation list \<Rightarrow> nat" where
  "count_ops P ops = length (filter P ops)"

lemma count_ops_simps [simp]:
  "count_ops P [] = 0"
  "count_ops P (ops @ [op]) = count_ops P ops + (if P op then 1 else 0)"
  by (simp_all add: count_ops_def)

lemma count_ops_update:
  "i < length ops \<Longrightarrow>
    count_ops P (ops[i := x]) + (if P (ops ! i) then 1 else 0) = count_ops P ops + (if P x then 1 else 0)"
proof (induction ops arbitrary: i)
  case (Cons a ops)
  then show ?case by (cases i) (auto simp: count_ops_def)
qed simp

definition is_kind :: "OperationKind \<Rightarrow> operation \<Rightarrow> bool" where
  "is_kind k op \<longleftrightarrow> op_kind op = k"

definition ended :: "OperationKind \<Rightarrow> bool \<Rightarrow> operation \<Rightarrow> bool" where
  "ended k ok op \<longleftrightarrow> op_kind op = k \<and> op_completed op \<and> (or_err (op_result op) = None) = ok"

definition counted :: "operation list \<Rightarrow> Stats" where
  "counted ops =
     \<lparr>st_SendPosted = of_nat (count_ops (is_kind OperationSend) ops),
      st_SendCompleted = of_nat (count_ops (ended OperationSend True) ops),
      st_SendErrored = of_nat (count_ops (ended OperationSend False) ops),
      st_ReceivePosted = of_nat (count_ops (is_kind OperationReceive) ops),
      st_ReceiveMatched = of_nat (count_ops (ended OperationReceive True) ops),
      st_ReceiveErrored = of_nat (count_ops (ended OperationReceive False) ops)\<rparr>"

definition op_ok :: "operation \<Rightarrow> bool" where
  "op_ok op \<longleftrightarrow> op_once op = op_completed op \<and> op_done op = op_completed op \<and>
     (op_completed op \<longrightarrow> op_callbacks op = [] \<and> or_length (op_result op) = op_size op)"

text \<open>Callbacks: every registration of \<open>f\<close> on \<open>i\<close> is waiting in the operation or has been started, once.\<close>

definition started :: "nat \<times> nat \<Rightarrow> spawn list \<Rightarrow> nat" where
  "started q sp = count_list (map of_callback sp) (Some q)"

definition waiting :: "nat \<times> nat \<Rightarrow> operation list \<Rightarrow> nat" where
  "waiting q ops = (if fst q < length ops then count_list (op_callbacks (ops ! fst q)) (snd q) else 0)"

definition callbacks_ok :: "ops_state \<Rightarrow> bool" where
  "callbacks_ok s \<longleftrightarrow>
     (\<forall>q. count_list (os_reg s) q = started q (os_spawned s) + waiting q (os_ops s)) \<and>
     (\<forall>i f r. GoCallback i f r \<in> set (os_spawned s) \<longrightarrow>
        i < length (os_ops s) \<and> op_completed (os_ops s ! i) \<and> r = op_result (os_ops s ! i))"

definition ops_inv :: "ops_state \<Rightarrow> bool" where
  "ops_inv s \<longleftrightarrow> (\<forall>op \<in> set (os_ops s). op_ok op) \<and> os_stats s = counted (os_ops s) \<and> callbacks_ok s"

lemma set_source_simps [simp]:
  "op_kind (set_source a op) = op_kind op" "op_completed (set_source a op) = op_completed op"
  "op_once (set_source a op) = op_once op" "op_done (set_source a op) = op_done op"
  "op_result (set_source a op) = op_result op" "op_callbacks (set_source a op) = op_callbacks op"
  "op_size (set_source a op) = op_size op" "op_release (set_source a op) = op_release op"
  by (simp_all add: set_source_def)

lemma finished_simps [simp]:
  "op_kind (finished r op) = op_kind op" "op_completed (finished r op)" "op_once (finished r op)" "op_done (finished r op)"
  "op_result (finished r op) = r" "op_callbacks (finished r op) = []" "op_size (finished r op) = op_size op"
  by (simp_all add: finished_def)

lemma count_update_same:
  "i < length ops \<Longrightarrow> P x = P (ops ! i) \<Longrightarrow> count_ops P (ops[i := x]) = count_ops P ops"
  using count_ops_update [of i ops P x] by (simp split: if_splits)

lemma counted_update_same:
  assumes "i < length ops" and "op_kind x = op_kind (ops ! i)" and "op_completed x = op_completed (ops ! i)"
    and "op_result x = op_result (ops ! i)"
  shows "counted (ops[i := x]) = counted ops"
  using assms by (simp add: counted_def count_update_same is_kind_def ended_def)

lemma counted_post:
  "\<not> op_completed op \<Longrightarrow> counted (ops @ [op]) = post_stat (op_kind op) (counted ops)"
  by (cases "op_kind op") (simp_all add: counted_def post_stat_def is_kind_def ended_def)

lemma count_finish:
  assumes "i < length ops" and "\<not> op_completed (ops ! i)"
  shows "count_ops (ended k ok) (ops[i := finished r (ops ! i)]) =
    count_ops (ended k ok) ops + (if k = op_kind (ops ! i) \<and> (or_err r = None) = ok then 1 else 0)"
  using count_ops_update [OF assms(1), of "ended k ok" "finished r (ops ! i)"] assms(2)
  by (auto simp: ended_def split: if_splits)

lemma counted_finish:
  assumes "i < length ops" and "\<not> op_completed (ops ! i)"
  shows "counted (ops[i := finished r (ops ! i)]) = done_stat (op_kind (ops ! i)) r (counted ops)"
proof -
  have "count_ops (is_kind k) (ops[i := finished r (ops ! i)]) = count_ops (is_kind k) ops" for k
    by (rule count_update_same [OF assms(1)]) (simp add: is_kind_def)
  then show ?thesis
    by (cases "op_kind (ops ! i)"; cases "or_err r") (simp_all add: counted_def count_finish [OF assms] done_stat_def)
qed

lemma started_simps [simp]:
  "started q [] = 0"
  "started q (sp @ sp') = started q sp + started q sp'"
  by (simp_all add: started_def count_list_append_eq)

lemma started_handlers: "(\<And>h. h \<in> set hs \<Longrightarrow> of_callback h = None) \<Longrightarrow> started q hs = 0"
  by (induction hs) (auto simp: started_def)

lemma started_callbacks: "started (j, g) (map (\<lambda>f. GoCallback i f r) cbs) = (if i = j then count_list cbs g else 0)"
  by (induction cbs) (auto simp: started_def)

lemma waiting_update:
  "i < length ops \<Longrightarrow> waiting (j, g) (ops[i := x]) = (if i = j then count_list (op_callbacks x) g else waiting (j, g) ops)"
  by (auto simp: waiting_def)

lemma waiting_at: "i < length ops \<Longrightarrow> waiting (i, g) ops = count_list (op_callbacks (ops ! i)) g"
  by (simp add: waiting_def)

lemma op_ok_nth: "(\<forall>op \<in> set ops. op_ok op) \<Longrightarrow> i < length ops \<Longrightarrow> op_ok (ops ! i)"
  by simp

lemma all_update: "\<forall>op \<in> set ops. P op \<Longrightarrow> P x \<Longrightarrow> \<forall>op \<in> set (ops[i := x]). P op"
  by (auto dest!: subsetD [OF set_update_subset_insert])

lemma ops_invI:
  assumes "\<forall>op \<in> set (os_ops s). op_ok op" and "os_stats s = counted (os_ops s)"
    and "\<And>i f. count_list (os_reg s) (i, f) = started (i, f) (os_spawned s) + waiting (i, f) (os_ops s)"
    and "\<And>i f r. GoCallback i f r \<in> set (os_spawned s) \<Longrightarrow>
      i < length (os_ops s) \<and> op_completed (os_ops s ! i) \<and> r = op_result (os_ops s ! i)"
  shows "ops_inv s"
  using assms by (auto simp: ops_inv_def callbacks_ok_def)

lemma ops_invD:
  assumes "ops_inv s"
  shows "\<forall>op \<in> set (os_ops s). op_ok op" and "os_stats s = counted (os_ops s)"
    and "count_list (os_reg s) q = started q (os_spawned s) + waiting q (os_ops s)"
    and "GoCallback i f r \<in> set (os_spawned s) \<Longrightarrow>
      i < length (os_ops s) \<and> op_completed (os_ops s ! i) \<and> r = op_result (os_ops s ! i)"
  using assms by (auto simp only: ops_inv_def callbacks_ok_def)

text \<open>An update of one operation that keeps its kind, completion and result.\<close>

lemma ops_inv_update:
  assumes inv: "ops_inv s" and i: "i < length (os_ops s)"
    and same: "op_kind x = op_kind (os_ops s ! i)" "op_completed x = op_completed (os_ops s ! i)"
      "op_result x = op_result (os_ops s ! i)" and ok: "op_ok x"
    and reg: "\<And>f. count_list reg (i, f) = count_list (os_reg s) (i, f) + count_list (op_callbacks x) f
      - count_list (op_callbacks (os_ops s ! i)) f"
    and other: "\<And>j f. j \<noteq> i \<Longrightarrow> count_list reg (j, f) = count_list (os_reg s) (j, f)"
  shows "ops_inv (s\<lparr>os_ops := (os_ops s)[i := x], os_reg := reg\<rparr>)"
proof (rule ops_invI)
  show "\<forall>op \<in> set (os_ops (s\<lparr>os_ops := (os_ops s)[i := x], os_reg := reg\<rparr>)). op_ok op"
    using all_update [OF ops_invD(1) [OF inv] ok] by simp
  show "os_stats (s\<lparr>os_ops := (os_ops s)[i := x], os_reg := reg\<rparr>) =
      counted (os_ops (s\<lparr>os_ops := (os_ops s)[i := x], os_reg := reg\<rparr>))"
    using ops_invD(2) [OF inv] counted_update_same [OF i same] by simp
next
  fix j f
  show "count_list (os_reg (s\<lparr>os_ops := (os_ops s)[i := x], os_reg := reg\<rparr>)) (j, f) =
      started (j, f) (os_spawned (s\<lparr>os_ops := (os_ops s)[i := x], os_reg := reg\<rparr>)) +
      waiting (j, f) (os_ops (s\<lparr>os_ops := (os_ops s)[i := x], os_reg := reg\<rparr>))"
    using ops_invD(3) [OF inv, of "(j, f)"] reg [of f] other [of j f] i
    by (cases "j = i") (simp_all add: waiting_update waiting_at)
next
  fix j f r
  assume "GoCallback j f r \<in> set (os_spawned (s\<lparr>os_ops := (os_ops s)[i := x], os_reg := reg\<rparr>))"
  with ops_invD(4) [OF inv, of j f r] same
  show "j < length (os_ops (s\<lparr>os_ops := (os_ops s)[i := x], os_reg := reg\<rparr>)) \<and>
      op_completed (os_ops (s\<lparr>os_ops := (os_ops s)[i := x], os_reg := reg\<rparr>) ! j) \<and>
      r = op_result (os_ops (s\<lparr>os_ops := (os_ops s)[i := x], os_reg := reg\<rparr>) ! j)"
    by (cases "j = i") simp_all
qed

lemma ops_inv_post:
  assumes inv: "ops_inv s" and op: "fresh_op op"
  shows "ops_inv (s\<lparr>os_ops := os_ops s @ [op], os_stats := post_stat (op_kind op) (os_stats s)\<rparr>)"
proof (rule ops_invI)
  show "\<forall>x \<in> set (os_ops (s\<lparr>os_ops := os_ops s @ [op], os_stats := post_stat (op_kind op) (os_stats s)\<rparr>)). op_ok x"
    using ops_invD(1) [OF inv] op by (simp add: fresh_op_def op_ok_def)
  show "os_stats (s\<lparr>os_ops := os_ops s @ [op], os_stats := post_stat (op_kind op) (os_stats s)\<rparr>) =
      counted (os_ops (s\<lparr>os_ops := os_ops s @ [op], os_stats := post_stat (op_kind op) (os_stats s)\<rparr>))"
    using ops_invD(2) [OF inv] op by (simp add: counted_post fresh_op_def)
next
  fix j f
  have "waiting (j, f) (os_ops s @ [op]) = waiting (j, f) (os_ops s)"
    using op by (auto simp: waiting_def fresh_op_def nth_append less_Suc_eq)
  then show "count_list (os_reg (s\<lparr>os_ops := os_ops s @ [op], os_stats := post_stat (op_kind op) (os_stats s)\<rparr>)) (j, f) =
      started (j, f) (os_spawned (s\<lparr>os_ops := os_ops s @ [op], os_stats := post_stat (op_kind op) (os_stats s)\<rparr>)) +
      waiting (j, f) (os_ops (s\<lparr>os_ops := os_ops s @ [op], os_stats := post_stat (op_kind op) (os_stats s)\<rparr>))"
    using ops_invD(3) [OF inv] by simp
next
  fix j f r
  assume "GoCallback j f r \<in> set (os_spawned (s\<lparr>os_ops := os_ops s @ [op], os_stats := post_stat (op_kind op) (os_stats s)\<rparr>))"
  with ops_invD(4) [OF inv, of j f r]
  show "j < length (os_ops (s\<lparr>os_ops := os_ops s @ [op], os_stats := post_stat (op_kind op) (os_stats s)\<rparr>)) \<and>
      op_completed (os_ops (s\<lparr>os_ops := os_ops s @ [op], os_stats := post_stat (op_kind op) (os_stats s)\<rparr>) ! j) \<and>
      r = op_result (os_ops (s\<lparr>os_ops := os_ops s @ [op], os_stats := post_stat (op_kind op) (os_stats s)\<rparr>) ! j)"
    by (simp add: nth_append)
qed

lemma ops_inv_complete:
  assumes inv: "ops_inv s" and i: "i < length (os_ops s)" and nd: "\<not> op_once (os_ops s ! i)"
    and len: "or_length res = op_size (os_ops s ! i)" and hs: "\<And>h. h \<in> set hs \<Longrightarrow> of_callback h = None"
    and t: "t = s\<lparr>os_ops := (os_ops s)[i := finished res (os_ops s ! i)],
      os_stats := done_stat (op_kind (os_ops s ! i)) res (os_stats s),
      os_spawned := os_spawned s @ hs @ map (\<lambda>f. GoCallback i f res) (op_callbacks (os_ops s ! i))\<rparr>"
  shows "ops_inv t"
proof (rule ops_invI)
  have nc: "\<not> op_completed (os_ops s ! i)"
    using ops_invD(1) [OF inv] i nd by (auto simp: op_ok_def)
  show "\<forall>op \<in> set (os_ops t). op_ok op"
    unfolding t using all_update [OF ops_invD(1) [OF inv], of "finished res (os_ops s ! i)" i] len by (simp add: op_ok_def)
  show "os_stats t = counted (os_ops t)"
    using ops_invD(2) [OF inv] counted_finish [OF i nc] by (simp add: t)
  fix j f
  show "count_list (os_reg t) (j, f) = started (j, f) (os_spawned t) + waiting (j, f) (os_ops t)"
    using ops_invD(3) [OF inv, of "(j, f)"] started_handlers [where q = "(j, f)", OF hs] i
    by (cases "j = i") (simp_all add: t waiting_update waiting_at started_callbacks)
  fix r
  assume "GoCallback j f r \<in> set (os_spawned t)"
  then consider "GoCallback j f r \<in> set (os_spawned s)" | "GoCallback j f r \<in> set hs" | "j = i" "r = res"
    by (auto simp: t)
  then show "j < length (os_ops t) \<and> op_completed (os_ops t ! j) \<and> r = op_result (os_ops t ! j)"
  proof cases
    case 1
    from ops_invD(4) [OF inv 1] nc have "j \<noteq> i" by auto
    with ops_invD(4) [OF inv 1] show ?thesis by (simp add: t)
  next
    case 2
    from hs [OF this] show ?thesis by simp
  next
    case 3
    with i show ?thesis by (simp add: t)
  qed
qed

lemma ops_inv_step:
  assumes "ops_inv s" and "ops_step s t"
  shows "ops_inv t"
  using assms(2)
proof cases
  case (os_post op)
  with ops_inv_post [OF assms(1)] show ?thesis by blast
next
  case (os_source i a)
  have "op_ok (set_source a (os_ops s ! i))"
    using ops_invD(1) [OF assms(1)] os_source(2) by (simp add: op_ok_def)
  with ops_inv_update [OF assms(1) os_source(2), of "set_source a (os_ops s ! i)" "os_reg s"] os_source(1)
  show ?thesis by simp
next
  case (os_complete i hs res)
  from ops_inv_complete [OF assms(1) os_complete(2,3,4,5,1)] show ?thesis .
next
  case (os_register i f)
  let ?x = "(os_ops s ! i)\<lparr>op_callbacks := op_callbacks (os_ops s ! i) @ [f]\<rparr>"
  have "op_ok ?x"
    using ops_invD(1) [OF assms(1)] os_register(2,3) by (auto simp: op_ok_def)
  with ops_inv_update [OF assms(1) os_register(2), of ?x "os_reg s @ [(i, f)]"] os_register(1)
  show ?thesis by auto
next
  case (os_late i f)
  have "started q (os_spawned t) = started q (os_spawned s) + (if q = (i, f) then 1 else 0)" for q
    by (auto simp: os_late(1) started_def)
  with os_late ops_invD [OF assms(1)] show ?thesis
    by (intro ops_invI) auto
qed

text \<open>A completed operation keeps its result.\<close>

definition op_sealed :: "nat \<Rightarrow> ops_state \<Rightarrow> bool" where
  "op_sealed i s \<longleftrightarrow> i < length (os_ops s) \<and> op_completed (os_ops s ! i)"

lemma ops_step_sealed:
  assumes "ops_inv s" and "op_sealed i s" and "ops_step s t"
  shows "op_sealed i t \<and> op_result (os_ops t ! i) = op_result (os_ops s ! i)"
  using assms(3)
proof cases
  case (os_complete j hs res)
  have "j \<noteq> i"
    using ops_invD(1) [OF assms(1)] assms(2) os_complete(2,3) by (auto simp: op_sealed_def op_ok_def)
  with os_complete(1) assms(2) show ?thesis by (simp add: op_sealed_def)
next
  case (os_source j a)
  with assms(2) show ?thesis by (cases "j = i") (simp_all add: op_sealed_def)
next
  case (os_register j f)
  with assms(2) show ?thesis by (cases "j = i") (simp_all add: op_sealed_def)
qed (use assms(2) in \<open>simp_all add: op_sealed_def nth_append\<close>)

interpretation ops: sealed_view ops_step ops_inv "op_sealed i" "\<lambda>s. op_result (os_ops s ! i)" for i
  by unfold_locales (use ops_inv_step ops_step_sealed in blast)+

section \<open>The client's steps\<close>

text \<open>
  A client with its callers: posted operations whose context has not been given its value yet, and
  the ghost list of registered callbacks. \<open>cs_world\<close> is anything another part of the program does
  to the shared world.
\<close>

record 'p csys =
  cy_client :: "'p client"
  cy_pending :: "(nat \<times> nat) list"
  cy_reg :: "(nat \<times> nat) list"

definition to_bind :: "(nat \<times> nat option) result \<Rightarrow> (nat \<times> nat) list" where
  "to_bind r = (case r of Inr (i, Some x) \<Rightarrow> [(i, x)] | _ \<Rightarrow> [])"

inductive client_step :: "'p cenv \<Rightarrow> (errno \<Rightarrow> string) \<Rightarrow> 'p csys \<Rightarrow> 'p csys \<Rightarrow> bool" for E strerror where
  cs_send: "sendAsync_post E strerror payload dest (cy_client y) = (r, c) \<Longrightarrow>
    client_step E strerror y (y\<lparr>cy_client := c, cy_pending := cy_pending y @ to_bind r\<rparr>)"
| cs_receive: "ReceiveAsync_post E buf (cy_client y) = (r, c) \<Longrightarrow>
    client_step E strerror y (y\<lparr>cy_client := c, cy_pending := cy_pending y @ to_bind r\<rparr>)"
| cs_bind: "(i, x) \<in> set (cy_pending y) \<Longrightarrow>
    client_step E strerror y (y\<lparr>cy_client := bind_op i (Some x) (cy_client y), cy_pending := remove1 (i, x) (cy_pending y)\<rparr>)"
| cs_poll: "dispatch_poll E strerror span (cy_client y) = (b, c) \<Longrightarrow> client_step E strerror y (y\<lparr>cy_client := c\<rparr>)"
| cs_callback: "i < length (cl_ops (cy_client y)) \<Longrightarrow>
    client_step E strerror y (y\<lparr>cy_client := addCallback i (Some f) (cy_client y), cy_reg := cy_reg y @ [(i, f)]\<rparr>)"
| cs_send_handler: "client_step E strerror y (y\<lparr>cy_client := snd (RegisterSendHandler h (cy_client y))\<rparr>)"
| cs_receive_handler: "client_step E strerror y (y\<lparr>cy_client := snd (RegisterReceiveHandler h (cy_client y))\<rparr>)"
| cs_no_send_handler: "client_step E strerror y (y\<lparr>cy_client := UnregisterSendHandler h (cy_client y)\<rparr>)"
| cs_no_receive_handler: "client_step E strerror y (y\<lparr>cy_client := UnregisterReceiveHandler h (cy_client y)\<rparr>)"
| cs_peer: "client_step E strerror y (y\<lparr>cy_client := snd (RegisterPeer E addr dflt (cy_client y))\<rparr>)"
| cs_close: "client_step E strerror y (y\<lparr>cy_client := Client_Close E (cy_client y)\<rparr>)"
| cs_world: "client_step E strerror y (y\<lparr>cy_client := (cy_client y)\<lparr>cl_world := w\<rparr>\<rparr>)"

definition ops_view :: "(nat \<times> nat) list \<Rightarrow> 'p client \<Rightarrow> ops_state" where
  "ops_view reg c = \<lparr>os_ops = cl_ops c, os_stats = cl_stats c, os_spawned = cl_spawned c, os_reg = reg\<rparr>"

definition sys_view :: "'p csys \<Rightarrow> ops_state" where
  "sys_view y = ops_view (cy_reg y) (cy_client y)"

section \<open>Refinement\<close>

lemma view_quiet [simp]:
  "ops_view reg (tell ts c) = ops_view reg c"
  "ops_view reg (c\<lparr>cl_world := w\<rparr>) = ops_view reg c"
  "ops_view reg (c\<lparr>cl_mrPool := p\<rparr>) = ops_view reg c"
  "ops_view reg (c\<lparr>cl_dispatcherErr := de\<rparr>) = ops_view reg c"
  "ops_view reg (c\<lparr>cl_sendHandlers := h\<rparr>) = ops_view reg c"
  "ops_view reg (c\<lparr>cl_receiveHandlers := h\<rparr>) = ops_view reg c"
  "ops_view reg (c\<lparr>cl_handlerSeq := n\<rparr>) = ops_view reg c"
  "ops_view reg (c\<lparr>cl_peerAddr := a\<rparr>) = ops_view reg c"
  "ops_view reg (c\<lparr>cl_peerConfigured := b\<rparr>) = ops_view reg c"
  "ops_view reg (c\<lparr>cl_closed := b\<rparr>) = ops_view reg c"
  "ops_view reg (c\<lparr>cl_stopped := b\<rparr>) = ops_view reg c"
  by (simp_all add: ops_view_def tell_def)

lemma tell_ops [simp]: "cl_ops (tell ts c) = cl_ops c"
  by (simp add: tell_def)

lemma view_release [simp]: "ops_view reg (run_release E rel c) = ops_view reg c"
  by (simp add: run_release_def split_beta split: option.split release_fn.split)

lemma view_in_world [simp]: "ops_view reg (snd (in_world m c)) = ops_view reg c"
  by (simp add: in_world_def split_beta)

lemma view_in_pool [simp]: "ops_view reg (snd (in_pool m E p c)) = ops_view reg c"
  by (simp add: in_pool_def split_beta)

lemma view_bind [simp]: "ops_view reg (bind_op i x c) = ops_view reg c"
  by (simp add: bind_op_def split: option.split)

lemmas view_try_act = try_act_view [where v = "ops_view reg" for reg]

lemma view_prepareSend: "ops_view reg (snd (prepareSend E payload dest c)) = ops_view reg c"
  by (auto simp: prepareSend_def Let_def intro!: view_try_act split: option.split)

lemma view_prepareReceive: "ops_view reg (snd (prepareReceive E buf c)) = ops_view reg c"
  by (auto simp: prepareReceive_def Let_def intro!: view_try_act split: option.split)

text \<open>Completing: one step of the abstract machine, or none.\<close>

lemma emit_view:
  obtains hs where "cl_ops (emit H strerror op res c) = cl_ops c"
    "cl_stats (emit H strerror op res c) = done_stat (op_kind op) res (cl_stats c)"
    "cl_spawned (emit H strerror op res c) = cl_spawned c @ hs"
    "\<And>h. h \<in> set hs \<Longrightarrow> of_callback h = None"
proof (cases "op_kind op")
  case OperationSend
  then show ?thesis
    by (intro that [of "map (\<lambda>h. GoSendHandler (snd h) \<lparr>sc_Size = or_length res, sc_Err = or_err res\<rparr>) (cl_sendHandlers c)"])
      (auto simp: emit_def emit_send_def done_stat_def tell_def Let_def split: option.split)
next
  case OperationReceive
  then show ?thesis
    by (intro that [of "map (\<lambda>h. GoReceiveHandler (snd h)
        \<lparr>rc_Payload = receive_payload (op_meta op) (or_length res) (cl_world c),
         rc_Source = (case op_meta op of None \<Rightarrow> 0 | Some m \<Rightarrow> rm_source m), rc_Err = or_err res\<rparr>) (cl_receiveHandlers c)"])
      (auto simp: emit_def emit_receive_def done_stat_def tell_def Let_def split: option.split)
qed

lemma complete_steps:
  assumes len: "i < length (cl_ops c) \<Longrightarrow> or_length res = op_size (cl_ops c ! i)"
  shows "ops_step\<^sup>*\<^sup>* (ops_view reg c) (ops_view reg (complete E strerror i res c))"
proof (cases "i < length (cl_ops c) \<and> \<not> op_once (cl_ops c ! i)")
  case False
  then show ?thesis by (auto simp: complete_def Let_def)
next
  case True
  let ?op = "cl_ops c ! i"
  let ?c1 = "upd_op i (\<lambda>x. x\<lparr>op_once := True, op_result := res, op_completed := True, op_callbacks := []\<rparr>) c"
  have c1: "cl_stats ?c1 = cl_stats c" "cl_spawned ?c1 = cl_spawned c"
    "cl_ops ?c1 = (cl_ops c)[i := ?op\<lparr>op_once := True, op_result := res, op_completed := True, op_callbacks := []\<rparr>]"
    using True by (simp_all add: upd_op_def)
  let ?c2 = "emit (hdr E) strerror ?op res ?c1"
  obtain hs where c2: "cl_ops ?c2 = cl_ops ?c1" "cl_stats ?c2 = done_stat (op_kind ?op) res (cl_stats ?c1)"
    "cl_spawned ?c2 = cl_spawned ?c1 @ hs" "\<And>h. h \<in> set hs \<Longrightarrow> of_callback h = None"
    using emit_view [of "hdr E" strerror ?op res ?c1] by blast
  let ?c3 = "run_release E (op_release ?op) ?c2"
  have c3: "cl_ops ?c3 = cl_ops ?c2" "cl_stats ?c3 = cl_stats ?c2" "cl_spawned ?c3 = cl_spawned ?c2"
    using view_release [of reg E "op_release ?op" ?c2] by (simp_all add: ops_view_def)
  have "complete E strerror i res c = (upd_op i (\<lambda>x. x\<lparr>op_done := True\<rparr>) ?c3)\<lparr>cl_spawned :=
      cl_spawned (upd_op i (\<lambda>x. x\<lparr>op_done := True\<rparr>) ?c3) @ map (\<lambda>f. GoCallback i f res) (op_callbacks ?op)\<rparr>"
    using True by (simp add: complete_def Let_def)
  then have "ops_view reg (complete E strerror i res c) =
      (ops_view reg c)\<lparr>os_ops := (os_ops (ops_view reg c))[i := finished res (os_ops (ops_view reg c) ! i)],
        os_stats := done_stat (op_kind (os_ops (ops_view reg c) ! i)) res (os_stats (ops_view reg c)),
        os_spawned := os_spawned (ops_view reg c) @ hs @ map (\<lambda>f. GoCallback i f res) (op_callbacks (os_ops (ops_view reg c) ! i))\<rparr>"
    using True c1 c2 c3 by (simp add: ops_view_def upd_op_def finished_def)
  moreover have "ops_step (ops_view reg c) \<dots>"
    by (rule os_complete) (use True c2(4) len in \<open>auto simp: ops_view_def\<close>)
  ultimately show ?thesis by (simp add: r_into_rtranclp)
qed

text \<open>The methods: each is a run of the abstract machine.\<close>

abbreviation runs_to :: "ops_state \<Rightarrow> ops_state \<Rightarrow> bool" where
  "runs_to s t \<equiv> ops_step\<^sup>*\<^sup>* s t"

lemma try_act_run:
  assumes "ops_view reg (snd (m c)) = ops_view reg c"
    and "\<And>e d. m c = (Inl e, d) \<Longrightarrow> runs_to (ops_view reg d) (ops_view reg (snd (f e d)))"
    and "\<And>a d. m c = (Inr a, d) \<Longrightarrow> runs_to (ops_view reg d) (ops_view reg (snd (k a d)))"
  shows "runs_to (ops_view reg c) (ops_view reg (snd (try_act m f k c)))"
proof -
  obtain r d where m: "m c = (r, d)" by fastforce
  with assms(1) have v: "ops_view reg d = ops_view reg c" by simp
  show ?thesis
    using assms(2,3) m v by (cases r) (auto simp: try_act_def)
qed

lemma post_step:
  assumes "fresh_op op"
  shows "ops_step (ops_view reg c)
    (ops_view reg (c\<lparr>cl_ops := cl_ops c @ [op], cl_stats := post_stat (op_kind op) (cl_stats c)\<rparr>))"
  using os_post [OF assms, of "ops_view reg c"] by (simp add: ops_view_def)

lemma fresh_new [simp]: "fresh_op ((newOperation k n m)\<lparr>op_release := r\<rparr>)" "op_kind (newOperation k n m) = k"
  by (simp_all add: fresh_op_def newOperation_def)

lemma post_stat_simps [simp]:
  "post_stat OperationSend s = s\<lparr>st_SendPosted := st_SendPosted s + 1\<rparr>"
  "post_stat OperationReceive s = s\<lparr>st_ReceivePosted := st_ReceivePosted s + 1\<rparr>"
  by (simp_all add: post_stat_def)

lemma prepareSend_len:
  "prepareSend E payload dest c = (Inr (req, rel), d) \<Longrightarrow> sl_len (sr_Buffer req) = sl_len payload \<and> sl_len payload \<noteq> 0"
  by (auto simp: prepareSend_def Let_def try_act_def split: if_splits option.splits prod.splits sum.splits)

lemma send_posted:
  assumes len: "or_length res = n"
  shows "runs_to (ops_view reg d) (ops_view reg (snd (try_act (in_world m) (\<lambda>e c. (Inl (Wrap s e), run_release E rel c))
      (\<lambda>ctx c.
         case ctx of
           None \<Rightarrow> (Inr (length (cl_ops c), None), complete E strerror (length (cl_ops c)) res
             (tell (logs c) (c\<lparr>cl_ops := cl_ops c @ [(newOperation OperationSend n None)\<lparr>op_release := rel\<rparr>],
                cl_stats := (cl_stats c)\<lparr>st_SendPosted := st_SendPosted (cl_stats c) + 1\<rparr>\<rparr>)))
         | Some x \<Rightarrow> (Inr (length (cl_ops c), Some x),
             tell (logs c) (c\<lparr>cl_ops := cl_ops c @ [(newOperation OperationSend n None)\<lparr>op_release := rel\<rparr>],
                cl_stats := (cl_stats c)\<lparr>st_SendPosted := st_SendPosted (cl_stats c) + 1\<rparr>\<rparr>))) d)))"
proof (rule try_act_run)
  fix ctx d'
  let ?c1 = "tell (logs d') (d'\<lparr>cl_ops := cl_ops d' @ [(newOperation OperationSend n None)\<lparr>op_release := rel\<rparr>],
                cl_stats := (cl_stats d')\<lparr>st_SendPosted := st_SendPosted (cl_stats d') + 1\<rparr>\<rparr>)"
  have one: "ops_step (ops_view reg d') (ops_view reg ?c1)"
    using post_step [of "(newOperation OperationSend n None)\<lparr>op_release := rel\<rparr>" reg d'] by simp
  then have "runs_to (ops_view reg d') (ops_view reg (complete E strerror (length (cl_ops d')) res ?c1))"
    by (rule converse_rtranclp_into_rtranclp) (rule complete_steps, simp add: len tell_def newOperation_def)
  with one show "runs_to (ops_view reg d') (ops_view reg (snd (case ctx of
           None \<Rightarrow> (Inr (length (cl_ops d'), None), complete E strerror (length (cl_ops d')) res ?c1)
         | Some x \<Rightarrow> (Inr (length (cl_ops d'), Some x), ?c1))))"
    by (cases ctx) (simp_all add: r_into_rtranclp)
qed simp_all

lemma sendAsync_post_run: "runs_to (ops_view reg c) (ops_view reg (snd (sendAsync_post E strerror payload dest c)))"
  unfolding sendAsync_post_def Let_def
  by (auto simp: view_prepareSend split: option.split dest: prepareSend_len intro!: send_posted try_act_run [where m = "prepareSend E payload dest"])

lemma receive_posted:
  "runs_to (ops_view reg d) (ops_view reg (snd (try_act (in_world m) (\<lambda>e c. (Inl (Wrap s e), run_release E rel c))
      (\<lambda>ctx c. (Inr (length (cl_ops c), ctx),
         tell (logs c) (c\<lparr>cl_ops := cl_ops c @ [(newOperation OperationReceive n meta)\<lparr>op_release := rel\<rparr>],
           cl_stats := (cl_stats c)\<lparr>st_ReceivePosted := st_ReceivePosted (cl_stats c) + 1\<rparr>\<rparr>))) d)))"
proof (rule try_act_run)
  fix ctx d'
  show "runs_to (ops_view reg d') (ops_view reg (snd (Inr (length (cl_ops d'), ctx),
         tell (logs d') (d'\<lparr>cl_ops := cl_ops d' @ [(newOperation OperationReceive n meta)\<lparr>op_release := rel\<rparr>],
           cl_stats := (cl_stats d')\<lparr>st_ReceivePosted := st_ReceivePosted (cl_stats d') + 1\<rparr>\<rparr>))))"
    using post_step [of "(newOperation OperationReceive n meta)\<lparr>op_release := rel\<rparr>" reg d'] by (simp add: r_into_rtranclp)
qed simp_all

lemma ReceiveAsync_post_run: "runs_to (ops_view reg c) (ops_view reg (snd (ReceiveAsync_post E buf c)))"
  unfolding ReceiveAsync_post_def Let_def
  by (auto simp: view_prepareReceive split: option.split intro!: receive_posted try_act_run [where m = "prepareReceive E buf"])

lemma finish_completion_run: "runs_to (ops_view reg c) (ops_view reg (finish_completion E strerror span event entry x c))"
proof (cases "Value x (cl_world c)")
  case (OpVal i)
  show ?thesis
  proof (cases "i < length (cl_ops c)")
    case True
    have src: "ops_step (ops_view reg c) (ops_view reg (upd_op i (set_source a) c))" for a
      using os_source [of i "ops_view reg c" a] True by (simp add: ops_view_def upd_op_def)
    have size: "op_size (cl_ops (upd_op i (set_source a) c) ! i) = op_size (cl_ops c ! i)" for a
      using True by (simp add: upd_op_def)
    have "runs_to (ops_view reg c) (ops_view reg (complete E strerror i res (tell ts (upd_op i (set_source a) c))))"
      if "or_length res = op_size (cl_ops c ! i)" for a ts res
      by (rule converse_rtranclp_into_rtranclp [of ops_step, OF src [of a]])
        (use complete_steps [of i "tell ts (upd_op i (set_source a) c)" res reg E strerror] that size
         in \<open>simp\<close>)
    with OpVal True show ?thesis
      by (simp add: finish_completion_def Let_def size)
  next
    case False
    with OpVal show ?thesis by (simp add: finish_completion_def)
  qed
qed (simp_all add: finish_completion_def)

lemma resolved_run:
  "runs_to (ops_view reg c) (ops_view reg (case in_world m c of (Inl e, c1) \<Rightarrow> c1
      | (Inr x, c1) \<Rightarrow> finish_completion E strerror span event entry x c1))"
proof -
  obtain r c1 where r: "in_world m c = (r, c1)" by fastforce
  with view_in_world [of reg m c] have "ops_view reg c1 = ops_view reg c" by simp
  with r finish_completion_run [of reg c1 E strerror span event entry] show ?thesis by (cases r) simp_all
qed

lemma handleCompletion_run: "runs_to (ops_view reg c) (ops_view reg (handleCompletion E strerror event entry span c))"
  by (cases event; cases entry) (simp_all add: handleCompletion_def resolved_run)

lemma dispatch_poll_run: "runs_to (ops_view reg c) (ops_view reg (snd (dispatch_poll E strerror span c)))"
proof -
  have note_view: "ops_view reg (note_failure E strerror span ev what err d) = ops_view reg d" for ev what err d
    by (simp add: note_failure_def recordDispatcherError_def Let_def)
  obtain r c1 where rd: "in_world (CQ_ReadContext E (cl_cq c)) c = (r, c1)" by fastforce
  have v1: "ops_view reg c1 = ops_view reg c"
    using view_in_world [of reg "CQ_ReadContext E (cl_cq c)" c] rd by simp
  show ?thesis
  proof (cases r)
    case (Inr event)
    with rd handleCompletion_run [of reg c1 E strerror "Some event" None span] v1 show ?thesis
      by (simp add: dispatch_poll_def)
  next
    case (Inl err)
    let ?d = "note_failure E strerror span ''cq_read_error'' ''cq read'' err c1"
    obtain r2 c2 where re: "in_world (CQ_ReadError E (cl_cq c) 0) ?d = (r2, c2)" by fastforce
    have v2: "ops_view reg c2 = ops_view reg c"
      using view_in_world [of reg "CQ_ReadError E (cl_cq c) 0" ?d] re v1 note_view by simp
    show ?thesis
    proof (cases r2)
      case (Inr entry)
      with Inl rd re handleCompletion_run [of reg c2 E strerror None "Some entry" span] v2 show ?thesis
        by (simp add: dispatch_poll_def)
    next
      case (Inl err2)
      with \<open>r = Inl err\<close> rd re v2 note_view show ?thesis by (simp add: dispatch_poll_def)
    qed
  qed
qed

lemma Client_Close_view: "ops_view reg (Client_Close E c) = ops_view reg c"
  by (auto simp: Client_Close_def Let_def split_beta ops_view_def split: option.split)

lemma RegisterPeer_view: "ops_view reg (snd (RegisterPeer E addr dflt c)) = ops_view reg c"
  by (auto simp: RegisterPeer_def intro!: view_try_act split: option.split)

lemma client_step_run:
  assumes "client_step E strerror y y'"
  shows "runs_to (sys_view y) (sys_view y')"
  using assms
proof cases
  case (cs_send payload dest r c)
  with sendAsync_post_run [of "cy_reg y" "cy_client y" E strerror payload dest] show ?thesis by (simp add: sys_view_def)
next
  case (cs_receive buf r c)
  with ReceiveAsync_post_run [of "cy_reg y" "cy_client y" E buf] show ?thesis by (simp add: sys_view_def)
next
  case (cs_poll span b c)
  with dispatch_poll_run [of "cy_reg y" "cy_client y" E strerror span] show ?thesis by (simp add: sys_view_def)
next
  case (cs_callback i f)
  then have i: "i < length (os_ops (sys_view y))" by (simp add: sys_view_def ops_view_def)
  have "ops_step (sys_view y) (sys_view y')"
  proof (cases "op_completed (cl_ops (cy_client y) ! i)")
    case True
    with os_late [OF i, of f] cs_callback show ?thesis
      by (simp add: sys_view_def ops_view_def addCallback_def)
  next
    case False
    with os_register [OF i, of f] cs_callback show ?thesis
      by (simp add: sys_view_def ops_view_def addCallback_def upd_op_def)
  qed
  then show ?thesis by (rule r_into_rtranclp)
qed (simp_all add: sys_view_def RegisterSendHandler_def RegisterReceiveHandler_def UnregisterSendHandler_def
    UnregisterReceiveHandler_def RegisterPeer_view Client_Close_view Let_def split: option.split)

interpretation client: simulation "client_step E strerror" ops_step sys_view for E strerror
  by unfold_locales (rule client_step_run)

end
