(* ===== verification/Client_Runs.thy ===== *)
theory Client_Runs
  imports Client_Life
begin

text \<open>
  What every run of a client guarantees: the refinement to the machine of operations, exact
  counters, results that never change, callbacks that run once; and the dispatcher.
\<close>

section \<open>Runs from a new client\<close>

definition new_client :: "'p csys \<Rightarrow> bool" where
  "new_client y \<longleftrightarrow> cl_ops (cy_client y) = [] \<and> cl_spawned (cy_client y) = [] \<and> cy_reg y = [] \<and>
     cl_stats (cy_client y) = Client_Stats (None :: 'p client option)"

lemma new_client_inv: "new_client y \<Longrightarrow> ops_inv (sys_view y)"
  by (simp add: new_client_def sys_view_def ops_view_def ops_inv_def callbacks_ok_def counted_def Client_Stats_def
    started_def waiting_def)

lemma run_inv: "(client_step E strerror)\<^sup>*\<^sup>* y y' \<Longrightarrow> new_client y \<Longrightarrow> ops_inv (sys_view y')"
  using ops.reach_inv [OF client.run_simulates] new_client_inv by blast

text \<open>
  Claim C3. Any interleaving of the calls of a client and of its dispatcher is a run of the abstract
  machine of operations.
\<close>

theorem client_refines:
  assumes "(client_step E strerror)\<^sup>*\<^sup>* y y'"
  shows "ops_step\<^sup>*\<^sup>* (sys_view y) (sys_view y')"
  using assms by (rule client.run_simulates)

text \<open>
  Claim C7. After any such run of a new client, its statistics are exact: each counter is the number
  (modulo 2 to the 64) of the operations of its kind that were posted, completed without an error, or
  completed with one.
\<close>

theorem stats_exact:
  assumes "(client_step E strerror)\<^sup>*\<^sup>* y y'" and "new_client y"
  shows "Client_Stats (Some (cy_client y')) = counted (cl_ops (cy_client y'))"
  using ops_invD(2) [OF run_inv [OF assms]] by (simp add: Client_Stats_def sys_view_def ops_view_def)

text \<open>
  Claim C8. Each registration of a callback on a completed operation has started exactly one goroutine,
  whether it came before the completion or after it, and every one of them is given the operation's
  result; on an operation that has not completed, none has started.
\<close>

theorem callbacks_once:
  assumes "(client_step E strerror)\<^sup>*\<^sup>* y y'" and "new_client y" and "i < length (cl_ops (cy_client y'))"
  shows "started (i, f) (cl_spawned (cy_client y')) =
      (if op_completed (cl_ops (cy_client y') ! i) then count_list (cy_reg y') (i, f) else 0) \<and>
    (\<forall>r. GoCallback i f r \<in> set (cl_spawned (cy_client y')) \<longrightarrow> r = op_result (cl_ops (cy_client y') ! i))"
proof -
  note inv = run_inv [OF assms(1,2)]
  have ok: "op_ok (cl_ops (cy_client y') ! i)"
    using ops_invD(1) [OF inv] assms(3) by (simp add: sys_view_def ops_view_def)
  have count: "count_list (cy_reg y') (i, f) = started (i, f) (cl_spawned (cy_client y')) +
      count_list (op_callbacks (cl_ops (cy_client y') ! i)) f"
    using ops_invD(3) [OF inv, of "(i, f)"] assms(3) by (simp add: sys_view_def ops_view_def waiting_def)
  have given: "op_completed (cl_ops (cy_client y') ! i) \<and> r = op_result (cl_ops (cy_client y') ! i)"
    if "GoCallback i f r \<in> set (cl_spawned (cy_client y'))" for r
    using ops_invD(4) [OF inv, of i f r] that by (simp add: sys_view_def ops_view_def)
  have "started (i, f) (cl_spawned (cy_client y')) = 0" if "\<not> op_completed (cl_ops (cy_client y') ! i)"
    unfolding started_def
  proof (rule count_notin, rule notI)
    assume "Some (i, f) \<in> set (map of_callback (cl_spawned (cy_client y')))"
    then obtain s where "s \<in> set (cl_spawned (cy_client y'))" "of_callback s = Some (i, f)" by auto
    with given that show False by (cases s) auto
  qed
  with count ok given show ?thesis by (auto simp: op_ok_def)
qed

text \<open>
  Claim C9. Once an operation is done, every \<open>Await\<close> on its future returns, at any later moment and
  whatever became of the caller's context, the result the operation had when it was done.
\<close>

theorem result_final:
  assumes "(client_step E strerror)\<^sup>*\<^sup>* y y1" and "new_client y" and "future_Done (Some i) (cy_client y1) = Some True"
    and "(client_step E strerror)\<^sup>*\<^sup>* y1 y2"
  shows "SendFuture_Await (Some i) ctx pick (cy_client y2) = Some (or_err (op_result (cl_ops (cy_client y1) ! i)))"
proof -
  note inv = run_inv [OF assms(1,2)]
  have i: "i < length (cl_ops (cy_client y1))" "op_done (cl_ops (cy_client y1) ! i)"
    using assms(3) by (simp_all add: future_Done_def)
  have "op_ok (cl_ops (cy_client y1) ! i)"
    using ops_invD(1) [OF inv] i(1) by (simp add: sys_view_def ops_view_def)
  with i have sealed: "op_sealed i (sys_view y1)"
    by (simp add: op_sealed_def op_ok_def sys_view_def ops_view_def)
  note later = ops.reach_sealed [OF client.run_simulates [OF assms(4)] inv sealed]
  have inv2: "ops_inv (sys_view y2)"
    using ops.reach_inv [OF client.run_simulates [OF assms(4)] inv] .
  have i2: "i < length (cl_ops (cy_client y2))" "op_completed (cl_ops (cy_client y2) ! i)"
    "op_result (cl_ops (cy_client y2) ! i) = op_result (cl_ops (cy_client y1) ! i)"
    using later by (simp_all add: op_sealed_def sys_view_def ops_view_def)
  have "op_ok (cl_ops (cy_client y2) ! i)"
    using ops_invD(1) [OF inv2] i2(1) by (simp add: sys_view_def ops_view_def)
  with i2 show ?thesis
    by (simp add: SendFuture_Await_def await_def op_result_of_def op_ok_def split: option.split)
qed

text \<open>
  What a finished receive reports as its length is the size of the buffer it was posted with,
  however many bytes arrived and even when it failed.
\<close>

theorem length_is_posted_size:
  assumes "(client_step E strerror)\<^sup>*\<^sup>* y y'" and "new_client y" and "future_Done (Some i) (cy_client y') = Some True"
  shows "ReceiveFuture_Await (Some i) ctx pick (cy_client y') =
    Some (op_size (cl_ops (cy_client y') ! i), or_err (op_result (cl_ops (cy_client y') ! i)))"
proof -
  have i: "i < length (cl_ops (cy_client y'))" "op_done (cl_ops (cy_client y') ! i)"
    using assms(3) by (simp_all add: future_Done_def)
  have "op_ok (cl_ops (cy_client y') ! i)"
    using ops_invD(1) [OF run_inv [OF assms(1,2)]] i(1) by (simp add: sys_view_def ops_view_def)
  with i show ?thesis
    by (simp add: ReceiveFuture_Await_def await_def op_result_of_def op_ok_def split: option.split)
qed

section \<open>A concrete client\<close>

text \<open>
  A message-endpoint client whose provider completes the first context at every poll. It posts a
  send, the caller registers a callback, the operation is bound to its context, the dispatcher polls.
\<close>

definition demo_env :: "nat cenv" where
  "demo_env = post_env\<lparr>lib := (\<lambda>c h q.
     (case c of C_cq_read p \<Rightarrow> resp0\<lparr>r_ret := 1, r_ctx := 1\<rparr> | _ \<Rightarrow> resp0, \<lambda>p. [], q))\<rparr>"

definition demo_cfg :: Config where
  "demo_cfg = \<lparr>cf_Provider = '''', cf_EndpointType = 1, cf_Timeout = 0, cf_MRPoolSize = 0, cf_MRPoolCapacity = 0,
     cf_MRPoolAccess = 0, cf_Node = '''', cf_Service = '''', cf_Logger = None, cf_StructuredLogger = None,
     cf_Tracer = None, cf_Metrics = Some 3\<rparr>"

definition demo_client :: "nat client" where
  "demo_client =
     \<lparr>cl_obs = \<lparr>ob_cfg = demo_cfg, ob_logger = None, ob_structured = None, ob_tracer = None, ob_metrics = Some 3\<rparr>,
      cl_fabric = 2, cl_domain = \<lparr>gd_ref = 3, gd_mrMode = 0, gd_mrKeySize = 0, gd_mrIovLimit = 0\<rparr>,
      cl_endpoint = post_ep, cl_cq = \<lparr>cq_ref = 4, cq_format = 1\<rparr>, cl_eq = None, cl_av = None, cl_selfAddr = 0,
      cl_peerAddr = 0, cl_peerConfigured = True, cl_selfRaw = [], cl_mrPool = None, cl_mrAccess = 0, cl_requiresMR = False,
      cl_closed = False, cl_stopped = False, cl_dispatcherErr = None, cl_sendHandlers = [], cl_receiveHandlers = [],
      cl_handlerSeq = 0, cl_stats = Client_Stats (None :: nat client option), cl_ownFabric = True, cl_ownDomain = True,
      cl_ownEndpoint = True, cl_ownCompletion = True, cl_ownEventQueue = False, cl_ops = [], cl_spawned = [], cl_tele = [],
      cl_world = post_world\<lparr>handles := [0 \<mapsto> (KEndpoint, 77), 2 \<mapsto> (KFabric, 78), 3 \<mapsto> (KDomain, 79), 4 \<mapsto> (KCQ, 80)],
        next_id := 5\<rparr>\<rparr>"

definition demo_payload :: slice where
  "demo_payload = \<lparr>sl_loc = GoMem 5, sl_len = 4\<rparr>"

definition demo_sys :: "nat \<Rightarrow> nat csys" where
  "demo_sys k =
     (let c1 = snd (sendAsync_post demo_env (\<lambda>_. '''') demo_payload 7 demo_client);
          c2 = addCallback 0 (Some 9) c1;
          c3 = bind_op 0 (Some 5) c2;
          c4 = snd (dispatch_poll demo_env (\<lambda>_. '''') None c3)
      in [\<lparr>cy_client = demo_client, cy_pending = [], cy_reg = []\<rparr>,
          \<lparr>cy_client = c1, cy_pending = [(0, 5)], cy_reg = []\<rparr>,
          \<lparr>cy_client = c2, cy_pending = [(0, 5)], cy_reg = [(0, 9)]\<rparr>,
          \<lparr>cy_client = c3, cy_pending = [], cy_reg = [(0, 9)]\<rparr>,
          \<lparr>cy_client = c4, cy_pending = [], cy_reg = [(0, 9)]\<rparr>] ! k)"

lemma demo_posts_0: "sendAsync_post demo_env (\<lambda>_. '''') demo_payload 7 demo_client = (Inr (0, Some 5), cy_client (demo_sys 1))"
proof -
  have "fst (sendAsync_post demo_env (\<lambda>_. '''') demo_payload 7 demo_client) = Inr (0, Some 5)" by code_simp
  moreover have "snd (sendAsync_post demo_env (\<lambda>_. '''') demo_payload 7 demo_client) = cy_client (demo_sys 1)"
    by (simp add: demo_sys_def Let_def)
  ultimately show ?thesis by (metis prod.collapse)
qed

lemma demo_ops: "cl_ops (cy_client (demo_sys 1)) \<noteq> []"
  by code_simp

lemma demo_steps: "k < 4 \<Longrightarrow> client_step demo_env (\<lambda>_. '''') (demo_sys k) (demo_sys (Suc k))"
proof -
  assume "k < 4"
  then consider "k = 0" | "k = 1" | "k = 2" | "k = 3" by linarith
  then show ?thesis
  proof cases
    case 1
    have "demo_sys 1 = (demo_sys 0)\<lparr>cy_client := cy_client (demo_sys 1), cy_pending := cy_pending (demo_sys 0) @ to_bind (Inr (0, Some 5))\<rparr>"
      by (simp add: demo_sys_def Let_def to_bind_def)
    moreover have "cy_client (demo_sys 0) = demo_client" by (simp add: demo_sys_def Let_def)
    ultimately show ?thesis
      using cs_send [of demo_env "\<lambda>_. ''''" demo_payload 7 "demo_sys 0" "Inr (0, Some 5)" "cy_client (demo_sys 1)"] demo_posts_0 1
      by simp
  next
    case 2
    have "demo_sys 2 = (demo_sys 1)\<lparr>cy_client := addCallback 0 (Some 9) (cy_client (demo_sys 1)), cy_reg := cy_reg (demo_sys 1) @ [(0, 9)]\<rparr>"
      by (simp add: demo_sys_def Let_def numeral_2_eq_2)
    with cs_callback [of 0 "demo_sys 1" demo_env "\<lambda>_. ''''" 9] demo_ops 2 show ?thesis
      by (auto simp: numeral_2_eq_2)
  next
    case 3
    have "demo_sys 3 = (demo_sys 2)\<lparr>cy_client := bind_op 0 (Some 5) (cy_client (demo_sys 2)), cy_pending := remove1 (0, 5) (cy_pending (demo_sys 2))\<rparr>"
      "(0, 5) \<in> set (cy_pending (demo_sys 2))"
      by (simp_all add: demo_sys_def Let_def numeral_2_eq_2 numeral_3_eq_3)
    with cs_bind [of 0 5 "demo_sys 2" demo_env "\<lambda>_. ''''"] 3 show ?thesis by simp
  next
    case 4
    have "demo_sys 4 = (demo_sys 3)\<lparr>cy_client := snd (dispatch_poll demo_env (\<lambda>_. '''') None (cy_client (demo_sys 3)))\<rparr>"
      by (simp add: demo_sys_def Let_def numeral_3_eq_3 eval_nat_numeral)
    with cs_poll [of demo_env "\<lambda>_. ''''" None "demo_sys 3" "fst (dispatch_poll demo_env (\<lambda>_. '''') None (cy_client (demo_sys 3)))"
        "snd (dispatch_poll demo_env (\<lambda>_. '''') None (cy_client (demo_sys 3)))"] 4
    show ?thesis by simp
  qed
qed

lemma demo_run: "k \<le> 4 \<Longrightarrow> (client_step demo_env (\<lambda>_. ''''))\<^sup>*\<^sup>* (demo_sys 0) (demo_sys k)"
proof (induction k)
  case (Suc k)
  with demo_steps [of k] show ?case by (simp add: rtranclp.rtrancl_into_rtrancl)
qed simp

lemma demo_new: "new_client (demo_sys 0)"
  by (simp add: new_client_def demo_sys_def demo_client_def Let_def)

lemma demo_end:
  "map op_completed (cl_ops (cy_client (demo_sys 4))) = [True]"
  "map op_done (cl_ops (cy_client (demo_sys 4))) = [True]"
  "map op_result (cl_ops (cy_client (demo_sys 4))) = [\<lparr>or_length = 4, or_err = None\<rparr>]"
  "count_list (cy_reg (demo_sys 4)) (0, 9) = 1"
  "length (cl_ops (cy_client (demo_sys 4))) = 1"
  "map op_kind (cl_ops (cy_client (demo_sys 4))) = [OperationSend]"
  "map op_size (cl_ops (cy_client (demo_sys 4))) = [4]"
  by code_simp+

theorem client_refines_witness:
  "ops_step\<^sup>*\<^sup>* (sys_view (demo_sys 0)) (sys_view (demo_sys 4)) \<and> length (os_ops (sys_view (demo_sys 4))) = 1"
  using client_refines [OF demo_run [of 4]] demo_end(5) by (simp add: sys_view_def ops_view_def)

theorem stats_exact_witness: "st_SendCompleted (cl_stats (cy_client (demo_sys 4))) = 1"
proof -
  obtain op where "cl_ops (cy_client (demo_sys 4)) = [op]" "op_kind op = OperationSend" "op_completed op"
      "or_err (op_result op) = None"
    using demo_end(1,3,6) by (cases "cl_ops (cy_client (demo_sys 4))") auto
  with stats_exact [OF demo_run [of 4] demo_new] show ?thesis
    by (simp add: Client_Stats_def counted_def count_ops_def ended_def)
qed

theorem callbacks_once_witness: "started (0, 9) (cl_spawned (cy_client (demo_sys 4))) = 1"
  using callbacks_once [OF demo_run [of 4] demo_new, of 0 9] demo_end
  by (cases "cl_ops (cy_client (demo_sys 4))") simp_all

theorem result_final_witness: "SendFuture_Await (Some 0) (Some Canceled) True (cy_client (demo_sys 4)) = Some None"
  using result_final [OF demo_run [of 4] demo_new _ rtranclp.rtrancl_refl, of 0 "Some Canceled" True] demo_end
  by (cases "cl_ops (cy_client (demo_sys 4))") (simp_all add: future_Done_def)

theorem length_is_posted_size_witness: "ReceiveFuture_Await (Some 0) None False (cy_client (demo_sys 4)) = Some (4, None)"
  using length_is_posted_size [OF demo_run [of 4] demo_new, of 0 None False] demo_end
  by (cases "cl_ops (cy_client (demo_sys 4))") (simp_all add: future_Done_def)

end
