(* ===== verification/Dispatcher.thy ===== *)
theory Dispatcher
  imports Client_Runs
begin

text \<open>
  The dispatcher of a client: that it stops, what an error it records does to the client, and what
  becomes of a completion that arrives before its operation is bound to its context.
\<close>

section \<open>The recorded error\<close>

text \<open>Nothing but a poll changes \<open>dispatcherErr\<close>, and a poll only sets it once.\<close>

lemma err_quiet [simp]:
  "cl_dispatcherErr (tell ts c) = cl_dispatcherErr c"
  "cl_dispatcherErr (run_release E rel c) = cl_dispatcherErr c"
  "cl_dispatcherErr (snd (in_world m c)) = cl_dispatcherErr c"
  "cl_dispatcherErr (snd (in_pool pm E p c)) = cl_dispatcherErr c"
  "cl_dispatcherErr (bind_op i x c) = cl_dispatcherErr c"
  "cl_dispatcherErr (upd_op i f c) = cl_dispatcherErr c"
  "cl_dispatcherErr (addCallback i g c) = cl_dispatcherErr c"
  by (simp_all add: tell_def run_release_def in_world_def in_pool_def bind_op_def upd_op_def addCallback_def split_beta
    split: option.split release_fn.split)

lemma err_emit [simp]: "cl_dispatcherErr (emit H strerror op res c) = cl_dispatcherErr c"
  by (auto simp: emit_def emit_send_def emit_receive_def Let_def split: OperationKind.split option.split)

lemma err_complete [simp]: "cl_dispatcherErr (complete E strerror i res c) = cl_dispatcherErr c"
  by (simp add: complete_def Let_def)

lemma err_prepare:
  "cl_dispatcherErr (snd (prepareSend E payload dest c)) = cl_dispatcherErr c"
  "cl_dispatcherErr (snd (prepareReceive E buf c)) = cl_dispatcherErr c"
  by (auto simp: prepareSend_def prepareReceive_def Let_def intro!: try_act_view split: option.split)

lemma err_posts:
  "cl_dispatcherErr (snd (sendAsync_post E strerror payload dest c)) = cl_dispatcherErr c"
  "cl_dispatcherErr (snd (ReceiveAsync_post E buf c)) = cl_dispatcherErr c"
  unfolding sendAsync_post_def ReceiveAsync_post_def Let_def
  by (auto simp: err_prepare intro!: try_act_view split: option.split)

lemma err_finish [simp]: "cl_dispatcherErr (finish_completion E strerror span event entry x c) = cl_dispatcherErr c"
  by (simp add: finish_completion_def Let_def split: any_val.split)

lemma err_resolved:
  "cl_dispatcherErr (case in_world m c of (Inl e, c1) \<Rightarrow> c1
      | (Inr x, c1) \<Rightarrow> finish_completion E strerror span event entry x c1) = cl_dispatcherErr c"
  using err_quiet(3) [of m c] by (cases "in_world m c") (simp split: sum.split)

lemma err_handle [simp]: "cl_dispatcherErr (handleCompletion E strerror event entry span c) = cl_dispatcherErr c"
  by (cases event; cases entry) (simp_all add: handleCompletion_def err_resolved)

lemma err_note: "cl_dispatcherErr c = Some e \<Longrightarrow> cl_dispatcherErr (note_failure E strerror span ev what err c) = Some e"
  by (simp add: note_failure_def recordDispatcherError_def)
lemma err_poll:
  assumes "cl_dispatcherErr c = Some e"
  shows "cl_dispatcherErr (snd (dispatch_poll E strerror span c)) = Some e"
proof -
  obtain r c1 where rd: "in_world (CQ_ReadContext E (cl_cq c)) c = (r, c1)" by fastforce
  have c1: "cl_dispatcherErr c1 = Some e"
    using err_quiet(3) [of "CQ_ReadContext E (cl_cq c)" c] rd assms by simp
  show ?thesis
  proof (cases r)
    case (Inr event)
    with rd c1 show ?thesis by (simp add: dispatch_poll_def)
  next
    case (Inl err)
    let ?d = "note_failure E strerror span ''cq_read_error'' ''cq read'' err c1"
    obtain r2 c2 where re: "in_world (CQ_ReadError E (cl_cq c) 0) ?d = (r2, c2)" by fastforce
    have "cl_dispatcherErr c2 = Some e"
      using err_quiet(3) [of "CQ_ReadError E (cl_cq c) 0" ?d] re err_note [OF c1] by simp
    with Inl rd re show ?thesis by (cases r2) (simp_all add: dispatch_poll_def err_note)
  qed
qed

lemma err_others:
  "cl_dispatcherErr (snd (RegisterSendHandler h c)) = cl_dispatcherErr c"
  "cl_dispatcherErr (snd (RegisterReceiveHandler h c)) = cl_dispatcherErr c"
  "cl_dispatcherErr (UnregisterSendHandler j c) = cl_dispatcherErr c"
  "cl_dispatcherErr (UnregisterReceiveHandler j c) = cl_dispatcherErr c"
  "cl_dispatcherErr (snd (RegisterPeer E addr dflt c)) = cl_dispatcherErr c"
  "cl_dispatcherErr (Client_Close E c) = cl_dispatcherErr c"
  by (auto simp: RegisterSendHandler_def RegisterReceiveHandler_def UnregisterSendHandler_def UnregisterReceiveHandler_def
    RegisterPeer_def Client_Close_def Let_def split_beta split: option.split intro!: try_act_view)

lemma err_step:
  assumes "cl_dispatcherErr (cy_client y) = Some e" and "client_step E strerror y y'"
  shows "cl_dispatcherErr (cy_client y') = Some e"
  using assms(2)
proof cases
  case (cs_send payload dest r c)
  with assms(1) err_posts(1) [of E strerror payload dest "cy_client y"] show ?thesis by simp
next
  case (cs_receive buf r c)
  with assms(1) err_posts(2) [of E buf "cy_client y"] show ?thesis by simp
next
  case (cs_poll span b c)
  with err_poll [OF assms(1), of E strerror span] show ?thesis by simp
qed (simp_all add: assms(1) err_others)

interpretation failed: sealed_view "client_step E strerror" "\<lambda>_. True" "\<lambda>y. cl_dispatcherErr (cy_client y) = Some e"
  "\<lambda>y. cl_dispatcherErr (cy_client y)" for E strerror e
  by unfold_locales (auto dest: err_step)

section \<open>An entry in the error queue\<close>

text \<open>
  \<open>fi_cq(3)\<close>: while an operation that failed is waiting to be read with \<open>fi_cq_readerr\<close>, the reads of
  the queue return \<open>-FI_EAVAIL\<close>.
\<close>

definition reads_unavailable :: "'p cenv \<Rightarrow> ptr \<Rightarrow> 'p world \<Rightarrow> bool" where
  "reads_unavailable E q w \<longleftrightarrow>
     r_ret (fst (ccall E (C_cq_read q) w)) = neg_status (FI_EAVAIL (hdr E)) \<and>
     r_ret (fst (ccall E (C_cq_readfrom q) w)) = neg_status (FI_EAVAIL (hdr E))"

lemma unavailable_status:
  assumes "errno_spec H"
  shows "ErrorFromStatus H (neg_status (FI_EAVAIL H)) what = Some (WithOp (FI_EAVAIL H) what)"
    and "FI_EAVAIL H \<noteq> FI_EAGAIN H" and "FI_EAVAIL H \<noteq> FI_ETIMEDOUT H" and "sint (neg_status (FI_EAVAIL H)) < 0"
  using assms by (auto simp: errno_spec_def ErrorFromStatus_def Let_def)

lemma unavailable_read:
  assumes spec: "errno_spec (hdr E)" and h: "handles w (cq_ref q) = Some (k, p)" and p: "p \<noteq> NULL"
    and un: "reads_unavailable E p w"
  shows "\<exists>what. fst (CQ_ReadContext E q w) = Inl (WithOp (FI_EAVAIL (hdr E)) what)"
proof -
  note st = unavailable_status [OF spec]
  have "\<exists>what. fst (capi_ReadContext E p (cq_format q) w) = Inl (WithOp (FI_EAVAIL (hdr E)) what)"
    using p un st(1,4) by (auto simp: capi_ReadContext_def read_result_def reads_unavailable_def as_sum_def split_beta)
  then show ?thesis
    using h st(2,3) by (auto simp: CQ_ReadContext_def with_handle_def entry_result_def translateErr_def split_beta)
qed

lemma unavailable_poll:
  assumes "errno_spec (hdr E)" and "handles (cl_world c) (cq_ref (cl_cq c)) = Some (k, p)" and "p \<noteq> NULL"
    and "reads_unavailable E p (cl_world c)"
  shows "cl_dispatcherErr (snd (dispatch_poll E strerror span c)) \<noteq> None"
proof -
  obtain what w where rd: "CQ_ReadContext E (cl_cq c) (cl_world c) = (Inl (WithOp (FI_EAVAIL (hdr E)) what), w)"
    using unavailable_read [OF assms] by (metis prod.collapse)
  let ?c1 = "c\<lparr>cl_world := w\<rparr>"
  let ?d = "note_failure E strerror span ''cq_read_error'' ''cq read'' (WithOp (FI_EAVAIL (hdr E)) what) ?c1"
  have d: "cl_dispatcherErr ?d \<noteq> None"
    by (auto simp: note_failure_def recordDispatcherError_def Let_def)
  obtain r2 c2 where re: "in_world (CQ_ReadError E (cl_cq c) 0) ?d = (r2, c2)" by fastforce
  then have "cl_dispatcherErr c2 \<noteq> None"
    using d err_quiet(3) [of "CQ_ReadError E (cl_cq c) 0" ?d] by simp
  with rd re show ?thesis
    by (cases r2) (auto simp: dispatch_poll_def in_world_def dest: err_note)
qed

text \<open>A client with a recorded error posts nothing.\<close>

lemma failed_refuses:
  assumes "cl_dispatcherErr c \<noteq> None"
  shows "\<exists>e. sendAsync_post E strerror payload dest c = (Inl e, c)" and "\<exists>e. ReceiveAsync_post E buf c = (Inl e, c)"
  using assms by (auto simp: sendAsync_post_def ReceiveAsync_post_def dispatchFailure_def split: option.split)

text \<open>
  Claim C14. One failed operation disables a client for good: the poll that finds an entry in the error
  queue records \<open>FI_EAVAIL\<close> as a failure of the dispatcher (and goes on to report the entry to its
  operation), and after it every send and every receive is refused, whatever is done with the client.
\<close>

theorem error_entry_disables:
  assumes "errno_spec (hdr E)" and "handles (cl_world (cy_client y)) (cq_ref (cl_cq (cy_client y))) = Some (k, p)"
    and "p \<noteq> NULL" and "reads_unavailable E p (cl_world (cy_client y))"
    and "(client_step E strerror)\<^sup>*\<^sup>* (y\<lparr>cy_client := snd (dispatch_poll E strerror span (cy_client y))\<rparr>) y'"
  shows "\<exists>e1 e2. sendAsync_post E strerror payload dest (cy_client y') = (Inl e1, cy_client y') \<and>
    ReceiveAsync_post E buf (cy_client y') = (Inl e2, cy_client y')"
proof -
  obtain e where "cl_dispatcherErr (snd (dispatch_poll E strerror span (cy_client y))) = Some e"
    using unavailable_poll [OF assms(1-4), of strerror span] by auto
  then have "cl_dispatcherErr (cy_client y') = Some e"
    using failed.reach_sealed(1) [OF assms(5), of e] by simp
  then show ?thesis using failed_refuses [of "cy_client y'"] by simp
qed

section \<open>Stopping\<close>

text \<open>The wait between two polls is 1, 2, 4, 8 or 16 milliseconds.\<close>

lemma backoff_values: "b \<in> {1, 2, 4, 8, 16} \<Longrightarrow> next_backoff handled b \<in> {1, 2, 4, 8, 16}"
  by (auto simp: next_backoff_def)

text \<open>Each iteration tests \<open>stopCh\<close> once or twice, and only a closed channel ends the loop.\<close>

lemma dispatch_loop_stops:
  assumes stop: "\<And>j. n \<le> j \<Longrightarrow> stop j" and "n < k + fuel" and "0 < fuel"
  shows "\<exists>c'. dispatch_loop fuel E strerror span stop k b c = Some c'"
  using assms(2,3)
proof (induction fuel arbitrary: k b c)
  case (Suc fuel)
  show ?case
  proof (cases "stop k")
    case False
    with stop have k: "k < n" by (meson not_le)
    obtain h c1 where p: "dispatch_poll E strerror span c = (h, c1)" by fastforce
    have again: "\<exists>c'. dispatch_loop fuel E strerror span stop (Suc k) b' c1 = Some c'" for b'
      using Suc.IH [of "Suc k"] Suc.prems k by simp
    have twice: "\<exists>c'. dispatch_loop fuel E strerror span stop (Suc (Suc k)) b' c1 = Some c'" if "\<not> stop (Suc k)" for b'
    proof -
      from that stop have "Suc k < n" by (meson not_le)
      with Suc.IH [of "Suc (Suc k)"] Suc.prems show ?thesis by simp
    qed
    from again twice False p show ?thesis by (cases h) auto
  qed simp
qed simp

lemma dispatch_loop_run:
  "dispatch_loop fuel E strerror span stop k b c = Some c' \<Longrightarrow> runs_to (ops_view reg c) (ops_view reg c')"
proof (induction fuel arbitrary: k b c)
  case (Suc fuel)
  obtain h c1 where p: "dispatch_poll E strerror span c = (h, c1)" by fastforce
  have one: "runs_to (ops_view reg c) (ops_view reg c1)"
    using dispatch_poll_run [of reg c E strerror span] p by simp
  from Suc.prems p have "c' = c \<or> c' = c1 \<or> (\<exists>k b. dispatch_loop fuel E strerror span stop k b c1 = Some c')"
    by (auto split: if_splits bool.splits)
  with Suc.IH one show ?case by (auto intro: rtranclp_trans)
qed simp

text \<open>
  Claim C10. The dispatcher returns once \<open>Close\<close> has closed its stop channel, after at most one iteration
  for each test that still found it open; all it did by then is a run of the machine of operations.
\<close>

theorem dispatch_returns:
  assumes "\<And>j. n \<le> j \<Longrightarrow> stop j" and "n < fuel"
  shows "\<exists>c'. dispatch fuel E strerror stop c = Some c' \<and> ops_step\<^sup>*\<^sup>* (ops_view reg c) (ops_view reg c')"
proof -
  obtain span ts where st: "dispatch_started (hdr E) strerror (cl_obs c) = (span, ts)" by fastforce
  obtain c1 where l: "dispatch_loop fuel E strerror span stop 0 1 (tell ts c) = Some c1"
    using dispatch_loop_stops [of n stop 0 fuel E strerror span 1 "tell ts c"] assms by auto
  from dispatch_loop_run [OF l, of reg] st l show ?thesis by (simp add: dispatch_def)
qed

section \<open>A completion before its operation is bound\<close>

lemma resolved_never_again:
  assumes "ctx_safe E w" and "registry w p = Some x" and "(ctx_step E)\<^sup>*\<^sup>* (snd (resolveCompletion p w)) w'"
  shows "fst (resolveCompletion q w') \<noteq> Inr x"
proof
  have inv: "ctx_inv w" and m: "malloc_spec E" using assms(1) by (simp_all add: ctx_safe_def)
  obtain cc where cc: "ctxs w x = Some cc" "\<not> cc_closed cc" "cc_ptr cc = p"
    using ctx_invD(4) [OF inv assms(2)] by auto
  then have p: "p \<noteq> NULL"
    using ctx_inv_open(1) [OF inv cc(1)] by (auto simp: ctx_mem_def)
  have inv1: "malloc_spec E \<and> ctx_inv (snd (resolveCompletion p w))"
    using ctx_inv_resolve [OF inv, of p] m by simp
  have "IsReleased x (snd (resolveCompletion p w))"
    using p assms(2) release_open(1) [OF inv cc(1,2), of True False "(registry w)(p := None)"]
    by (simp add: resolveCompletion_def)
  then have rel: "IsReleased x w'"
    by (rule life.reach_sealed(1) [OF assms(3) inv1])
  have "ctx_inv w'"
    using life.reach_inv [OF assms(3) inv1] by simp
  moreover assume "fst (resolveCompletion q w') = Inr x"
  then have "registry w' q = Some x"
    by (auto simp: resolveCompletion_def split: if_splits option.splits)
  ultimately obtain y where "ctxs w' x = Some y" "\<not> cc_closed y" using ctx_invD(4) by blast
  with rel show False by (simp add: IsReleased_def)
qed

lemma CQ_ReadContext_frame:
  "registry (snd (CQ_ReadContext E q w)) = registry w" "ctxs (snd (CQ_ReadContext E q w)) = ctxs w"
  "ctx_frame w (snd (CQ_ReadContext E q w))"
  by (auto simp: CQ_ReadContext_def with_handle_def capi_ReadContext_def split_beta split: option.split)

text \<open>
  Claim C16. A completion that the dispatcher handles between the post of an operation and the
  \<open>SetValue\<close> that binds it is lost: the poll changes no operation and consumes the context, and
  after the late binding no resolution, however the contexts are used, ever yields that context again.
\<close>

theorem unbound_completion_lost:
  assumes "ctx_safe E (cl_world c)" and "CQ_ReadContext E (cl_cq c) (cl_world c) = (Inr event, w)"
    and "registry (cl_world c) (ev_Context event) = Some x" and "Value x (cl_world c) = NilVal"
    and "(ctx_step E)\<^sup>*\<^sup>* (cl_world (bind_op i (Some x) (snd (dispatch_poll E strerror span c)))) w'"
  shows "cl_ops (bind_op i (Some x) (snd (dispatch_poll E strerror span c))) = cl_ops c \<and>
    fst (resolveCompletion q w') \<noteq> Inr x"
proof -
  have fr: "registry w = registry (cl_world c)" "ctxs w = ctxs (cl_world c)" "ctx_frame (cl_world c) w"
    using CQ_ReadContext_frame [where E = E and q = "cl_cq c" and w = "cl_world c"] assms(2) by simp_all
  have safe: "ctx_safe E w"
    by (rule safe.keeps [OF assms(1)]) (rule st_frame, rule fr(3))
  let ?p = "ev_Context event"
  have reg: "registry w ?p = Some x" using assms(3) fr(1) by simp
  have inv: "ctx_inv w" using safe by (simp add: ctx_safe_def)
  obtain cc where cc: "ctxs w x = Some cc" "\<not> cc_closed cc" "cc_ptr cc = ?p"
    using ctx_invD(4) [OF inv reg] by auto
  then have p: "?p \<noteq> NULL"
    using ctx_inv_open(1) [OF inv cc(1)] by (auto simp: ctx_mem_def)
  obtain w1 where res: "resolveCompletion ?p w = (Inr x, w1)"
    using p reg by (simp add: resolveCompletion_def)
  have "ctx_mem (w\<lparr>registry := (registry w)(?p := None)\<rparr>) x cc" "\<not> fault (w\<lparr>registry := (registry w)(?p := None)\<rparr>)"
    using ctx_inv_open(1) [OF inv cc(1,2)] ctx_invD(1) [OF inv] by (simp_all add: ctx_mem_def)
  from release_ctx_effect(2) [OF this(2,1), of True False] cc(1,2) p reg res
  have "ctxs w1 = (ctxs w)(x \<mapsto> cc\<lparr>cc_closed := True, cc_onComplete := [], cc_cleanups := [], cc_copyBack := None,
      cc_buffer := NULL, cc_bufCap := (if cc_buffer cc = NULL then cc_bufCap cc else 0)\<rparr>)"
    by (simp add: resolveCompletion_def)
  then have "Value x w1 = NilVal"
    using cc(1) assms(4) fr(2) by (simp add: Value_def)
  then have poll: "snd (dispatch_poll E strerror span c) = c\<lparr>cl_world := w1\<rparr>"
    using assms(2) res by (simp add: dispatch_poll_def in_world_def handleCompletion_def CompletionEvent_Resolve_def finish_completion_def)
  have "(ctx_step E)\<^sup>*\<^sup>* (snd (resolveCompletion ?p w)) w'"
    using assms(5) poll res by (simp add: bind_op_def converse_rtranclp_into_rtranclp [of "ctx_step E", OF st_value])
  from resolved_never_again [OF safe reg this, of q] poll show ?thesis by (simp add: bind_op_def)
qed

section \<open>Concrete instances\<close>

text \<open>A provider whose completion queue always reports a failed operation.\<close>

definition error_env :: "nat cenv" where
  "error_env = post_env\<lparr>lib := (\<lambda>c h q.
     (case c of C_cq_read p \<Rightarrow> resp0\<lparr>r_ret := -259\<rparr> | C_cq_readfrom p \<Rightarrow> resp0\<lparr>r_ret := -259\<rparr>
        | C_cq_readerr p f \<Rightarrow> resp0\<lparr>r_ret := 1, r_ctx := 1, r_err := 5\<rparr> | _ \<Rightarrow> resp0, \<lambda>p. [], q))\<rparr>"

theorem error_entry_disables_witness:
  "fst (ReceiveAsync_post error_env demo_payload
     (snd (dispatch_poll error_env (\<lambda>_. '''') None demo_client))) \<noteq> Inr (0, Some 5)"
proof -
  have un: "reads_unavailable error_env 80 (cl_world demo_client)"
    by (simp add: reads_unavailable_def error_env_def ccall_def post_env_def linux_hdr_def)
  let ?y = "\<lparr>cy_client = demo_client, cy_pending = [], cy_reg = []\<rparr>"
  have "handles (cl_world (cy_client ?y)) (cq_ref (cl_cq (cy_client ?y))) = Some (KCQ, 80)"
    by (simp add: demo_client_def)
  moreover have "errno_spec (hdr error_env)" by (simp add: error_env_def linux_errno_spec)
  ultimately obtain e2 where "ReceiveAsync_post error_env demo_payload
      (cy_client (?y\<lparr>cy_client := snd (dispatch_poll error_env (\<lambda>_. '''') None (cy_client ?y))\<rparr>)) =
    (Inl e2, cy_client (?y\<lparr>cy_client := snd (dispatch_poll error_env (\<lambda>_. '''') None (cy_client ?y))\<rparr>))"
    using error_entry_disables [where E = error_env and y = ?y and k = KCQ and p = 80 and strerror = "\<lambda>_. ''''" and span = None
        and buf = demo_payload, OF _ _ _ _ rtranclp.rtrancl_refl] un
    by auto
  then show ?thesis by simp
qed

theorem dispatch_returns_witness:
  "\<exists>c'. dispatch 3 demo_env (\<lambda>_. '''') (\<lambda>j. 2 \<le> j) demo_client = Some c'"
  using dispatch_returns [of 2 "\<lambda>j. 2 \<le> j" 3 demo_env "\<lambda>_. ''''" demo_client] by auto

text \<open>The client that has posted its send and not bound it yet.\<close>

definition sent_op :: post_op where
  "sent_op = OpSend \<lparr>sr_Buffer = demo_payload, sr_Dest = FIAddrUnspec, sr_Flags = 0, sr_Context = None, sr_Region = None\<rparr>"

lemma sent_safe: "ctx_safe demo_env (cl_world (cy_client (demo_sys 1)))"
proof -
  have "ctx_safe demo_env (cl_world demo_client)"
    by (simp add: ctx_safe_def ctx_inv_def no_leak_def demo_client_def post_world_def world0_def shape_def
      demo_env_def malloc_spec_def post_env_def bump_malloc_def)
  moreover have "op_valid (cl_world demo_client) sent_op" "ready (cl_world demo_client) (op_context sent_op)"
    by (simp_all add: op_valid_def sent_op_def demo_payload_def go_slice_def go_array_def demo_client_def post_world_def ready_def)
  ultimately have "ctx_safe demo_env (snd (post demo_env post_ep sent_op (cl_world demo_client)))"
    using post_safe by (metis prod.collapse)
  moreover have "cl_world (cy_client (demo_sys 1)) = snd (post demo_env post_ep sent_op (cl_world demo_client))"
  proof -
    let ?post = "PostSend demo_env post_ep (Some \<lparr>sr_Buffer = demo_payload, sr_Dest = FIAddrUnspec, sr_Flags = 0,
      sr_Context = None, sr_Region = None\<rparr>) (cl_world demo_client)"
    have "fst ?post = Inr (Some 5)" by code_simp
    then obtain w where w: "?post = (Inr (Some 5), w)" by (metis prod.collapse)
    have c: "ensureOpen (Some demo_client) = None" "dispatchFailure demo_client = None" "cl_endpoint demo_client = post_ep"
      "sl_len demo_payload = 4"
      by (simp_all add: ensureOpen_def dispatchFailure_def demo_client_def demo_payload_def)
    have "prepareSend demo_env demo_payload 7 demo_client = (Inr (\<lparr>sr_Buffer = demo_payload, sr_Dest = FIAddrUnspec,
        sr_Flags = 0, sr_Context = None, sr_Region = None\<rparr>, None), demo_client)"
      by (simp add: prepareSend_def demo_client_def demo_cfg_def demo_env_def linux_hdr_def demo_payload_def)
    with w c show ?thesis
      by (simp add: demo_sys_def Let_def sendAsync_post_def try_act_def in_world_def tell_def sent_op_def)
  qed
  ultimately show ?thesis by simp
qed

lemma sent_read:
  "fst (CQ_ReadContext demo_env (cl_cq (cy_client (demo_sys 1))) (cl_world (cy_client (demo_sys 1)))) =
     Inr \<lparr>ev_Context = 1, ev_Tag = 0, ev_Data = 0, ev_Source = 0\<rparr>"
  "registry (cl_world (cy_client (demo_sys 1))) 1 = Some 5"
  "Value 5 (cl_world (cy_client (demo_sys 1))) = NilVal"
  "op_completed (cl_ops (cy_client (demo_sys 1)) ! 0) = False"
  by code_simp+

theorem unbound_completion_lost_witness:
  "\<not> op_completed (cl_ops (bind_op 0 (Some 5)
     (snd (dispatch_poll demo_env (\<lambda>_. '''') None (cy_client (demo_sys 1))))) ! 0)"
proof -
  obtain w where "CQ_ReadContext demo_env (cl_cq (cy_client (demo_sys 1))) (cl_world (cy_client (demo_sys 1))) =
      (Inr \<lparr>ev_Context = 1, ev_Tag = 0, ev_Data = 0, ev_Source = 0\<rparr>, w)"
    using sent_read(1) by (metis prod.collapse)
  from unbound_completion_lost [OF sent_safe this, of 5 0 "\<lambda>_. ''''" None _ 1, OF _ sent_read(3) rtranclp.rtrancl_refl] sent_read
  show ?thesis by simp
qed

end
