(* ===== verification/Measured.thy ===== *)
theory Measured
  imports Metrics Dispatcher
begin

text \<open>
  The client and its metric hook: what the dispatcher measures, against the statistics of the client.
\<close>

text \<open>The counter of an operation's outcome.\<close>

definition outcome :: "OperationKind \<Rightarrow> bool \<Rightarrow> counter" where
  "outcome k ok =
     (case k of
        OperationSend \<Rightarrow> if ok then CSendCompleted else CSendFailed
      | OperationReceive \<Rightarrow> if ok then CReceiveCompleted else CReceiveFailed)"

lemma added_append [simp]: "added hook c (ts @ ts') = added hook c ts + added hook c ts'"
  by (simp add: added_def List.map_filter_def count_list_append_eq)

lemma added_Nil [simp]: "added hook c [] = 0"
  by (simp add: added_def List.map_filter_def)

lemma added_silent: "(\<And>t. t \<in> set ts \<Longrightarrow> metric_of t = None) \<Longrightarrow> added hook c ts = 0"
  by (induction ts) (simp_all add: added_def List.map_filter_def)

lemma added_quiet [simp]:
  "added hook c (logf ob text) = 0"
  "added hook c (logDispatcherEvent H strerror ob event fs) = 0"
  "added hook c (spanAddEvent span name fs) = 0"
  "added hook c (spanRecordError span err) = 0"
  by (rule added_silent,
      auto simp: logf_def logDispatcherEvent_def spanAddEvent_def spanRecordError_def split: if_splits option.splits)+

lemma added_metric: "added hook c [TMetric m] = count_list (map fst (hook m)) c"
  by (simp add: added_def List.map_filter_def)

context metric_hook
begin

lemma once_added: "added hook c [TMetric m] = (if c = counter_of m then 1 else 0)"
  by (simp add: added_metric once)

text \<open>The dispatcher's report of a completion is one measurement.\<close>

lemma report_measures:
  assumes "ob_metrics ob \<noteq> None"
  shows "added hook c (logOperationCompletion H strerror ob span op res event entry) =
    (if c = outcome (op_kind op) (or_err res = None) then 1 else 0)"
  using assms
  by (cases "op_kind op"; cases "or_err res")
    (auto simp: logOperationCompletion_def Let_def send_metric_def once_added outcome_def)

text \<open>Completing an operation measures nothing itself.\<close>

lemma tell_added: "added hook c (cl_tele (tell ts x)) = added hook c (cl_tele x) + added hook c ts"
  by (simp add: tell_def)

lemma emit_silent: "added hook c (cl_tele (emit H strerror op res x)) = added hook c (cl_tele x)"
  by (auto simp: emit_def emit_send_def emit_receive_def Let_def tell_added split: OperationKind.split option.split)

lemma release_silent: "cl_tele (run_release E rel x) = cl_tele x"
  by (simp add: run_release_def split_beta split: option.split release_fn.split)

lemma update_silent: "cl_tele (upd_op i f x) = cl_tele x"
  by (simp add: upd_op_def)

lemma complete_silent: "added hook c (cl_tele (complete E strerror i res x)) = added hook c (cl_tele x)"
  by (simp add: complete_def Let_def emit_silent release_silent update_silent)

lemma finish_measures:
  assumes "ob_metrics (cl_obs x) \<noteq> None" and "Value k (cl_world x) = OpVal i" and "i < length (cl_ops x)"
  shows "added hook c (cl_tele (finish_completion E strerror span event entry k x)) =
    added hook c (cl_tele x) + (if c = outcome (op_kind (cl_ops x ! i)) (entry = None) then 1 else 0)"
proof -
  have obs: "cl_obs (upd_op i f x) = cl_obs x" for f by (simp add: upd_op_def)
  have kind: "op_kind (cl_ops (upd_op i (set_source a) x) ! i) = op_kind (cl_ops x ! i)" for a
    using assms(3) by (simp add: upd_op_def)
  show ?thesis
    using assms
    by (simp add: finish_completion_def Let_def complete_silent tell_added update_silent obs report_measures kind)
qed

end

lemma complete_stats:
  fixes c :: "'p client"
  assumes "i < length (cl_ops c)" and "\<not> op_once (cl_ops c ! i)"
  shows "cl_stats (complete E strerror i res c) = done_stat (op_kind (cl_ops c ! i)) res (cl_stats c)"
proof -
  have "cl_stats (upd_op j f d) = cl_stats d" "cl_stats (run_release E rel d) = cl_stats d" for j f rel d
    by (simp_all add: upd_op_def run_release_def split_beta split: option.split release_fn.split)
  moreover have "cl_stats (emit (hdr E) strerror (cl_ops c ! i) res d) = done_stat (op_kind (cl_ops c ! i)) res (cl_stats d)" for d :: "'p client"
    using emit_view by metis
  ultimately show ?thesis using assms by (simp add: complete_def Let_def)
qed

lemma finish_stats:
  assumes "Value k (cl_world x) = OpVal i" and "i < length (cl_ops x)" and "\<not> op_once (cl_ops x ! i)"
  shows "\<exists>res. (or_err res = None) = (entry = None) \<and>
    cl_stats (finish_completion E strerror span event entry k x) = done_stat (op_kind (cl_ops x ! i)) res (cl_stats x)"
proof -
  have same: "op_kind (cl_ops (upd_op i (set_source a) x) ! i) = op_kind (cl_ops x ! i)"
    "op_once (cl_ops (upd_op i (set_source a) x) ! i) = op_once (cl_ops x ! i)"
    "i < length (cl_ops (upd_op i (set_source a) x))" "cl_stats (upd_op i (set_source a) x) = cl_stats x" for a
    using assms(2) by (simp_all add: upd_op_def)
  let ?a = "case event of Some ev \<Rightarrow> ev_Source ev | None \<Rightarrow> (case entry of Some en \<Rightarrow> cqe_SrcAddr en | None \<Rightarrow> 0)"
  show ?thesis
    using assms same [of ?a]
    by (intro exI [of _ "\<lparr>or_length = op_size (cl_ops (upd_op i (set_source ?a) x) ! i),
          or_err = map_option (\<lambda>en. OperationError
            \<lparr>oe_Kind = op_kind (cl_ops (upd_op i (set_source ?a) x) ! i), oe_Errno = cqe_Err en, oe_ProviderErr = cqe_ProviderErr en,
             oe_Flags = cqe_Flags en, oe_Length = cqe_Length en, oe_Data = cqe_Data en, oe_Tag = cqe_Tag en\<rparr>) entry\<rparr>"])
      (simp add: finish_completion_def Let_def tell_def complete_stats)
qed

text \<open>
  Claim C17. The statistics and the metrics of a client agree on every operation its dispatcher completes:
  the completion adds one to the statistic of the operation's kind and outcome, and one to the
  counter of the same kind and outcome of either hook, and to no other counter.
\<close>

theorem completion_measured:
  assumes "ob_metrics (cl_obs c) \<noteq> None" and "Value k (cl_world c) = OpVal i" and "i < length (cl_ops c)"
    and "\<not> op_once (cl_ops c ! i)"
  shows "\<exists>res. (or_err res = None) = (entry = None) \<and>
    cl_stats (finish_completion E strerror span event entry k c) = done_stat (op_kind (cl_ops c ! i)) res (cl_stats c) \<and>
    (\<forall>m. added otel_hook m (cl_tele (finish_completion E strerror span event entry k c)) =
      added otel_hook m (cl_tele c) + (if m = outcome (op_kind (cl_ops c ! i)) (entry = None) then 1 else 0)) \<and>
    (\<forall>m. added prom_hook m (cl_tele (finish_completion E strerror span event entry k c)) =
      added prom_hook m (cl_tele c) + (if m = outcome (op_kind (cl_ops c ! i)) (entry = None) then 1 else 0))"
  using finish_stats [OF assms(2-4)] otel.finish_measures [OF assms(1-3)] prom.finish_measures [OF assms(1-3)] by metis

lemma tele_prepareSend: "cl_tele (snd (prepareSend E payload dest c)) = cl_tele c"
proof -
  have "cl_tele (snd (in_world m d)) = cl_tele d" "cl_tele (snd (in_pool pm E p d)) = cl_tele d"
    "cl_tele (run_release E rel d) = cl_tele d" for m d pm p rel
    by (simp_all add: in_world_def in_pool_def run_release_def split_beta split: option.split release_fn.split)
  then show ?thesis
    by (auto simp: prepareSend_def Let_def intro!: try_act_view split: option.split)
qed

text \<open>
  A send the provider injects is the exception: it is counted as posted and completed in the
  statistics, and no hook hears of it.
\<close>

theorem injected_unmeasured:
  assumes "sendAsync_post E strerror payload dest c = (Inr (i, None), c')"
  shows "st_SendCompleted (cl_stats c') = st_SendCompleted (cl_stats c) + 1 \<and>
    added otel_hook m (cl_tele c') = added otel_hook m (cl_tele c) \<and>
    added prom_hook m (cl_tele c') = added prom_hook m (cl_tele c)"
proof -
  obtain pr c1 where prep0: "prepareSend E payload dest c = (pr, c1)" by fastforce
  with assms obtain req rel where pr: "pr = Inr (req, rel)"
    by (cases pr) (auto simp: sendAsync_post_def try_act_def split: option.splits if_splits)
  obtain po c2 where post0: "in_world (PostSend E (cl_endpoint c1) (Some req)) c1 = (po, c2)" by fastforce
  have po: "po = Inr None"
    using assms prep0 post0 pr
    by (cases po) (auto simp: sendAsync_post_def try_act_def Let_def split: option.splits if_splits)
  note prep = prep0 [unfolded pr] and post = post0 [unfolded po]
  have c': "\<exists>text sz. c' = complete E strerror (length (cl_ops c2)) \<lparr>or_length = sl_len (sr_Buffer req), or_err = None\<rparr>
      (tell (logf (cl_obs c2) text) (c2\<lparr>cl_ops := cl_ops c2 @ [(newOperation OperationSend sz None)\<lparr>op_release := rel\<rparr>],
         cl_stats := (cl_stats c2)\<lparr>st_SendPosted := st_SendPosted (cl_stats c2) + 1\<rparr>\<rparr>))"
    using assms prep post
    by (simp add: sendAsync_post_def try_act_def Let_def split: option.splits if_splits) blast+
  have same: "cl_tele c1 = cl_tele c" "cl_tele c2 = cl_tele c1" "cl_stats c1 = cl_stats c" "cl_stats c2 = cl_stats c1"
    using tele_prepareSend [of E payload dest c] view_prepareSend [of "[]" E payload dest c] prep post
    by (auto simp: in_world_def ops_view_def split: prod.splits)
  have silent: "added otel_hook m (cl_tele c') = added otel_hook m (cl_tele c)" "added prom_hook m (cl_tele c') = added prom_hook m (cl_tele c)"
    using c' same by (auto simp: otel.complete_silent prom.complete_silent otel.tell_added prom.tell_added)
  have "cl_stats c' = done_stat OperationSend \<lparr>or_length = sl_len (sr_Buffer req), or_err = None\<rparr>
      ((cl_stats c)\<lparr>st_SendPosted := st_SendPosted (cl_stats c) + 1\<rparr>)"
    using c' same by (auto simp: tell_def newOperation_def complete_stats)
  with silent show ?thesis by (simp add: done_stat_def)
qed

theorem completion_measured_witness:
  "added prom_hook CSendCompleted
     (cl_tele (finish_completion demo_env (\<lambda>_. '''') None None None 5 (cy_client (demo_sys 3)))) = 1"
proof -
  have c: "Value 5 (cl_world (cy_client (demo_sys 3))) = OpVal 0" "map op_once (cl_ops (cy_client (demo_sys 3))) = [False]"
    "map op_kind (cl_ops (cy_client (demo_sys 3))) = [OperationSend]" "ob_metrics (cl_obs (cy_client (demo_sys 3))) = Some 3"
    "cl_tele (cy_client (demo_sys 3)) = []"
    by code_simp+
  then have "0 < length (cl_ops (cy_client (demo_sys 3)))" "\<not> op_once (cl_ops (cy_client (demo_sys 3)) ! 0)"
    "op_kind (cl_ops (cy_client (demo_sys 3)) ! 0) = OperationSend"
    by (cases "cl_ops (cy_client (demo_sys 3))"; simp)+
  with completion_measured [of "cy_client (demo_sys 3)" 5 0 None demo_env "\<lambda>_. ''''" None None] c
  show ?thesis by (auto simp: outcome_def)
qed

text \<open>The same client on an endpoint that injects small sends.\<close>

definition inject_client :: "nat client" where
  "inject_client = demo_client\<lparr>cl_endpoint := post_ep\<lparr>ep_injectLimit := 64\<rparr>\<rparr>"

theorem injected_unmeasured_witness:
  "added otel_hook CSendCompleted (cl_tele (snd (sendAsync_post demo_env (\<lambda>_. '''') demo_payload 7 inject_client))) = 0"
proof -
  have "fst (sendAsync_post demo_env (\<lambda>_. '''') demo_payload 7 inject_client) = Inr (0, None)" "cl_tele inject_client = []"
    by code_simp+
  with injected_unmeasured [of demo_env "\<lambda>_. ''''" demo_payload 7 inject_client 0] show ?thesis
    by (metis added_Nil prod.collapse)
qed

end
