(* ===== verification/Resources.thy ===== *)
theory Resources
  imports Endpoints Names "HOL-Library.Multiset"
begin

text \<open>
  What \<open>Dial\<close>, \<open>Connect\<close>, \<open>Listen\<close> and \<open>handleConnReq\<close> do over and over: open a wrapper, and
  when a later step fails, close every wrapper opened so far and return the wrapped error. The
  contract of an open function is the locale \<open>opener\<close>; its rule and the rule for a step that
  opens nothing carry the proofs of those four functions.
\<close>

section \<open>Resources\<close>

datatype resource =
    RFabric nat
  | RDomain godomain
  | RCQ compq
  | REQ nat
  | REndpoint endpoint
  | RAV nat
  | RPassive nat

fun res_id :: "resource \<Rightarrow> nat" where
  "res_id (RFabric i) = i"
| "res_id (RDomain d) = gd_ref d"
| "res_id (RCQ c) = cq_ref c"
| "res_id (REQ i) = i"
| "res_id (REndpoint e) = ep_ref e"
| "res_id (RAV i) = i"
| "res_id (RPassive i) = i"

fun res_kind :: "resource \<Rightarrow> kind" where
  "res_kind (RFabric _) = KFabric"
| "res_kind (RDomain _) = KDomain"
| "res_kind (RCQ _) = KCQ"
| "res_kind (REQ _) = KEQ"
| "res_kind (REndpoint _) = KEndpoint"
| "res_kind (RAV _) = KAV"
| "res_kind (RPassive _) = KPassive"

text \<open>\<open>_ = x.Close()\<close>.\<close>

fun close_res :: "'p cenv \<Rightarrow> resource \<Rightarrow> 'p world \<Rightarrow> 'p world" where
  "close_res E (RFabric i) w = snd (Fabric_Close E i w)"
| "close_res E (RDomain d) w = snd (Domain_Close E d w)"
| "close_res E (RCQ c) w = snd (CQ_Close E c w)"
| "close_res E (REQ i) w = snd (EQ_Close E i w)"
| "close_res E (REndpoint e) w = snd (Endpoint_Close E e w)"
| "close_res E (RAV i) w = snd (AV_Close E i w)"
| "close_res E (RPassive i) w = snd (Passive_Close E i w)"

text \<open>
  The body of \<open>if err != nil\<close> in those functions: close what was opened, in the order listed, and
  return the error wrapped with the name of the step. \<open>fail_plain\<close> returns the error as it is.
\<close>

definition give_up ::
  "'p cenv \<Rightarrow> resource list \<Rightarrow> string \<Rightarrow> goerr \<Rightarrow> 'p world \<Rightarrow> 'a result \<times> 'p world" where
  "give_up E rs what e w = (Inl (Wrap what e), fold (close_res E) rs w)"

definition fail_plain :: "'p cenv \<Rightarrow> resource list \<Rightarrow> goerr \<Rightarrow> 'p world \<Rightarrow> 'a result \<times> 'p world" where
  "fail_plain E rs e w = (Inl e, fold (close_res E) rs w)"

section \<open>Owning a set of resources\<close>

text \<open>
  Since world \<open>w0\<close> the program has opened exactly the resources \<open>rs\<close> and still holds them: each
  has a fresh wrapper, older wrappers are as they were, and the ledger has grown by one entry
  per resource.
\<close>

definition owns :: "'p cenv \<Rightarrow> 'p world \<Rightarrow> resource list \<Rightarrow> 'p world \<Rightarrow> bool" where
  "owns E w0 rs w \<longleftrightarrow>
     distinct (map res_id rs) \<and> next_id w0 \<le> next_id w \<and>
     (\<forall>j < next_id w0. handles w j = handles w0 j) \<and>
     (\<forall>r \<in> set rs. next_id w0 \<le> res_id r \<and> res_id r < next_id w \<and>
        (\<exists>p. handles w (res_id r) = Some (res_kind r, p))) \<and>
     (\<forall>h. ledger E w h = ledger E w0 h + (\<Sum>r\<leftarrow>rs. acct (handles w (res_id r)) h))"

text \<open>Nothing of what was opened since \<open>w0\<close> is left, and older wrappers are as they were.\<close>

definition restored :: "'p cenv \<Rightarrow> 'p world \<Rightarrow> 'p world \<Rightarrow> bool" where
  "restored E w0 w \<longleftrightarrow> ledger E w = ledger E w0 \<and> (\<forall>j < next_id w0. handles w j = handles w0 j)"

text \<open>A step that opens and closes nothing.\<close>

definition quiet :: "'p cenv \<Rightarrow> 'p world \<Rightarrow> 'p world \<Rightarrow> bool" where
  "quiet E w w' \<longleftrightarrow> handles w' = handles w \<and> next_id w' = next_id w \<and> ledger E w' = ledger E w"

lemma quiet_refl [simp]: "quiet E w w"
  by (simp add: quiet_def)

lemma quiet_trans: "quiet E w w1 \<Longrightarrow> quiet E w1 w2 \<Longrightarrow> quiet E w w2"
  by (simp add: quiet_def)

lemma owns_Nil: "owns E w [] w"
  by (simp add: owns_def)

lemma owns_quiet: "owns E w0 rs w \<Longrightarrow> quiet E w w' \<Longrightarrow> owns E w0 rs w'"
  by (simp add: owns_def quiet_def)

lemma owns_perm:
  assumes "owns E w0 rs w" and "mset rs' = mset rs"
  shows "owns E w0 rs' w"
proof -
  have "mset (map res_id rs') = mset (map res_id rs)"
    by (simp only: mset_map assms(2))
  then have "distinct (map res_id rs') = distinct (map res_id rs)"
    by (rule mset_eq_imp_distinct_iff)
  moreover have "set rs' = set rs"
    using assms(2) by (rule mset_eq_setD)
  moreover have "(\<Sum>r\<leftarrow>rs'. acct (handles w (res_id r)) h) = (\<Sum>r\<leftarrow>rs. acct (handles w (res_id r)) h)" for h
    using assms(2) by (metis mset_map sum_mset_sum_list)
  ultimately show ?thesis
    using assms(1) by (simp add: owns_def)
qed

lemma owns_open:
  assumes "owns E w0 rs w" and "handles w' = (handles w)(next_id w \<mapsto> (res_kind r, p))"
    and "next_id w' = Suc (next_id w)" and "res_id r = next_id w"
    and "\<And>h. ledger E w' h = ledger E w h + tally (res_kind r) p h"
  shows "owns E w0 (r # rs) w'"
proof -
  have neq: "res_id s \<noteq> next_id w" if "s \<in> set rs" for s
    using assms(1) that by (auto simp: owns_def)
  then have same: "handles w' (res_id s) = handles w (res_id s)" if "s \<in> set rs" for s
    using that assms(2) by simp
  have "(\<Sum>s\<leftarrow>rs. acct (handles w' (res_id s)) h) = (\<Sum>s\<leftarrow>rs. acct (handles w (res_id s)) h)" for h
    using same by (metis (mono_tags, lifting) map_eq_conv)
  then show ?thesis
    using assms neq same by (auto simp: owns_def less_Suc_eq)
qed

text \<open>On an owned resource, \<open>Close\<close> of its type empties its cell.\<close>

lemma close_res_cell:
  "handles w (res_id r) = Some (res_kind r, p) \<Longrightarrow> close_res E r w = close_cell E (res_id r) w"
  by (cases r) (simp_all add: close_cell_def Fabric_Close_def Domain_Close_def CQ_Close_def EQ_Close_def
      Endpoint_Close_def AV_Close_def Passive_Close_def capi_Fabric_Close_def capi_Domain_Close_def
      capi_CQ_Close_def capi_EQ_Close_def capi_Endpoint_Close_def capi_AV_Close_def capi_Passive_Close_def)

lemma fold_close_res:
  assumes "distinct (map res_id rs)" and "\<forall>r \<in> set rs. \<exists>p. handles w (res_id r) = Some (res_kind r, p)"
  shows "fold (close_res E) rs w = fold (close_cell E) (map res_id rs) w"
  using assms
proof (induction rs arbitrary: w)
  case (Cons r rs)
  from Cons.prems have "close_res E r w = close_cell E (res_id r) w"
    by (auto intro: close_res_cell)
  moreover from Cons.prems
  have "\<forall>s \<in> set rs. \<exists>p. handles (close_cell E (res_id r) w) (res_id s) = Some (res_kind s, p)"
    by (metis (no_types, lifting) close_cell_frame(9) distinct.simps(2) fun_upd_other image_eqI list.set_intros(2)
        list.simps(9) set_map)
  ultimately show ?case using Cons by simp
qed simp

lemma next_id_close_cells [simp]: "next_id (fold (close_cell E) is w) = next_id w"
  by (induction "is" arbitrary: w) simp_all

text \<open>Closing everything that is owned restores the ledger, in whatever order.\<close>

lemma close_owned:
  assumes "owns E w0 rs w"
  shows "restored E w0 (fold (close_res E) rs w)"
    and "\<forall>r \<in> set rs. handles (fold (close_res E) rs w) (res_id r) = None"
proof -
  have eq: "fold (close_res E) rs w = fold (close_cell E) (map res_id rs) w"
    using assms by (intro fold_close_res) (auto simp: owns_def)
  have "ledger E (fold (close_cell E) (map res_id rs) w) h = ledger E w0 h" for h
    using assms cells.debt_fold [of "map res_id rs" E w h] by (cases h) (simp add: owns_def o_def)
  moreover have "handles (fold (close_cell E) (map res_id rs) w) j = handles w0 j" if "j < next_id w0" for j
    using assms that by (auto simp: owns_def cells.cell_fold)
  ultimately show "restored E w0 (fold (close_res E) rs w)"
    unfolding eq restored_def by blast
  show "\<forall>r \<in> set rs. handles (fold (close_res E) rs w) (res_id r) = None"
    unfolding eq by (simp add: cells.cell_fold)
qed

lemma owns_NilD: "owns E w0 [] w \<Longrightarrow> restored E w0 w"
  by (auto simp: owns_def restored_def)

section \<open>The rules\<close>

text \<open>
  The contract of an open function: when it fails it leaves nothing behind; when it succeeds
  there is one new wrapper and one new entry on the ledger.
\<close>

locale opener =
  fixes E :: "'p cenv"
    and opn :: "'p world \<Rightarrow> 'a result \<times> 'p world"
    and res :: "'a \<Rightarrow> resource"
  assumes fails: "opn w = (Inl e, w') \<Longrightarrow> quiet E w w'"
    and succeeds: "opn w = (Inr x, w') \<Longrightarrow>
      res_id (res x) = next_id w \<and> next_id w' = Suc (next_id w) \<and>
      (\<exists>p. handles w' = (handles w)(next_id w \<mapsto> (res_kind (res x), p)) \<and>
           (\<forall>h. ledger E w' h = ledger E w h + tally (res_kind (res x)) p h))"
begin

lemma acquired: "owns E w0 rs w \<Longrightarrow> opn w = (Inr x, w') \<Longrightarrow> owns E w0 (res x # rs) w'"
  using succeeds [of w x w'] by (blast intro: owns_open)

lemma acquire:
  assumes "owns E w0 rs w" and "mset rs' = mset rs"
    and "\<And>x w'. opn w = (Inr x, w') \<Longrightarrow> owns E w0 (res x # rs) w' \<Longrightarrow> P (k x w')"
    and "\<And>e w'. restored E w0 w' \<Longrightarrow> P (Inl (Wrap what e), w')"
  shows "P (try_act opn (give_up E rs' what) k w)"
proof (rule try_act_rule)
  fix e w' assume "opn w = (Inl e, w')"
  then have "owns E w0 rs' w'"
    using assms(1,2) by (blast intro: owns_perm owns_quiet fails)
  then show "P (give_up E rs' what e w')"
    unfolding give_up_def by (intro assms(4) close_owned)
qed (use assms acquired in blast)

end

text \<open>The rules for a step that opens nothing.\<close>

lemma quiet_do:
  assumes "owns E w0 rs w" and "mset rs' = mset rs" and "quiet E w (snd (m w))"
    and "\<And>w'. owns E w0 rs w' \<Longrightarrow> P (k w')"
    and "\<And>e w'. restored E w0 w' \<Longrightarrow> P (Inl (Wrap what e), w')"
  shows "P (try_do m (give_up E rs' what) k w)"
proof (rule try_do_rule)
  fix e w' assume "m w = (Some e, w')"
  then have "owns E w0 rs' w'"
    using assms(1-3) by (auto intro: owns_perm owns_quiet)
  then show "P (give_up E rs' what e w')"
    unfolding give_up_def by (intro assms(5) close_owned)
next
  fix w' assume "m w = (None, w')"
  with assms(1,3) have "owns E w0 rs w'" by (auto intro: owns_quiet)
  then show "P (k w')" by (rule assms(4))
qed

lemma quiet_act:
  assumes "owns E w0 rs w" and "mset rs' = mset rs" and "quiet E w (snd (m w))"
    and "\<And>x w'. m w = (Inr x, w') \<Longrightarrow> owns E w0 rs w' \<Longrightarrow> P (k x w')"
    and "\<And>e w'. restored E w0 w' \<Longrightarrow> P (Inl (Wrap what e), w')"
  shows "P (try_act m (give_up E rs' what) k w)"
proof (rule try_act_rule)
  fix e w' assume "m w = (Inl e, w')"
  then have "owns E w0 rs' w'"
    using assms(1-3) by (auto intro: owns_perm owns_quiet)
  then show "P (give_up E rs' what e w')"
    unfolding give_up_def by (intro assms(5) close_owned)
next
  fix x w' assume m: "m w = (Inr x, w')"
  with assms(1,3) have "owns E w0 rs w'" by (auto intro: owns_quiet)
  then show "P (k x w')" by (rule assms(4) [OF m])
qed

section \<open>Steps that open nothing\<close>

named_theorems quiet_steps \<open>operations that open and close no wrapper\<close>

lemma quiet_status_call [quiet_steps]: "neutral c \<Longrightarrow> quiet E w (snd (status_call E c op w))"
  by (simp add: quiet_def)

lemma quiet_guarded [quiet_steps]: "neutral c \<Longrightarrow> quiet E w (snd (guarded E p c op w))"
  by (simp add: guarded_def quiet_status_call)

lemma quiet_with_handle [quiet_steps]:
  "(\<And>p. quiet E w (snd (k p w))) \<Longrightarrow> quiet E w (snd (with_handle i mk e k w))"
  by (simp add: with_handle_def split: option.split)

lemma quiet_try_act:
  assumes "quiet E w (snd (m w))"
    and "\<And>e w'. quiet E w w' \<Longrightarrow> quiet E w (snd (f e w'))"
    and "\<And>x w'. quiet E w w' \<Longrightarrow> quiet E w (snd (k x w'))"
  shows "quiet E w (snd (try_act m f k w))"
proof (rule try_act_rule)
  show "quiet E w (snd (f e w'))" if "m w = (Inl e, w')" for e w'
    using assms(1,2) that by simp
  show "quiet E w (snd (k x w'))" if "m w = (Inr x, w')" for x w'
    using assms(1,3) that by simp
qed

lemma quiet_binds [quiet_steps]:
  "quiet E w (snd (BindCompletionQueue E e cq fl w))"
  "quiet E w (snd (BindEventQueue E e eq fl w))"
  "quiet E w (snd (BindAddressVector E e av fl w))"
  "quiet E w (snd (Passive_BindEventQueue E pp eq fl w))"
  by (auto simp: BindCompletionQueue_def BindEventQueue_def BindAddressVector_def Passive_BindEventQueue_def
      capi_BindCompletionQueue_def capi_BindEventQueue_def capi_BindAddressVector_def capi_Bind_def
      capi_Passive_BindEventQueue_def intro!: quiet_steps)

lemma quiet_control [quiet_steps]:
  "quiet E w (snd (Endpoint_Enable E e w))"
  "quiet E w (snd (Endpoint_Connect E e ps w))"
  "quiet E w (snd (Endpoint_Accept E e ps w))"
  "quiet E w (snd (Passive_Listen E pp w))"
  by (auto simp: Endpoint_Enable_def Endpoint_Connect_def Endpoint_Accept_def Passive_Listen_def
      capi_Enable_def capi_Connect_def capi_Accept_def capi_Listen_def intro!: quiet_steps)

lemma quiet_names [quiet_steps]:
  "quiet E w (snd (Endpoint_Name E e w))"
  "quiet E w (snd (Passive_Name E pp w))"
  by (auto simp: Endpoint_Name_def capi_Endpoint_Name_def Passive_Name_def capi_Passive_Name_def quiet_def
      with_handle_def split: option.split)

lemma quiet_memory:
  "quiet E w (snd (c_malloc E' own n w))" "quiet E w (c_free p w)" "quiet E w (Memcpy d s n w)"
  by (simp_all add: quiet_def)

lemma quiet_InsertRaw [quiet_steps]: "quiet E w (snd (InsertRaw E a addr fl w))"
  by (simp add: InsertRaw_def with_handle_def quiet_def capi_AV_InsertRaw_def split_beta AllocBytes_def FreeBytes_def
      split: option.split)

lemma quiet_InsertService [quiet_steps]: "quiet E w (snd (InsertService E a node service fl w))"
  by (simp add: InsertService_def with_handle_def quiet_def capi_AV_InsertService_def split_beta split: option.split)

lemma quiet_RegisterAddress [quiet_steps]: "quiet E w (snd (RegisterAddress E e av fl w))"
  unfolding RegisterAddress_def
  by (intro quiet_with_handle quiet_try_act)
    (auto intro: quiet_steps quiet_trans)

section \<open>The open functions\<close>

text \<open>
  The native part of an open function: it refuses, or makes one C call that opens an object of
  kind \<open>k\<close>.
\<close>

definition opens_one :: "'p cenv \<Rightarrow> kind \<Rightarrow> ('p world \<Rightarrow> ptr result \<times> 'p world) \<Rightarrow> bool" where
  "opens_one E k m \<longleftrightarrow>
     (\<forall>w. (\<exists>c op. opens c = Some k \<and> m w = open_call E c op w) \<or> (\<exists>e. m w = (Inl e, w)))"

lemma opens_one_native:
  "opens_one E KFabric (capi_OpenFabric E d)"
  "opens_one E KDomain (capi_OpenDomain E p d)"
  "opens_one E KEndpoint (capi_OpenEndpoint E p d)"
  "opens_one E KEndpoint (capi_OpenEndpointWithInfo E p d)"
  "opens_one E KCQ (capi_OpenCompletionQueue E p cqa)"
  "opens_one E KEQ (capi_OpenEventQueue E p eqa)"
  "opens_one E KAV (capi_OpenAV E p ava)"
  "opens_one E KPassive (capi_OpenPassiveEndpoint E p d)"
  by (auto simp: opens_one_def capi_OpenFabric_def capi_OpenDomain_def capi_OpenEndpoint_def
      capi_OpenEndpointWithInfo_def capi_OpenCompletionQueue_def capi_OpenEventQueue_def capi_OpenAV_def
      capi_OpenPassiveEndpoint_def split: option.split intro: opens.simps)

lemma opens_one_effect:
  assumes "opens_one E k m"
  shows "handles (snd (m w)) = handles w" "next_id (snd (m w)) = next_id w"
    and "ledger E (snd (m w)) h = ledger E w h + (case fst (m w) of Inl _ \<Rightarrow> 0 | Inr p \<Rightarrow> tally k p h)"
proof -
  from assms consider (call) c op where "opens c = Some k" "m w = open_call E c op w"
    | (refuse) e where "m w = (Inl e, w)"
    unfolding opens_one_def by blast
  then have "handles (snd (m w)) = handles w \<and> next_id (snd (m w)) = next_id w \<and>
    ledger E (snd (m w)) h = ledger E w h + (case fst (m w) of Inl _ \<Rightarrow> 0 | Inr p \<Rightarrow> tally k p h)"
    by cases (simp_all add: ledger_open_call)
  then show "handles (snd (m w)) = handles w" "next_id (snd (m w)) = next_id w"
    "ledger E (snd (m w)) h = ledger E w h + (case fst (m w) of Inl _ \<Rightarrow> 0 | Inr p \<Rightarrow> tally k p h)"
    by simp_all
qed

lemma wrap_open_fails:
  assumes "opens_one E k m" and "wrap_open k m w = (Inl e, w')"
  shows "quiet E w w'"
  using opens_one_effect [OF assms(1), of w] assms(2) by (auto simp: wrap_open_Inl quiet_def fun_eq_iff)

lemma wrap_open_succeeds:
  assumes "opens_one E k m" and "wrap_open k m w = (Inr i, w')"
  shows "i = next_id w" and "next_id w' = Suc (next_id w)"
    and "\<exists>p. handles w' = (handles w)(next_id w \<mapsto> (k, p)) \<and> (\<forall>h. ledger E w' h = ledger E w h + tally k p h)"
  using opens_one_effect [OF assms(1), of w] assms(2) by (auto simp: wrap_open_Inr)

lemma try_act_build:
  "try_act m (\<lambda>e w. (Inl e, w)) (\<lambda>i w. (Inr (mk i), w)) w = (Inl e, w') \<longleftrightarrow> m w = (Inl e, w')"
  "try_act m (\<lambda>e w. (Inl e, w)) (\<lambda>i w. (Inr (mk i), w)) w = (Inr x, w') \<longleftrightarrow> (\<exists>i. m w = (Inr i, w') \<and> x = mk i)"
  "(Inl e, w') = try_act m (\<lambda>e w. (Inl e, w)) (\<lambda>i w. (Inr (mk i), w)) w \<longleftrightarrow> m w = (Inl e, w')"
  "(Inr x, w') = try_act m (\<lambda>e w. (Inl e, w)) (\<lambda>i w. (Inr (mk i), w)) w \<longleftrightarrow> (\<exists>i. m w = (Inr i, w') \<and> x = mk i)"
  by (cases "m w", cases "fst (m w)", auto simp: try_act_def)+

text \<open>The same behind a handle check, with the wrapper built from the cell number.\<close>

lemma opener_wrap:
  assumes "\<And>i. res_id (res (mk i)) = i \<and> res_kind (res (mk i)) = k"
    and "\<And>w. (\<exists>m. opens_one E k m \<and> opn w = try_act (wrap_open k m) (\<lambda>e w. (Inl e, w)) (\<lambda>i w. (Inr (mk i), w)) w)
            \<or> (\<exists>e. opn w = (Inl e, w))"
  shows "opener E opn res"
proof
  fix w e w' assume "opn w = (Inl e, w')"
  with assms(2) [of w] consider m where "opens_one E k m" "wrap_open k m w = (Inl e, w')" | "w' = w"
    by (auto simp: try_act_build)
  then show "quiet E w w'"
    by cases (auto intro: wrap_open_fails)
next
  fix w x w' assume "opn w = (Inr x, w')"
  with assms(2) [of w] obtain m i where m: "opens_one E k m" "wrap_open k m w = (Inr i, w')" "x = mk i"
    by (auto simp: try_act_build)
  show "res_id (res x) = next_id w \<and> next_id w' = Suc (next_id w) \<and>
      (\<exists>p. handles w' = (handles w)(next_id w \<mapsto> (res_kind (res x), p)) \<and>
           (\<forall>h. ledger E w' h = ledger E w h + tally (res_kind (res x)) p h))"
    using wrap_open_succeeds [OF m(1,2)] assms(1) [of i] m(3) by simp
qed

lemma try_act_return: "try_act m (\<lambda>e w. (Inl e, w)) (\<lambda>i w. (Inr i, w)) w = m w"
  by (simp add: try_act_def split: prod.split sum.split)

lemma with_handle_choice:
  "with_handle i Inl e k w = (case handles w i of None \<Rightarrow> (Inl e, w) | Some x \<Rightarrow> k (snd x) w)"
  by (simp add: with_handle_def split: option.split)

interpretation fabrics: opener E "OpenFabric E d" RFabric for E d
  by (rule opener_wrap [where mk = "\<lambda>i. i" and k = KFabric])
    (auto simp: OpenFabric_def try_act_return intro: opens_one_native)

interpretation domains: opener E "OpenDomain E d f" RDomain for E d f
  by (rule opener_wrap [where k = KDomain and
        mk = "\<lambda>i. \<lparr>gd_ref = i, gd_mrMode = MRMode d, gd_mrKeySize = MRKeySize d, gd_mrIovLimit = MRIovLimit d\<rparr>"])
    (auto simp: OpenDomain_def with_handle_choice split: option.split intro: opens_one_native)

interpretation compqs: opener E "OpenCompletionQueue E d attr" RCQ for E d attr
  by (rule opener_wrap [where k = KCQ and mk = "\<lambda>i. \<lparr>cq_ref = i, cq_format = capi_cq_format E attr\<rparr>"])
    (auto simp: OpenCompletionQueue_def with_handle_choice split: option.split intro: opens_one_native)

interpretation eventqs: opener E "OpenEventQueue E f attr" REQ for E f attr
  by (rule opener_wrap [where k = KEQ and mk = "\<lambda>i. i"])
    (auto simp: OpenEventQueue_def with_handle_choice try_act_return split: option.split intro: opens_one_native)

interpretation endpoints: opener E "OpenEndpoint E i d" REndpoint for E i d
  by (rule opener_wrap [where k = KEndpoint and mk = "\<lambda>j. \<lparr>ep_ref = j, ep_injectLimit = InjectSize i,
        ep_supportsTagged = any_bit (fi_caps i) (FI_TAGGED (hdr E))\<rparr>"])
    (auto simp: OpenEndpoint_def with_handle_choice split: option.split intro: opens_one_native)

interpretation vectors: opener E "OpenAddressVector E d attr" RAV for E d attr
  by (rule opener_wrap [where k = KAV and mk = "\<lambda>i. i"])
    (auto simp: OpenAddressVector_def with_handle_choice try_act_return split: option.split intro: opens_one_native)

interpretation passives: opener E "OpenPassiveEndpoint E i f" RPassive for E i f
  by (rule opener_wrap [where k = KPassive and mk = "\<lambda>i. i"])
    (auto simp: OpenPassiveEndpoint_def with_handle_choice try_act_return split: option.split intro: opens_one_native)

text \<open>The endpoint of a connection request.\<close>

definition event_endpoint :: "'p cenv \<Rightarrow> ver_api \<Rightarrow> fi_info option \<Rightarrow> nat \<Rightarrow> endpoint" where
  "event_endpoint E A entry i =
     (case entry of
        None \<Rightarrow> \<lparr>ep_ref = i, ep_injectLimit = 0, ep_supportsTagged = False\<rparr>
      | Some d \<Rightarrow> (let info = infoFromEntry (hdr E) A d
                   in \<lparr>ep_ref = i, ep_injectLimit = i_InjectSize info,
                       ep_supportsTagged = Info_SupportsTagged (hdr E) info\<rparr>))"

interpretation accepted: opener E "CE_OpenEndpoint E A ev d" REndpoint for E A ev d
proof (cases ev)
  case (Some c)
  show "opener E (CE_OpenEndpoint E A ev d) REndpoint"
    by (rule opener_wrap [where k = KEndpoint and mk = "event_endpoint E A (cm_Info c)"])
      (auto simp: Some CE_OpenEndpoint_def OpenEndpointWithInfo_def with_handle_choice event_endpoint_def Let_def
        split: option.split intro: opens_one_native)
qed (rule opener.intro, simp_all add: CE_OpenEndpoint_def)

end
