(* ===== verification/Lifecycle.thy ===== *)
theory Lifecycle
  imports Client Resources
begin

text \<open>
  How clients come to be and end: \<open>Dial\<close> and \<open>Close\<close> of \<open>client/client.go\<close>, \<open>Connect\<close> of
  \<open>client/connect.go\<close>, and the listener of \<open>client/listener.go\<close>.

  \<open>implements\<close> is the type assertion of a logger to \<open>StructuredLogger\<close>. A new client's
  dispatcher goroutine is not run here: it is \<open>dispatch\<close> and the poll step of the client's runs.
  The loops that wait for connection events take fuel; what they read of the outside besides the
  event queue is a record indexed by the iteration.
\<close>

section \<open>Choices of Dial\<close>

text \<open>The defaults, in nanoseconds for the timeout.\<close>

definition with_defaults :: "string \<Rightarrow> int \<Rightarrow> Config \<Rightarrow> Config" where
  "with_defaults provider eptype cfg =
     cfg\<lparr>cf_Provider := (if cf_Provider cfg = '''' then provider else cf_Provider cfg),
         cf_EndpointType := (if cf_EndpointType cfg = 0 then eptype else cf_EndpointType cfg),
         cf_Timeout := (if cf_Timeout cfg = 0 then 5000000000 else cf_Timeout cfg)\<rparr>"

text \<open>The first descriptor of the wanted endpoint type, else the first one.\<close>

definition select_descriptor :: "fi_hdr \<Rightarrow> ver_api \<Rightarrow> int \<Rightarrow> fi_info list \<Rightarrow> fi_info" where
  "select_descriptor H A t ds =
     (case find (\<lambda>d. i_Endpoint (infoFromEntry H A d) = t) ds of Some d \<Rightarrow> d | None \<Rightarrow> hd ds)"

text \<open>\<open>&CompletionQueueAttr{Format: CQFormatMsg}\<close> and \<open>&AddressVectorAttr{Type: AVTypeMap}\<close>.\<close>

definition msg_cq_attr :: "fi_hdr \<Rightarrow> CQAttr" where
  "msg_cq_attr H = \<lparr>cqa_Size = 0, cqa_Flags = 0, cqa_Format = FI_CQ_FORMAT_MSG H, cqa_WaitObj = 0,
     cqa_SignalingVector = 0, cqa_WaitCondition = 0\<rparr>"

definition map_av_attr :: "fi_hdr \<Rightarrow> AVAttr" where
  "map_av_attr H = \<lparr>ava_Type = FI_AV_MAP H, ava_RXCtxBits = 0, ava_Count = 0, ava_EPPerNode = 0,
     ava_Name = '''', ava_Flags = 0\<rparr>"

definition dial_cq_attr :: "fi_hdr \<Rightarrow> Config \<Rightarrow> CQAttr option" where
  "dial_cq_attr H cfg = (if cf_EndpointType cfg = FI_EP_RDM H then Some (msg_cq_attr H) else None)"

definition both_directions :: "fi_hdr \<Rightarrow> uint64" where
  "both_directions H = FI_SEND H OR FI_RECV H"

text \<open>
  The size and capacity of the pool. \<open>InjectSize\<close> is unsigned in Go; its conversion to \<open>int\<close>
  may be negative.
\<close>

definition pool_limits :: "bool \<Rightarrow> Config \<Rightarrow> Info \<Rightarrow> int \<times> int" where
  "pool_limits requiresMR cfg info =
     (let size0 = cf_MRPoolSize cfg; cap0 = cf_MRPoolCapacity cfg
      in if requiresMR then
           let size1 = (if size0 \<le> 0 \<and> 0 < i_InjectSize info then sint (word_of_nat (i_InjectSize info) :: int64) else size0);
               size2 = (if size0 \<le> 0 \<and> size1 \<le> 0 then 4096 else size1)
           in (size2, if cap0 \<le> 0 then 32 else cap0)
         else (size0, cap0))"

definition pool_access :: "fi_hdr \<Rightarrow> Config \<Rightarrow> uint64" where
  "pool_access H cfg = (if cf_MRPoolAccess cfg = 0 then FI_MR_LOCAL H else cf_MRPoolAccess cfg)"

section \<open>A new client\<close>

definition zero_stats :: Stats where
  "zero_stats = \<lparr>st_SendPosted = 0, st_SendCompleted = 0, st_SendErrored = 0, st_ReceivePosted = 0,
     st_ReceiveMatched = 0, st_ReceiveErrored = 0\<rparr>"

definition observers_of :: "(nat \<Rightarrow> bool) \<Rightarrow> Config \<Rightarrow> observers" where
  "observers_of implements cfg =
     \<lparr>ob_cfg = cfg, ob_logger = cf_Logger cfg,
      ob_structured = structured_of implements (cf_StructuredLogger cfg) (cf_Logger cfg),
      ob_tracer = cf_Tracer cfg, ob_metrics = cf_Metrics cfg\<rparr>"

text \<open>
  The composite literal \<open>&Client{...}\<close>: the fields named there, zero values elsewhere. \<open>own\<close> is
  \<open>ownFabric\<close> and \<open>ownDomain\<close>; the endpoint and the queues are always owned.
\<close>

definition new_client ::
  "observers \<Rightarrow> nat \<Rightarrow> godomain \<Rightarrow> endpoint \<Rightarrow> compq \<Rightarrow> nat option \<Rightarrow> nat option \<Rightarrow> uint64 \<Rightarrow> byte list \<Rightarrow>
   bool \<Rightarrow> 'p world \<Rightarrow> 'p client" where
  "new_client ob fabric domain ep cq eq av selfAddr selfRaw own w =
     \<lparr>cl_obs = ob, cl_fabric = fabric, cl_domain = domain, cl_endpoint = ep, cl_cq = cq, cl_eq = eq,
      cl_av = av, cl_selfAddr = selfAddr, cl_peerAddr = 0, cl_peerConfigured = False,
      cl_selfRaw = selfRaw, cl_mrPool = None, cl_mrAccess = 0, cl_requiresMR = False,
      cl_closed = False, cl_stopped = False, cl_dispatcherErr = None, cl_sendHandlers = [],
      cl_receiveHandlers = [], cl_handlerSeq = 0, cl_stats = zero_stats, cl_ownFabric = own,
      cl_ownDomain = own, cl_ownEndpoint = True, cl_ownCompletion = True,
      cl_ownEventQueue = (eq \<noteq> None), cl_ops = [], cl_spawned = [], cl_tele = [], cl_world = w\<rparr>"

text \<open>Return of a constructor: the client and the world, which are kept equal.\<close>

definition return_client :: "'p client \<Rightarrow> 'p client result \<times> 'p world" where
  "return_client c = (Inr c, cl_world c)"

text \<open>\<open>defer discovery.Close()\<close>, run after the result is built.\<close>

definition with_discovery ::
  "'p cenv \<Rightarrow> info_list \<Rightarrow> ('p world \<Rightarrow> 'p client result \<times> 'p world) \<Rightarrow> 'p world \<Rightarrow> 'p client result \<times> 'p world" where
  "with_discovery E d m w =
     (case m w of
        (Inl e, w') \<Rightarrow> (Inl e, snd (Discovery_Close E d w'))
      | (Inr c, w') \<Rightarrow> (let w'' = snd (Discovery_Close E d w') in (Inr (c\<lparr>cl_world := w''\<rparr>), w'')))"

section \<open>Dial\<close>

text \<open>The address vector, the endpoint's own address and its name, for RDM endpoints only.\<close>

definition dial_addresses ::
  "'p cenv \<Rightarrow> Config \<Rightarrow> godomain \<Rightarrow> endpoint \<Rightarrow> resource list \<Rightarrow> 'p world \<Rightarrow>
   (nat option \<times> uint64 \<times> byte list) result \<times> 'p world" where
  "dial_addresses E cfg domain ep rs w =
     (if cf_EndpointType cfg \<noteq> FI_EP_RDM (hdr E) then (Inr (None, 0, []), w)
      else
        try_act (OpenAddressVector E domain (Some (map_av_attr (hdr E)))) (give_up E rs ''open address vector'')
          (\<lambda>av. try_do (BindAddressVector E ep av 0) (give_up E (RAV av # rs) ''bind address vector'')
            (try_act (RegisterAddress E ep av 0) (give_up E (RAV av # rs) ''register endpoint address'')
              (\<lambda>self. try_act (Endpoint_Name E ep) (give_up E (RAV av # rs) ''query endpoint address'')
                (\<lambda>raw w. (Inr (Some av, self, raw), w))))) w)"

text \<open>The peer of the configuration. From here on a failure closes the client.\<close>

definition dial_peer :: "'p cenv \<Rightarrow> Config \<Rightarrow> 'p client \<Rightarrow> 'p client result \<times> 'p client" where
  "dial_peer E cfg c =
     (case cl_av c of
        None \<Rightarrow> (Inr c, c)
      | Some av \<Rightarrow>
          if cf_Node cfg \<noteq> '''' \<or> cf_Service cfg \<noteq> '''' then
            (case in_world (InsertService E av (cf_Node cfg) (cf_Service cfg) 0) c of
               (Inl e, c') \<Rightarrow> (Inl (Wrap ''register peer service'' e), Client_Close E c')
             | (Inr a, c') \<Rightarrow> (let c'' = c'\<lparr>cl_peerAddr := a, cl_peerConfigured := True\<rparr> in (Inr c'', c'')))
          else (Inr c, c))"

definition dial_pool :: "'p cenv \<Rightarrow> Config \<Rightarrow> Info \<Rightarrow> 'p client \<Rightarrow> 'p client result \<times> 'p world" where
  "dial_pool E cfg info c =
     (let needs = RequiresMRMode (gd_mrMode (cl_domain c)) (FI_MR_LOCAL (hdr E));
          c1 = c\<lparr>cl_requiresMR := needs, cl_mrAccess := pool_access (hdr E) cfg\<rparr>
      in case pool_limits needs cfg info of
           (sz, cap) \<Rightarrow>
             if 0 < sz then
               (case NewMRPool (cl_domain c) sz (pool_access (hdr E) cfg) cap (cl_world c1) of
                  Inl e \<Rightarrow> (Inl (Wrap ''create MR pool'' e), cl_world (Client_Close E c1))
                | Inr p \<Rightarrow>
                    return_client
                      (c1\<lparr>cl_mrPool := Some p,
                          cl_obs := (cl_obs c1)\<lparr>ob_cfg := (ob_cfg (cl_obs c1))\<lparr>cf_MRPoolSize := sz, cf_MRPoolCapacity := cap\<rparr>\<rparr>\<rparr>))
             else return_client c1)"

text \<open>From the descriptor to the client.\<close>

definition dial_descriptor ::
  "'p cenv \<Rightarrow> ver_api \<Rightarrow> (nat \<Rightarrow> bool) \<Rightarrow> Config \<Rightarrow> fi_info \<Rightarrow> 'p world \<Rightarrow> 'p client result \<times> 'p world" where
  "dial_descriptor E A implements cfg d =
     try_act (OpenFabric E d) (give_up E [] ''open fabric'')
      (\<lambda>fabric. try_act (OpenDomain E d fabric) (give_up E [RFabric fabric] ''open domain'')
       (\<lambda>domain. try_act (OpenCompletionQueue E domain (dial_cq_attr (hdr E) cfg))
                   (give_up E [RDomain domain, RFabric fabric] ''open completion queue'')
        (\<lambda>cq. try_act (OpenEndpoint E d domain)
                (give_up E [RCQ cq, RDomain domain, RFabric fabric] ''open endpoint'')
         (\<lambda>ep. let rs = [REndpoint ep, RCQ cq, RDomain domain, RFabric fabric] in
           try_do (BindCompletionQueue E ep cq (both_directions (hdr E))) (give_up E rs ''bind completion queue'')
            (try_do (Endpoint_Enable E ep) (give_up E rs ''enable endpoint'')
             (try_act (dial_addresses E cfg domain ep rs) (\<lambda>e w. (Inl e, w))
              (\<lambda>(av, self, raw) w.
                (case dial_peer E cfg
                        ((new_client (observers_of implements cfg) fabric domain ep cq None av self raw True w)
                           \<lparr>cl_peerAddr := self, cl_peerConfigured := True\<rparr>) of
                   (Inl e, c) \<Rightarrow> (Inl e, cl_world c)
                 | (Inr c, _) \<Rightarrow> dial_pool E cfg (infoFromEntry (hdr E) A d) c))))))))"

definition Dial ::
  "'p cenv \<Rightarrow> ver_api \<Rightarrow> (nat \<Rightarrow> bool) \<Rightarrow> Config \<Rightarrow> 'p world \<Rightarrow> 'p client result \<times> 'p world" where
  "Dial E A implements cfg0 =
     (let cfg = with_defaults ''sockets'' (FI_EP_RDM (hdr E)) cfg0
      in try_act (DiscoverDescriptors E A [WithProvider (cf_Provider cfg), WithEndpointType (cf_EndpointType cfg)])
           (give_up E [] ''discover descriptors'')
           (\<lambda>d. with_discovery E d
              (\<lambda>w. if Descriptors d = [] then (Inl (Msg (''no descriptors found for provider '' @ cf_Provider cfg)), w)
                   else dial_descriptor E A implements cfg
                          (select_descriptor (hdr E) A (cf_EndpointType cfg) (Descriptors d)) w)))"

section \<open>Waiting for the connection\<close>

text \<open>
  What \<open>waitForConnected\<close> reads in iteration \<open>i\<close> besides the event queue: \<open>ctx.Err()\<close> and the
  nanoseconds left until the deadline. A nil context is never done.
\<close>

record conn_clock =
  cn_done :: "nat \<Rightarrow> ctxerr option"
  cn_left :: "nat \<Rightarrow> int"

fun connect_loop ::
  "nat \<Rightarrow> 'p cenv \<Rightarrow> nat \<Rightarrow> conn_clock \<Rightarrow> nat \<Rightarrow> nat \<Rightarrow> 'p world \<Rightarrow> (goerr option \<times> 'p world) option" where
  "connect_loop 0 E cm_size K eq i w = None"
| "connect_loop (Suc fuel) E cm_size K eq i w =
     (case cn_done K i of
        Some e \<Rightarrow> Some (Some (CtxErr e), w)
      | None \<Rightarrow>
          if cn_left K i \<le> 0 then Some (Some (Msg ''libfabric client: connect timeout exceeded''), w)
          else
            (case EQ_ReadCM E cm_size eq (cn_left K i) w of
               (Inl e, w1) \<Rightarrow>
                 if errors_Is e (Sentinel ErrNoEvent) then connect_loop fuel E cm_size K eq (Suc i) w1
                 else Some (Some e, w1)
             | (Inr ev, w1) \<Rightarrow>
                 (let typ = CE_Type (Some ev); w2 = snd (CE_Free E (Some ev) w1)
                  in if typ = FI_CONNECTED (hdr E) then Some (None, w2)
                     else if typ = FI_SHUTDOWN (hdr E)
                          then Some (Some (Msg ''libfabric client: connection closed during handshake''), w2)
                     else connect_loop fuel E cm_size K eq (Suc i) w2)))"

definition waitForConnected ::
  "nat \<Rightarrow> 'p cenv \<Rightarrow> nat \<Rightarrow> conn_clock \<Rightarrow> nat \<Rightarrow> 'p world \<Rightarrow> (goerr option \<times> 'p world) option" where
  "waitForConnected fuel E cm_size K eq w = connect_loop fuel E cm_size K eq 0 w"

section \<open>Connect\<close>

text \<open>
  Everything up to the wait, then what follows it; the wait in between may not return.
\<close>

definition connect_open ::
  "'p cenv \<Rightarrow> fi_info \<Rightarrow> 'p world \<Rightarrow> (nat \<times> godomain \<times> compq \<times> nat \<times> endpoint) result \<times> 'p world" where
  "connect_open E d =
     try_act (OpenFabric E d) (give_up E [] ''open fabric'')
      (\<lambda>fabric. try_act (OpenDomain E d fabric) (give_up E [RFabric fabric] ''open domain'')
       (\<lambda>domain. try_act (OpenCompletionQueue E domain None)
                   (give_up E [RDomain domain, RFabric fabric] ''open completion queue'')
        (\<lambda>cq. try_act (OpenEventQueue E fabric None)
                (give_up E [RCQ cq, RDomain domain, RFabric fabric] ''open event queue'')
         (\<lambda>eq. try_act (OpenEndpoint E d domain)
                 (give_up E [REQ eq, RCQ cq, RDomain domain, RFabric fabric] ''open endpoint'')
          (\<lambda>ep. let rs = [REndpoint ep, REQ eq, RCQ cq, RDomain domain, RFabric fabric] in
            try_do (BindCompletionQueue E ep cq (both_directions (hdr E))) (give_up E rs ''bind completion queue'')
             (try_do (BindEventQueue E ep eq 0) (give_up E rs ''bind event queue'')
              (try_do (Endpoint_Enable E ep) (give_up E rs ''enable endpoint'')
               (try_do (Endpoint_Connect E ep []) (give_up E rs ''connect'')
                 (\<lambda>w. (Inr (fabric, domain, cq, eq, ep), w))))))))))"

definition connected_client ::
  "fi_hdr \<Rightarrow> (nat \<Rightarrow> bool) \<Rightarrow> Config \<Rightarrow> nat \<times> godomain \<times> compq \<times> nat \<times> endpoint \<Rightarrow> 'p world \<Rightarrow> 'p client" where
  "connected_client H implements cfg =
     (\<lambda>(fabric, domain, cq, eq, ep) w.
        (new_client (observers_of implements cfg) fabric domain ep cq (Some eq) None 0 [] True w)
          \<lparr>cl_requiresMR := RequiresMRMode (gd_mrMode domain) (FI_MR_LOCAL H)\<rparr>)"

definition connect_descriptor ::
  "nat \<Rightarrow> 'p cenv \<Rightarrow> nat \<Rightarrow> conn_clock \<Rightarrow> (nat \<Rightarrow> bool) \<Rightarrow> Config \<Rightarrow> fi_info \<Rightarrow> 'p world \<Rightarrow>
   ('p client result \<times> 'p world) option" where
  "connect_descriptor fuel E cm_size K implements cfg d w =
     (case connect_open E d w of
        (Inl e, w1) \<Rightarrow> Some (Inl e, w1)
      | (Inr (fabric, domain, cq, eq, ep), w1) \<Rightarrow>
          (case waitForConnected fuel E cm_size K eq w1 of
             None \<Rightarrow> None
           | Some (Some e, w2) \<Rightarrow>
               Some (fail_plain E [REndpoint ep, REQ eq, RCQ cq, RDomain domain, RFabric fabric] e w2)
           | Some (None, w2) \<Rightarrow>
               Some (return_client (connected_client (hdr E) implements cfg (fabric, domain, cq, eq, ep) w2))))"

definition connect_options :: "string \<Rightarrow> string \<Rightarrow> string \<Rightarrow> DiscoverOption list" where
  "connect_options provider node service =
     (if provider \<noteq> '''' then [WithProvider provider] else []) @
     (if node \<noteq> '''' then [WithNode node] else []) @ [WithService service]"

definition Connect ::
  "nat \<Rightarrow> 'p cenv \<Rightarrow> ver_api \<Rightarrow> nat \<Rightarrow> conn_clock \<Rightarrow> (nat \<Rightarrow> bool) \<Rightarrow> Config \<Rightarrow> 'p world \<Rightarrow>
   ('p client result \<times> 'p world) option" where
  "Connect fuel E A cm_size K implements cfg0 w =
     (if cf_Service cfg0 = '''' then Some (Inl (Msg ''libfabric client connect: service required''), w)
      else
        let cfg = with_defaults '''' (FI_EP_MSG (hdr E)) cfg0
        in case DiscoverDescriptors E A
                  (WithEndpointType (cf_EndpointType cfg) #
                   connect_options (cf_Provider cfg) (cf_Node cfg) (cf_Service cfg)) w of
             (Inl e, w1) \<Rightarrow> Some (give_up E [] ''discover descriptors'' e w1)
           | (Inr d, w1) \<Rightarrow>
               (case Descriptors d of
                  [] \<Rightarrow> Some (with_discovery E d (\<lambda>w. (Inl (Msg (
                          ''libfabric client connect: no descriptors found for provider '' @ cf_Provider cfg)), w)) w1)
                | i # _ \<Rightarrow>
                    map_option (\<lambda>r. with_discovery E d (\<lambda>_. r) w1)
                      (connect_descriptor fuel E cm_size K implements cfg i w1)))"

section \<open>The listener\<close>

record ListenerConfig =
  lc_Provider :: string
  lc_Node :: string
  lc_Service :: string
  lc_Logger :: "nat option"
  lc_StructuredLogger :: "nat option"
  lc_Tracer :: "nat option"
  lc_Metrics :: "nat option"

record listener =
  ls_cfg :: ListenerConfig
  ls_fabric :: nat
  ls_domain :: godomain
  ls_pep :: nat
  ls_eq :: nat
  ls_closed :: bool
  ls_logger :: "nat option"
  ls_structured :: "nat option"
  ls_tracer :: "nat option"
  ls_metrics :: "nat option"

definition new_listener ::
  "(nat \<Rightarrow> bool) \<Rightarrow> ListenerConfig \<Rightarrow> nat \<Rightarrow> godomain \<Rightarrow> nat \<Rightarrow> nat \<Rightarrow> listener" where
  "new_listener implements cfg fabric domain pep eq =
     \<lparr>ls_cfg = cfg, ls_fabric = fabric, ls_domain = domain, ls_pep = pep, ls_eq = eq, ls_closed = False,
      ls_logger = lc_Logger cfg,
      ls_structured = structured_of implements (lc_StructuredLogger cfg) (lc_Logger cfg),
      ls_tracer = lc_Tracer cfg, ls_metrics = lc_Metrics cfg\<rparr>"

definition listen_descriptor ::
  "'p cenv \<Rightarrow> (nat \<Rightarrow> bool) \<Rightarrow> ListenerConfig \<Rightarrow> fi_info \<Rightarrow> 'p world \<Rightarrow> listener result \<times> 'p world" where
  "listen_descriptor E implements cfg d =
     try_act (OpenFabric E d) (give_up E [] ''open fabric'')
      (\<lambda>fabric. try_act (OpenDomain E d fabric) (give_up E [RFabric fabric] ''open domain'')
       (\<lambda>domain. try_act (OpenEventQueue E fabric None)
                   (give_up E [RDomain domain, RFabric fabric] ''open event queue'')
        (\<lambda>eq. try_act (OpenPassiveEndpoint E d fabric)
                (give_up E [REQ eq, RDomain domain, RFabric fabric] ''open passive endpoint'')
         (\<lambda>pep. let rs = [RPassive pep, REQ eq, RDomain domain, RFabric fabric] in
           try_do (Passive_BindEventQueue E pep eq 0) (give_up E rs ''bind event queue'')
            (try_do (Passive_Listen E pep) (give_up E rs ''listen passive endpoint'')
              (\<lambda>w. (Inr (new_listener implements cfg fabric domain pep eq), w)))))))"

definition Listen ::
  "'p cenv \<Rightarrow> ver_api \<Rightarrow> (nat \<Rightarrow> bool) \<Rightarrow> ListenerConfig \<Rightarrow> 'p world \<Rightarrow> listener result \<times> 'p world" where
  "Listen E A implements cfg w =
     (if lc_Service cfg = '''' then (Inl (Msg ''libfabric client listener: service required''), w)
      else
        try_act
          (DiscoverDescriptors E A
             ([WithEndpointType (FI_EP_MSG (hdr E)), WithFlags (FI_SOURCE (hdr E))] @
              connect_options (lc_Provider cfg) (lc_Node cfg) (lc_Service cfg)))
          (give_up E [] ''discover descriptors'')
          (\<lambda>d w1.
             (case (case Descriptors d of
                      [] \<Rightarrow> (Inl (Msg (''libfabric client listener: no descriptors found for provider '' @
                              lc_Provider cfg)), w1)
                    | i # _ \<Rightarrow> listen_descriptor E implements cfg i w1) of
                (r, w2) \<Rightarrow> (r, snd (Discovery_Close E d w2)))) w)"

definition Listener_Close :: "'p cenv \<Rightarrow> listener \<Rightarrow> 'p world \<Rightarrow> listener \<times> 'p world" where
  "Listener_Close E l w =
     (if ls_closed l then (l, w)
      else (l\<lparr>ls_closed := True\<rparr>,
            snd (Fabric_Close E (ls_fabric l)
              (snd (Domain_Close E (ls_domain l)
                (snd (EQ_Close E (ls_eq l)
                  (snd (Passive_Close E (ls_pep l) w)))))))))"

definition Listener_Addr :: "'p cenv \<Rightarrow> listener option \<Rightarrow> 'p world \<Rightarrow> byte list result \<times> 'p world" where
  "Listener_Addr E l w =
     (case l of
        None \<Rightarrow> (Inl (Msg ''libfabric client listener: closed''), w)
      | Some x \<Rightarrow> Passive_Name E (ls_pep x) w)"

definition Listener_logf :: "listener \<Rightarrow> string \<Rightarrow> tele list" where
  "Listener_logf l text = (if ls_logger l = None then [] else [TDebugf text])"

section \<open>Accepting a connection\<close>

text \<open>The configuration of an accepted client; \<open>structured\<close> is computed again from the logger.\<close>

definition accepted_config :: "fi_hdr \<Rightarrow> (nat \<Rightarrow> bool) \<Rightarrow> listener \<Rightarrow> Config" where
  "accepted_config H implements l =
     \<lparr>cf_Provider = lc_Provider (ls_cfg l), cf_EndpointType = FI_EP_MSG H, cf_Timeout = 0, cf_MRPoolSize = 0,
      cf_MRPoolCapacity = 0, cf_MRPoolAccess = 0, cf_Node = '''', cf_Service = '''', cf_Logger = ls_logger l,
      cf_StructuredLogger = structured_of implements (ls_structured l) (ls_logger l),
      cf_Tracer = ls_tracer l, cf_Metrics = ls_metrics l\<rparr>"

definition accepted_client ::
  "fi_hdr \<Rightarrow> (nat \<Rightarrow> bool) \<Rightarrow> listener \<Rightarrow> endpoint \<Rightarrow> compq \<Rightarrow> nat \<Rightarrow> 'p world \<Rightarrow> 'p client" where
  "accepted_client H implements l ep cq eq w =
     (let cfg = accepted_config H implements l;
          c = new_client (observers_of implements cfg) (ls_fabric l) (ls_domain l) ep cq (Some eq) None 0 [] False w
      in tell (logf (cl_obs c) ''client: MSG connection accepted'')
           (c\<lparr>cl_requiresMR := RequiresMRMode (gd_mrMode (ls_domain l)) (FI_MR_LOCAL H)\<rparr>))"

definition accept_open ::
  "'p cenv \<Rightarrow> ver_api \<Rightarrow> listener \<Rightarrow> CMEvent \<Rightarrow> 'p world \<Rightarrow> (endpoint \<times> compq \<times> nat) result \<times> 'p world" where
  "accept_open E A l ev =
     try_act (CE_OpenEndpoint E A (Some ev) (ls_domain l)) (give_up E [] ''open endpoint'')
      (\<lambda>ep. try_act (OpenCompletionQueue E (ls_domain l) None)
              (give_up E [REndpoint ep] ''open completion queue'')
       (\<lambda>cq. try_act (OpenEventQueue E (ls_fabric l) None)
               (give_up E [RCQ cq, REndpoint ep] ''open event queue'')
        (\<lambda>eq. let rs = [REQ eq, RCQ cq, REndpoint ep] in
          try_do (BindCompletionQueue E ep cq (both_directions (hdr E))) (give_up E rs ''bind completion queue'')
           (try_do (BindEventQueue E ep eq 0) (give_up E rs ''bind event queue'')
            (try_do (Endpoint_Enable E ep) (give_up E rs ''enable endpoint'')
             (try_do (Endpoint_Accept E ep (CE_Data (Some ev))) (give_up E rs ''accept'')
               (\<lambda>w. (Inr (ep, cq, eq), w))))))))"

text \<open>\<open>handleConnReq\<close>; the deferred \<open>evt.Free()\<close> runs on every path.\<close>

definition conn_req_body ::
  "nat \<Rightarrow> 'p cenv \<Rightarrow> ver_api \<Rightarrow> nat \<Rightarrow> conn_clock \<Rightarrow> (nat \<Rightarrow> bool) \<Rightarrow> listener \<Rightarrow> CMEvent \<Rightarrow> 'p world \<Rightarrow>
   ('p client result \<times> 'p world) option" where
  "conn_req_body fuel E A cm_size K implements l ev w =
     (case accept_open E A l ev w of
        (Inl e, w1) \<Rightarrow> Some (Inl e, w1)
      | (Inr (ep, cq, eq), w1) \<Rightarrow>
          (case waitForConnected fuel E cm_size K eq w1 of
             None \<Rightarrow> None
           | Some (Some e, w2) \<Rightarrow> Some (fail_plain E [REQ eq, RCQ cq, REndpoint ep] e w2)
           | Some (None, w2) \<Rightarrow> Some (return_client (accepted_client (hdr E) implements l ep cq eq w2))))"

definition handleConnReq ::
  "nat \<Rightarrow> 'p cenv \<Rightarrow> ver_api \<Rightarrow> nat \<Rightarrow> conn_clock \<Rightarrow> (nat \<Rightarrow> bool) \<Rightarrow> listener \<Rightarrow> CMEvent \<Rightarrow> 'p world \<Rightarrow>
   ('p client result \<times> 'p world) option" where
  "handleConnReq fuel E A cm_size K implements l ev w =
     map_option
       (\<lambda>(r, w'). let w'' = snd (CE_Free E (Some ev) w')
                  in (case r of Inl e \<Rightarrow> Inl e | Inr c \<Rightarrow> Inr (c\<lparr>cl_world := w''\<rparr>), w''))
       (conn_req_body fuel E A cm_size K implements l ev w)"

text \<open>
  \<open>Accept\<close> observes, in iteration \<open>i\<close>, whether another goroutine has closed the listener and
  whether its context is done; \<open>ac_conn\<close> is the clock of the handshake. The result carries what
  was logged.
\<close>

record accept_clock =
  ac_closed :: "nat \<Rightarrow> bool"
  ac_done :: "nat \<Rightarrow> ctxerr option"
  ac_conn :: conn_clock

fun accept_loop ::
  "nat \<Rightarrow> nat \<Rightarrow> 'p cenv \<Rightarrow> ver_api \<Rightarrow> nat \<Rightarrow> accept_clock \<Rightarrow> (nat \<Rightarrow> bool) \<Rightarrow> listener \<Rightarrow> nat \<Rightarrow> tele list \<Rightarrow>
   'p world \<Rightarrow> ('p client result \<times> tele list \<times> 'p world) option" where
  "accept_loop 0 conn_fuel E A cm_size K implements l i out w = None"
| "accept_loop (Suc fuel) conn_fuel E A cm_size K implements l i out w =
     (if ac_closed K i then Some (Inl (Msg ''libfabric client listener: closed''), out, w)
      else
        (case ac_done K i of
           Some e \<Rightarrow> Some (Inl (CtxErr e), out, w)
         | None \<Rightarrow>
             (case EQ_ReadCM E cm_size (ls_eq l) 100000000 w of
                (Inl e, w1) \<Rightarrow>
                  if errors_Is e (Sentinel ErrNoEvent)
                  then accept_loop fuel conn_fuel E A cm_size K implements l (Suc i) out w1
                  else Some (Inl e, out, w1)
              | (Inr ev, w1) \<Rightarrow>
                  (let typ = CE_Type (Some ev);
                       out1 = out @ Listener_logf l (''listener: received CM event '' @ show_nat (unat typ))
                   in if typ = FI_CONNREQ (hdr E) then
                        map_option (\<lambda>(r, w2). (r, out1, w2))
                          (handleConnReq conn_fuel E A cm_size (ac_conn K) implements l ev w1)
                      else accept_loop fuel conn_fuel E A cm_size K implements l (Suc i) out1
                             (snd (CE_Free E (Some ev) w1))))))"

definition Accept ::
  "nat \<Rightarrow> nat \<Rightarrow> 'p cenv \<Rightarrow> ver_api \<Rightarrow> nat \<Rightarrow> accept_clock \<Rightarrow> (nat \<Rightarrow> bool) \<Rightarrow> listener option \<Rightarrow> 'p world \<Rightarrow>
   ('p client result \<times> tele list \<times> 'p world) option" where
  "Accept fuel conn_fuel E A cm_size K implements l w =
     (case l of
        None \<Rightarrow> Some (Inl (Msg ''libfabric client listener: closed''), [], w)
      | Some x \<Rightarrow> accept_loop fuel conn_fuel E A cm_size K implements x 0 [] w)"

end
