(* ===== verification/Ownership.thy ===== *)
theory Ownership
  imports Lifecycle Client_Life
begin

text \<open>
  Who owns the native objects: whatever libfabric answers, a constructor that fails has released
  everything it opened, and the resources of a client or listener are exactly what its \<open>Close\<close>
  releases.
\<close>

section \<open>What a client owns\<close>

text \<open>In the order \<open>Close\<close> releases it.\<close>

definition client_resources :: "'p client \<Rightarrow> resource list" where
  "client_resources c =
     (case cl_av c of None \<Rightarrow> [] | Some a \<Rightarrow> [RAV a]) @
     (if cl_ownEndpoint c then [REndpoint (cl_endpoint c)] else []) @
     (if cl_ownCompletion c then [RCQ (cl_cq c)] else []) @
     (case cl_eq c of None \<Rightarrow> [] | Some q \<Rightarrow> if cl_ownEventQueue c then [REQ q] else []) @
     (if cl_ownDomain c then [RDomain (cl_domain c)] else []) @
     (if cl_ownFabric c then [RFabric (cl_fabric c)] else [])"

definition drained :: "'p cenv \<Rightarrow> 'p client \<Rightarrow> 'p world" where
  "drained E c = (case cl_mrPool c of None \<Rightarrow> cl_world c | Some p \<Rightarrow> snd (Pool_Close E p (cl_world c)))"

lemma Client_Close_world:
  "\<not> cl_closed c \<Longrightarrow> cl_world (Client_Close E c) = fold (close_res E) (client_resources c) (drained E c)"
  by (simp add: Client_Close_def client_resources_def drained_def Let_def split_beta split: option.split)

lemma Client_Close_closed: "cl_closed (Client_Close E c)"
  by (simp add: Client_Close_def Let_def split_beta split: option.split)

definition idle_pool :: "'p client \<Rightarrow> bool" where
  "idle_pool c \<longleftrightarrow> (\<forall>p. cl_mrPool c = Some p \<longrightarrow> mp_chan p = [])"

lemma drained_idle: "idle_pool c \<Longrightarrow> drained E c = cl_world c"
  by (auto simp: idle_pool_def drained_def Pool_Close_def drain_def split: option.split)

text \<open>
  The outcome of a constructor that started in \<open>w0\<close>: everything released, or an open client that
  holds exactly its resources.
\<close>

definition settled :: "'p cenv \<Rightarrow> 'p world \<Rightarrow> 'p client result \<times> 'p world \<Rightarrow> bool" where
  "settled E w0 out \<longleftrightarrow>
     (case out of
        (Inl e, w) \<Rightarrow> restored E w0 w
      | (Inr c, w) \<Rightarrow> cl_world c = w \<and> \<not> cl_closed c \<and> idle_pool c \<and> owns E w0 (client_resources c) w)"

lemma settled_simps [simp]:
  "settled E w0 (Inl e, w) \<longleftrightarrow> restored E w0 w"
  "settled E w0 (Inr c, w) \<longleftrightarrow>
     cl_world c = w \<and> \<not> cl_closed c \<and> idle_pool c \<and> owns E w0 (client_resources c) w"
  by (simp_all add: settled_def)

lemma client_view_world [simp]:
  "client_resources (c\<lparr>cl_world := w\<rparr>) = client_resources c" "idle_pool (c\<lparr>cl_world := w\<rparr>) = idle_pool c"
  by (simp_all add: client_resources_def idle_pool_def cong: if_cong split: option.split)

lemma settled_Close:
  assumes "settled E w0 (Inr c, w)"
  shows "restored E w0 (cl_world (Client_Close E c))"
  using assms close_owned(1) [of E w0 "client_resources c" w] by (simp add: Client_Close_world drained_idle)

section \<open>Discovery around a constructor\<close>

lemma DiscoverDescriptors_frame [simp]:
  "handles (snd (DiscoverDescriptors E A opts w)) = handles w"
  "next_id (snd (DiscoverDescriptors E A opts w)) = next_id w"
  by (simp_all add: DiscoverDescriptors_def Let_def split_beta capi_GetInfo_def AllocInfo_def Info_Free_def
      split: option.split)

lemma Discovery_Close_frame [simp]:
  "handles (snd (Discovery_Close E d w)) = handles w"
  "next_id (snd (Discovery_Close E d w)) = next_id w"
  by (simp_all add: Discovery_Close_def Info_Free_def)

text \<open>
  A descriptor list or the descriptor of an event is on the ledger for a while; nothing else
  changes when it is obtained or freed.
\<close>

definition borrows :: "'p cenv \<Rightarrow> (kind \<times> ptr \<Rightarrow> int) \<Rightarrow> 'p world \<Rightarrow> 'p world \<Rightarrow> bool" where
  "borrows E x w0 w1 \<longleftrightarrow>
     handles w1 = handles w0 \<and> next_id w1 = next_id w0 \<and> (\<forall>h. ledger E w1 h = ledger E w0 h + x h)"

lemma borrow_returned:
  assumes "borrows E x w0 w1" and "borrows E (\<lambda>h. - x h) w2 w3"
  shows "restored E w1 w2 \<Longrightarrow> restored E w0 w3" and "owns E w1 rs w2 \<Longrightarrow> owns E w0 rs w3"
proof -
  show "restored E w1 w2 \<Longrightarrow> restored E w0 w3"
    using assms by (auto simp: restored_def borrows_def fun_eq_iff)
  show "owns E w1 rs w2 \<Longrightarrow> owns E w0 rs w3"
    using assms by (simp add: owns_def borrows_def)
qed

definition discovered :: "'p cenv \<Rightarrow> info_list \<Rightarrow> 'p world \<Rightarrow> 'p world \<Rightarrow> bool" where
  "discovered E d w0 w1 \<longleftrightarrow> il_owns d \<and> borrows E (tally KInfo (il_ptr d)) w0 w1"

lemma discovered:
  assumes "DiscoverDescriptors E A opts w = (Inr d, w1)"
  shows "discovered E d w w1"
  using DiscoverDescriptors_frame [of E A opts w] DiscoverDescriptors_owns [of E A opts w d]
    ledger_DiscoverDescriptors [of E A opts w] assms
  by (simp add: discovered_def borrows_def)

lemma undiscovered:
  assumes "DiscoverDescriptors E A opts w = (Inl e, w1)"
  shows "quiet E w w1"
  using DiscoverDescriptors_frame [of E A opts w] ledger_DiscoverDescriptors [of E A opts w] assms
  by (auto simp: quiet_def fun_eq_iff)

lemma closed_discovery:
  assumes "discovered E d w0 w1"
  shows "restored E w1 w2 \<Longrightarrow> restored E w0 (snd (Discovery_Close E d w2))"
    and "owns E w1 rs w2 \<Longrightarrow> owns E w0 rs (snd (Discovery_Close E d w2))"
proof -
  from assms have "borrows E (\<lambda>h. - tally KInfo (il_ptr d) h) w2 (snd (Discovery_Close E d w2))"
    by (simp add: borrows_def discovered_def, simp add: Discovery_Close_def ledger_Info_Free)
  with assms show "restored E w1 w2 \<Longrightarrow> restored E w0 (snd (Discovery_Close E d w2))"
    and "owns E w1 rs w2 \<Longrightarrow> owns E w0 rs (snd (Discovery_Close E d w2))"
    unfolding discovered_def by (blast intro: borrow_returned)+
qed

lemma settled_discovery:
  assumes "discovered E d w0 w1" and "settled E w1 (m w1)"
  shows "settled E w0 (with_discovery E d m w1)"
proof (cases "m w1")
  case (Pair r w2)
  then show ?thesis
    using assms closed_discovery(1) [OF assms(1), of w2] closed_discovery(2) [OF assms(1), of _ w2]
    by (cases r) (simp_all add: with_discovery_def Let_def)
qed

section \<open>Dial\<close>

definition with_av :: "nat option \<Rightarrow> resource list \<Rightarrow> resource list" where
  "with_av av rs = (case av of None \<Rightarrow> rs | Some a \<Rightarrow> RAV a # rs)"

lemma dial_addresses_owns:
  assumes "owns E w0 rs w"
  shows "case dial_addresses E cfg domain ep rs w of
      (Inl e, w') \<Rightarrow> restored E w0 w'
    | (Inr (av, self, raw), w') \<Rightarrow> owns E w0 (with_av av rs) w'"
proof (cases "cf_EndpointType cfg = FI_EP_RDM (hdr E)")
  case True
  then show ?thesis
    apply (simp only: dial_addresses_def simp_thms if_False)
    apply (rule vectors.acquire [OF assms refl])
     apply (rule quiet_do, assumption, rule refl, rule quiet_steps)
      apply (rule quiet_act, assumption, rule refl, rule quiet_steps)
       apply (rule quiet_act, assumption, rule refl, rule quiet_steps)
        apply (simp_all add: with_av_def)
    done
qed (use assms in \<open>simp add: dial_addresses_def with_av_def\<close>)

lemma new_client_resources [simp]:
  "client_resources (new_client ob fabric domain ep cq eq av self raw own w) =
     (case av of None \<Rightarrow> [] | Some a \<Rightarrow> [RAV a]) @ [REndpoint ep, RCQ cq] @
     (case eq of None \<Rightarrow> [] | Some q \<Rightarrow> [REQ q]) @ (if own then [RDomain domain, RFabric fabric] else [])"
  "idle_pool (new_client ob fabric domain ep cq eq av self raw own w)"
  "cl_world (new_client ob fabric domain ep cq eq av self raw own w) = w"
  "\<not> cl_closed (new_client ob fabric domain ep cq eq av self raw own w)"
  by (simp_all add: client_resources_def idle_pool_def new_client_def split: option.split)

lemma client_view_upd [simp]:
  "client_resources (c\<lparr>cl_peerAddr := a, cl_peerConfigured := b\<rparr>) = client_resources c"
  "idle_pool (c\<lparr>cl_peerAddr := a, cl_peerConfigured := b\<rparr>) = idle_pool c"
  "client_resources (c\<lparr>cl_requiresMR := q, cl_mrAccess := m\<rparr>) = client_resources c"
  "idle_pool (c\<lparr>cl_requiresMR := q, cl_mrAccess := m\<rparr>) = idle_pool c"
  "client_resources (c\<lparr>cl_requiresMR := q\<rparr>) = client_resources c"
  "idle_pool (c\<lparr>cl_requiresMR := q\<rparr>) = idle_pool c"
  "client_resources (c\<lparr>cl_mrPool := p, cl_obs := ob\<rparr>) = client_resources c"
  "client_resources (tell ts c) = client_resources c" "idle_pool (tell ts c) = idle_pool c"
  "cl_closed (tell ts c) = cl_closed c" "cl_world (tell ts c) = cl_world c"
  by (simp_all add: client_resources_def idle_pool_def tell_def cong: if_cong split: option.split)

lemma dial_peer_settled:
  assumes "settled E w0 (Inr c, cl_world c)"
  shows "case dial_peer E cfg c of
      (Inl e, c') \<Rightarrow> restored E w0 (cl_world c')
    | (Inr c', _) \<Rightarrow> settled E w0 (Inr c', cl_world c')"
proof (cases "cl_av c")
  case (Some av)
  obtain r w' where ins: "InsertService E av (cf_Node cfg) (cf_Service cfg) 0 (cl_world c) = (r, w')"
    by fastforce
  then have "quiet E (cl_world c) w'"
    using quiet_InsertService [of E "cl_world c" av "cf_Node cfg" "cf_Service cfg" 0] by simp
  with assms have upd: "settled E w0 (Inr (c\<lparr>cl_world := w'\<rparr>), w')"
    by (auto intro: owns_quiet)
  from settled_Close [OF this] upd Some ins assms show ?thesis
    by (cases r) (simp_all add: dial_peer_def in_world_def Let_def)
qed (use assms in \<open>simp add: dial_peer_def\<close>)

lemma dial_pool_settled:
  assumes "settled E w0 (Inr c, cl_world c)"
  shows "settled E w0 (dial_pool E cfg info c)"
proof -
  let ?c = "c\<lparr>cl_requiresMR := RequiresMRMode (gd_mrMode (cl_domain c)) (FI_MR_LOCAL (hdr E)),
      cl_mrAccess := pool_access (hdr E) cfg\<rparr>"
  have c: "settled E w0 (Inr ?c, cl_world ?c)" using assms by simp
  from settled_Close [OF c] c show ?thesis
    by (auto simp: dial_pool_def Let_def return_client_def NewMRPool_def idle_pool_def split: prod.split)
qed

text \<open>What is owned once the addresses are done becomes the client's.\<close>

lemma dial_client_settled:
  assumes "owns E w0 (with_av av [REndpoint ep, RCQ cq, RDomain domain, RFabric fabric]) w"
  shows "settled E w0
    (case dial_peer E cfg
            ((new_client (observers_of implements cfg) fabric domain ep cq None av self raw True w)
               \<lparr>cl_peerAddr := self, cl_peerConfigured := True\<rparr>) of
       (Inl e, c) \<Rightarrow> (Inl e, cl_world c)
     | (Inr c, _) \<Rightarrow> dial_pool E cfg info c)"
    (is "settled E w0 (case dial_peer E cfg ?c of (Inl e, c) \<Rightarrow> _ e c | (Inr c, _) \<Rightarrow> _ c)")
proof -
  have "settled E w0 (Inr ?c, cl_world ?c)"
    using assms by (cases av) (simp_all add: with_av_def)
  from dial_peer_settled [OF this, of cfg] show ?thesis
    by (auto split: prod.split sum.split intro!: dial_pool_settled)
qed

lemma dial_descriptor_settled: "settled E w (dial_descriptor E A implements cfg d w)"
  unfolding dial_descriptor_def Let_def
  apply (rule fabrics.acquire [OF owns_Nil refl])
   apply (rule domains.acquire, assumption, rule refl)
    apply (rule compqs.acquire, assumption, rule refl)
     apply (rule endpoints.acquire, assumption, rule refl)
      apply (rule quiet_do, assumption, rule refl, rule quiet_steps)
       apply (rule quiet_do, assumption, rule refl, rule quiet_steps)
        apply (rule try_act_rule)
  subgoal for fabric w1 domain w2 cq w3 ep w4 w5 w6 e w7
    using dial_addresses_owns [of E w "[REndpoint ep, RCQ cq, RDomain domain, RFabric fabric]" w6 cfg domain ep] by simp
  subgoal for fabric w1 domain w2 cq w3 ep w4 w5 w6 x w7
    using dial_addresses_owns [of E w "[REndpoint ep, RCQ cq, RDomain domain, RFabric fabric]" w6 cfg domain ep]
    by (cases x) (simp add: dial_client_settled)
       apply simp_all
  done

lemma quiet_restored: "quiet E w w' \<Longrightarrow> restored E w w'"
  by (simp add: quiet_def restored_def)

lemma restored_refl [simp]: "restored E w w"
  by (simp add: restored_def)

lemma Dial_settled: "settled E w (Dial E A implements cfg w)"
  unfolding Dial_def Let_def
proof (rule try_act_rule)
  fix d w1 assume "DiscoverDescriptors E A [WithProvider (cf_Provider (with_defaults ''sockets'' (FI_EP_RDM (hdr E)) cfg)),
    WithEndpointType (cf_EndpointType (with_defaults ''sockets'' (FI_EP_RDM (hdr E)) cfg))] w = (Inr d, w1)"
  then show "settled E w (with_discovery E d
      (\<lambda>w. if Descriptors d = []
            then (Inl (Msg (''no descriptors found for provider '' @ cf_Provider (with_defaults ''sockets'' (FI_EP_RDM (hdr E)) cfg))), w)
            else dial_descriptor E A implements (with_defaults ''sockets'' (FI_EP_RDM (hdr E)) cfg)
                   (select_descriptor (hdr E) A (cf_EndpointType (with_defaults ''sockets'' (FI_EP_RDM (hdr E)) cfg)) (Descriptors d)) w) w1)"
    by (intro settled_discovery [OF discovered]) (simp_all add: dial_descriptor_settled)
qed (auto simp: give_up_def dest: undiscovered intro: quiet_restored)

section \<open>Waiting for the connection\<close>

text \<open>\<open>ReadCM\<close> adds the descriptor of its event to the ledger, and \<open>Free\<close> takes it off again.\<close>

definition event_debt :: "CMEvent \<Rightarrow> kind \<times> ptr \<Rightarrow> int" where
  "event_debt ev h = (if cm_ownsInfo ev then tally KInfo (cm_InfoPtr ev) h else 0)"

lemma CE_Free_effect:
  "handles (snd (CE_Free E (Some ev) w)) = handles w"
  "next_id (snd (CE_Free E (Some ev) w)) = next_id w"
  "ledger E (snd (CE_Free E (Some ev) w)) h = ledger E w h - event_debt ev h"
  by (simp_all add: CE_Free_def capi_CMEvent_FreeInfo_def capi_FreeInfo_def event_debt_def)

lemma EQ_ReadCM_effect:
  "handles (snd (EQ_ReadCM E n q t w)) = handles w"
  "next_id (snd (EQ_ReadCM E n q t w)) = next_id w"
  "ledger E (snd (EQ_ReadCM E n q t w)) h =
     ledger E w h + (case fst (EQ_ReadCM E n q t w) of Inl _ \<Rightarrow> 0 | Inr ev \<Rightarrow> event_debt ev h)"
  by (auto simp: EQ_ReadCM_def with_handle_def capi_ReadCM_def split_beta ledger_def event_debt_def entry_result_def
      read_result_def as_sum_def split: option.split sum.split)

lemma read_and_free:
  assumes "EQ_ReadCM E n q t w = (Inr ev, w1)"
  shows "quiet E w (snd (CE_Free E (Some ev) w1))"
  using EQ_ReadCM_effect [of E n q t w] CE_Free_effect [of E ev w1] assms
  by (auto simp: quiet_def fun_eq_iff)

lemma read_nothing:
  assumes "EQ_ReadCM E n q t w = (Inl e, w1)"
  shows "quiet E w w1"
  using EQ_ReadCM_effect [of E n q t w] assms by (auto simp: quiet_def fun_eq_iff)

lemma quiet_connect_loop:
  "connect_loop fuel E n K q i w = Some (r, w') \<Longrightarrow> quiet E w w'"
proof (induction fuel arbitrary: i w)
  case (Suc fuel)
  then show ?case
    by (auto simp: Let_def split: option.splits if_splits prod.splits sum.splits
        dest: read_nothing read_and_free intro: quiet_trans dest!: Suc.IH)
qed simp

lemma quiet_waitForConnected: "waitForConnected fuel E n K q w = Some (r, w') \<Longrightarrow> quiet E w w'"
  by (simp add: waitForConnected_def quiet_connect_loop)

section \<open>Connect\<close>

lemma connect_open_owns:
  "case connect_open E d w of
     (Inl e, w') \<Rightarrow> restored E w w'
   | (Inr (fabric, domain, cq, eq, ep), w') \<Rightarrow>
       owns E w [REndpoint ep, REQ eq, RCQ cq, RDomain domain, RFabric fabric] w'"
  unfolding connect_open_def Let_def
  apply (rule fabrics.acquire [OF owns_Nil refl])
   apply (rule domains.acquire, assumption, rule refl)
    apply (rule compqs.acquire, assumption, rule refl)
     apply (rule eventqs.acquire, assumption, rule refl)
      apply (rule endpoints.acquire, assumption, rule refl)
       apply (rule quiet_do, assumption, rule refl, rule quiet_steps)
        apply (rule quiet_do, assumption, rule refl, rule quiet_steps)
         apply (rule quiet_do, assumption, rule refl, rule quiet_steps)
          apply (rule quiet_do, assumption, rule refl, rule quiet_steps)
           apply simp_all
  done

lemma fail_plain_settled: "owns E w0 rs w \<Longrightarrow> settled E w0 (fail_plain E rs e w)"
  by (simp add: fail_plain_def close_owned)

lemma connect_descriptor_settled:
  assumes "connect_descriptor fuel E n K implements cfg d w = Some out"
  shows "settled E w out"
proof (cases "connect_open E d w")
  case (Pair r w1)
  show ?thesis
  proof (cases r)
    case (Inr x)
    obtain fabric domain cq eq ep where x: "x = (fabric, domain, cq, eq, ep)" by (cases x) auto
    with Inr Pair have own: "owns E w [REndpoint ep, REQ eq, RCQ cq, RDomain domain, RFabric fabric] w1"
      using connect_open_owns [where E = E and d = d and w = w] by simp
    from assms Inr Pair x obtain res w2 where wait: "waitForConnected fuel E n K eq w1 = Some (res, w2)"
      by (auto simp: connect_descriptor_def split: option.splits prod.splits)
    from owns_quiet [OF own quiet_waitForConnected [OF wait]]
    have own2: "owns E w [REndpoint ep, REQ eq, RCQ cq, RDomain domain, RFabric fabric] w2" .
    show ?thesis
    proof (cases res)
      case None
      have "owns E w [REndpoint ep, RCQ cq, REQ eq, RDomain domain, RFabric fabric] w2"
        by (rule owns_perm [OF own2]) simp
      with None assms Inr Pair x wait show ?thesis
        by (auto simp: connect_descriptor_def return_client_def connected_client_def)
    next
      case (Some e)
      with assms Inr Pair x wait fail_plain_settled [OF own2] show ?thesis
        by (auto simp: connect_descriptor_def)
    qed
  qed (use assms Pair connect_open_owns [where E = E and d = d and w = w] in \<open>auto simp: connect_descriptor_def\<close>)
qed

lemma Connect_settled:
  assumes "Connect fuel E A n K implements cfg w = Some out"
  shows "settled E w out"
proof (cases "cf_Service cfg = ''''")
  case True
  with assms show ?thesis by (auto simp: Connect_def)
next
  case False
  let ?cfg = "with_defaults '''' (FI_EP_MSG (hdr E)) cfg"
  let ?opts = "WithEndpointType (cf_EndpointType ?cfg) #
    connect_options (cf_Provider ?cfg) (cf_Node ?cfg) (cf_Service ?cfg)"
  obtain r w1 where disc: "DiscoverDescriptors E A ?opts w = (r, w1)" by fastforce
  show ?thesis
  proof (cases r)
    case (Inl e)
    with assms False disc show ?thesis
      by (auto simp: Connect_def Let_def give_up_def intro: quiet_restored [OF undiscovered])
  next
    case (Inr d)
    show ?thesis
    proof (cases "Descriptors d")
      case Nil
      with assms False disc Inr settled_discovery [OF discovered, of E A ?opts w d w1] show ?thesis
        by (auto simp: Connect_def Let_def)
    next
      case (Cons i "is")
      with assms False disc Inr obtain o1 where
        o1: "connect_descriptor fuel E n K implements ?cfg i w1 = Some o1"
          "out = with_discovery E d (\<lambda>_. o1) w1"
        by (auto simp: Connect_def Let_def)
      show ?thesis
        unfolding o1(2) using disc Inr connect_descriptor_settled [OF o1(1)]
        by (intro settled_discovery [OF discovered]) simp_all
    qed
  qed
qed

section \<open>The listener\<close>

definition listener_resources :: "listener \<Rightarrow> resource list" where
  "listener_resources l =
     [RPassive (ls_pep l), REQ (ls_eq l), RDomain (ls_domain l), RFabric (ls_fabric l)]"

lemma Listener_Close_world:
  "\<not> ls_closed l \<Longrightarrow> snd (Listener_Close E l w) = fold (close_res E) (listener_resources l) w"
  by (simp add: Listener_Close_def listener_resources_def)

definition listening :: "'p cenv \<Rightarrow> 'p world \<Rightarrow> listener result \<times> 'p world \<Rightarrow> bool" where
  "listening E w0 out \<longleftrightarrow>
     (case out of
        (Inl e, w) \<Rightarrow> restored E w0 w
      | (Inr l, w) \<Rightarrow> \<not> ls_closed l \<and> owns E w0 (listener_resources l) w)"

lemma listen_descriptor_listening: "listening E w (listen_descriptor E implements cfg d w)"
  unfolding listen_descriptor_def Let_def
  apply (rule fabrics.acquire [OF owns_Nil refl])
   apply (rule domains.acquire, assumption, rule refl)
    apply (rule eventqs.acquire, assumption, rule refl)
     apply (rule passives.acquire, assumption, rule refl)
      apply (rule quiet_do, assumption, rule refl, rule quiet_steps)
       apply (rule quiet_do, assumption, rule refl, rule quiet_steps)
        apply (simp_all add: listening_def new_listener_def listener_resources_def)
  done

lemma Listen_listening: "listening E w (Listen E A implements cfg w)"
proof (cases "lc_Service cfg = ''''")
  case False
  let ?opts = "[WithEndpointType (FI_EP_MSG (hdr E)), WithFlags (FI_SOURCE (hdr E))] @
    connect_options (lc_Provider cfg) (lc_Node cfg) (lc_Service cfg)"
  have "listening E w
    (case (case Descriptors d of
             [] \<Rightarrow> (Inl (Msg (''libfabric client listener: no descriptors found for provider '' @ lc_Provider cfg)), w1)
           | i # _ \<Rightarrow> listen_descriptor E implements cfg i w1) of
       (r, w2) \<Rightarrow> (r, snd (Discovery_Close E d w2)))"
    if disc: "DiscoverDescriptors E A ?opts w = (Inr d, w1)" for d w1
  proof (cases "Descriptors d")
    case Nil
    with closed_discovery(1) [OF discovered [OF disc], of w1] show ?thesis by (simp add: listening_def)
  next
    case (Cons i "is")
    obtain r w2 where r: "listen_descriptor E implements cfg i w1 = (r, w2)" by fastforce
    with listen_descriptor_listening [where E = E and w = w1 and d = i and implements = implements and cfg = cfg] Cons closed_discovery [OF discovered [OF disc]]
    show ?thesis by (cases r) (auto simp: listening_def)
  qed
  moreover have "listening E w (give_up E [] ''discover descriptors'' e w1)"
    if "DiscoverDescriptors E A ?opts w = (Inl e, w1)" for e w1
    using quiet_restored [OF undiscovered [OF that]] by (simp add: listening_def give_up_def)
  ultimately show ?thesis
    unfolding Listen_def if_not_P [OF False] by - (rule try_act_rule)
qed (simp add: Listen_def listening_def)

section \<open>Accepting\<close>

lemma read_borrows:
  assumes "EQ_ReadCM E n q t w = (Inr ev, w1)"
  shows "borrows E (event_debt ev) w w1"
  using EQ_ReadCM_effect [of E n q t w] assms by (simp add: borrows_def)

lemma free_returns: "borrows E (\<lambda>h. - event_debt ev h) w (snd (CE_Free E (Some ev) w))"
  by (simp add: borrows_def CE_Free_effect)

lemma accept_open_owns:
  "case accept_open E A l ev w of
     (Inl e, w') \<Rightarrow> restored E w w'
   | (Inr (ep, cq, eq), w') \<Rightarrow> owns E w [REQ eq, RCQ cq, REndpoint ep] w'"
  unfolding accept_open_def Let_def
  apply (rule accepted.acquire [OF owns_Nil refl])
   apply (rule compqs.acquire, assumption, rule refl)
    apply (rule eventqs.acquire, assumption, rule refl)
     apply (rule quiet_do, assumption, rule refl, rule quiet_steps)
      apply (rule quiet_do, assumption, rule refl, rule quiet_steps)
       apply (rule quiet_do, assumption, rule refl, rule quiet_steps)
        apply (rule quiet_do, assumption, rule refl, rule quiet_steps)
         apply simp_all
  done

lemma accepted_client_view [simp]:
  "client_resources (accepted_client H implements l ep cq eq w) = [REndpoint ep, RCQ cq, REQ eq]"
  "idle_pool (accepted_client H implements l ep cq eq w)"
  "\<not> cl_closed (accepted_client H implements l ep cq eq w)"
  "cl_world (accepted_client H implements l ep cq eq w) = w"
  by (simp_all add: accepted_client_def Let_def)

lemma conn_req_body_settled:
  assumes "conn_req_body fuel E A n K implements l ev w = Some out"
  shows "settled E w out"
proof (cases "accept_open E A l ev w")
  case (Pair r w1)
  show ?thesis
  proof (cases r)
    case (Inr x)
    obtain ep cq eq where x: "x = (ep, cq, eq)" by (cases x) auto
    with Inr Pair have own: "owns E w [REQ eq, RCQ cq, REndpoint ep] w1"
      using accept_open_owns [where E = E and A = A and l = l and ev = ev and w = w] by simp
    from assms Inr Pair x obtain res w2 where wait: "waitForConnected fuel E n K eq w1 = Some (res, w2)"
      by (auto simp: conn_req_body_def split: option.splits prod.splits)
    from owns_quiet [OF own quiet_waitForConnected [OF wait]]
    have own2: "owns E w [REQ eq, RCQ cq, REndpoint ep] w2" .
    have own3: "owns E w [REndpoint ep, RCQ cq, REQ eq] w2"
      by (rule owns_perm [OF own2]) simp
    with assms Inr Pair x wait fail_plain_settled [OF own2] show ?thesis
      by (cases res) (auto simp: conn_req_body_def return_client_def)
  qed (use assms Pair accept_open_owns [where E = E and A = A and l = l and ev = ev and w = w]
      in \<open>auto simp: conn_req_body_def\<close>)
qed

lemma handleConnReq_settled:
  assumes "borrows E (event_debt ev) w w1"
    and "handleConnReq fuel E A n K implements l ev w1 = Some out"
  shows "settled E w out"
proof -
  from assms(2) obtain r w2 where body: "conn_req_body fuel E A n K implements l ev w1 = Some (r, w2)"
    and out: "out = (case r of Inl e \<Rightarrow> Inl e | Inr c \<Rightarrow> Inr (c\<lparr>cl_world := snd (CE_Free E (Some ev) w2)\<rparr>),
      snd (CE_Free E (Some ev) w2))"
    by (auto simp: handleConnReq_def Let_def)
  note returned = borrow_returned [OF assms(1) free_returns [of E ev w2]]
  from conn_req_body_settled [OF body] out show ?thesis
    by (cases r) (simp_all add: returned)
qed

lemma settled_quiet: "quiet E w w1 \<Longrightarrow> settled E w1 out \<Longrightarrow> settled E w out"
  by (auto simp: settled_def quiet_def restored_def owns_def split: prod.splits sum.splits)

lemma accept_loop_settled:
  assumes "accept_loop fuel cf E A n K implements l i out w = Some (r, out', w')"
  shows "settled E w (r, w')"
  using assms
proof (induction fuel arbitrary: i out w)
  case (Suc fuel)
  consider (stop) e where "r = Inl e" "quiet E w w'"
    | (again) j o1 w1 where "quiet E w w1" "accept_loop fuel cf E A n K implements l j o1 w1 = Some (r, out', w')"
    | (request) ev w1 where "borrows E (event_debt ev) w w1"
        "handleConnReq cf E A n (ac_conn K) implements l ev w1 = Some (r, w')"
    using Suc.prems
    by (auto simp: Let_def split: option.splits if_splits prod.splits sum.splits
        dest: read_nothing read_and_free read_borrows)
  then show ?case
    by cases (auto intro: quiet_restored settled_quiet Suc.IH handleConnReq_settled)
qed simp

section \<open>Properties\<close>



text \<open>
  Claim C21. The client \<open>Dial\<close> returns holds pairwise different wrappers, each open and holding a native
  pointer of its own Go type.
\<close>

theorem Dial_typed:
  "case Dial E A implements cfg w of
     (Inl e, w') \<Rightarrow> True
   | (Inr c, w') \<Rightarrow>
       distinct (map res_id (client_resources c)) \<and>
       list_all (\<lambda>r. \<exists>p. handles w' (res_id r) = Some (res_kind r, p)) (client_resources c)"
  using Dial_settled [where E = E and A = A and implements = implements and cfg = cfg and w = w]
  by (auto simp: owns_def list_all_iff split: prod.split sum.split)

end
