(* ===== verification/Sessions.thy ===== *)
theory Sessions
  imports Ownership
begin

text \<open>
  Sessions as the provider sees them: the order of the calls in \<open>Dial\<close> and \<open>Close\<close> against what
  libfabric documents, the handshake loops, and a listener that is closed before its clients.
\<close>

section \<open>Connectionless endpoints\<close>

text \<open>
  \<open>fi_endpoint(3)\<close>: a connectionless endpoint must be bound to an address vector before it is
  enabled. \<open>lacks p e\<close>: in state \<open>p\<close> of the provider nothing was bound to endpoint \<open>e\<close> as its
  address vector. A new endpoint lacks one, binding is the only call that changes this, and
  enabling such an endpoint fails.
\<close>

definition connectionless :: "'p cenv \<Rightarrow> ('p \<Rightarrow> ptr \<Rightarrow> bool) \<Rightarrow> bool" where
  "connectionless E lacks \<longleftrightarrow>
     (\<forall>dp d h p r f q. lib E (C_endpoint dp d) h p = (r, f, q) \<and>
        ErrorFromStatus (hdr E) (r_ret r) ''fi_endpoint'' = None \<longrightarrow> lacks q (r_ptr r)) \<and>
     (\<forall>c h p r f q e. lib E c h p = (r, f, q) \<and> lacks p e \<and> (\<forall>a fl. c \<noteq> C_ep_bind e KAV a fl) \<longrightarrow> lacks q e) \<and>
     (\<forall>e h p r f q. lib E (C_enable e) h p = (r, f, q) \<and> lacks p e \<longrightarrow>
        ErrorFromStatus (hdr E) (r_ret r) ''fi_enable'' \<noteq> None)"

lemma connectionlessD:
  assumes "connectionless E lacks"
  shows "lib E (C_endpoint dp d) h p = (r, f, q) \<Longrightarrow>
      ErrorFromStatus (hdr E) (r_ret r) ''fi_endpoint'' = None \<Longrightarrow> lacks q (r_ptr r)"
    and "lib E c h p = (r, f, q) \<Longrightarrow> lacks p e \<Longrightarrow> (\<And>a fl. c \<noteq> C_ep_bind e KAV a fl) \<Longrightarrow> lacks q e"
    and "lib E (C_enable e) h p = (r, f, q) \<Longrightarrow> lacks p e \<Longrightarrow>
      ErrorFromStatus (hdr E) (r_ret r) ''fi_enable'' \<noteq> None"
  using assms unfolding connectionless_def by blast+

lemma connectionless_call:
  assumes "connectionless E lacks" and "lacks (native w) e" and "\<And>a fl. c \<noteq> C_ep_bind e KAV a fl"
  shows "lacks (native (snd (ccall E c w))) e"
proof -
  obtain r f q where "lib E c (contents w) (native w) = (r, f, q)"
    by (cases "lib E c (contents w) (native w)") auto
  with connectionlessD(2) [OF assms(1) this assms(2,3)] show ?thesis by (simp add: ccall_def)
qed

lemma OpenEndpoint_lacks:
  assumes "connectionless E lacks" and "OpenEndpoint E d dm w = (Inr ep, w')"
  shows "\<exists>p. handles w' (ep_ref ep) = Some (KEndpoint, p) \<and> lacks (native w') p"
proof -
  from assms(2) obtain k dp i where dp: "handles w (gd_ref dm) = Some (k, dp)"
    and open_ep: "wrap_open KEndpoint (capi_OpenEndpoint E dp (Some d)) w = (Inr i, w')" and i: "ep_ref ep = i"
    by (auto simp: OpenEndpoint_def with_handle_choice try_act_build split: option.splits)
  then obtain p w0 where call: "open_call E (C_endpoint dp d) ''fi_endpoint'' w = (Inr p, w0)"
    and w': "i = next_id w0" "w' = w0\<lparr>handles := (handles w0)(next_id w0 \<mapsto> (KEndpoint, p)), next_id := Suc (next_id w0)\<rparr>"
    by (auto simp: wrap_open_Inr capi_OpenEndpoint_def split: if_splits)
  obtain r f q where lib: "lib E (C_endpoint dp d) (contents w) (native w) = (r, f, q)"
    by (cases "lib E (C_endpoint dp d) (contents w) (native w)") auto
  with call have "ErrorFromStatus (hdr E) (r_ret r) ''fi_endpoint'' = None" "p = r_ptr r" "native w0 = q"
    by (auto simp: open_call_def ccall_def split: option.splits)
  with assms(1) lib have "lacks (native w0) p"
    by (simp add: connectionlessD(1))
  with w' i show ?thesis by simp
qed

lemma BindCompletionQueue_lacks:
  assumes "connectionless E lacks" and "lacks (native w) p"
  shows "lacks (native (snd (BindCompletionQueue E ep cq fl w))) p"
proof -
  have "lacks (native (snd (status_call E (C_ep_bind p' KCQ c fl) op w))) p" for p' c op
    using connectionless_call [OF assms, of "C_ep_bind p' KCQ c fl"] by (simp add: status_call_def split_beta)
  with assms(2) show ?thesis
    by (simp add: BindCompletionQueue_def with_handle_def capi_BindCompletionQueue_def capi_Bind_def split: option.split)
qed

lemma Enable_fails:
  assumes "connectionless E lacks" and "lacks (native w) p" and "handles w (ep_ref ep) = Some (k, p)"
  shows "\<exists>e w'. Endpoint_Enable E ep w = (Some e, w')"
proof -
  obtain r f q where lib: "lib E (C_enable p) (contents w) (native w) = (r, f, q)"
    by (cases "lib E (C_enable p) (contents w) (native w)") auto
  with connectionlessD(3) [OF assms(1) lib assms(2)] assms(3) show ?thesis
    by (auto simp: Endpoint_Enable_def with_handle_def capi_Enable_def guarded_def status_call_def ccall_def)
qed

definition failed_out :: "'a result \<times> 'p world \<Rightarrow> bool" where
  "failed_out out \<longleftrightarrow> (case out of (Inl e, w) \<Rightarrow> True | (Inr c, w) \<Rightarrow> False)"

lemma failed_out_simps [simp]: "failed_out (Inl e, w)" "failed_out (give_up E rs what e w)"
  by (simp_all add: failed_out_def give_up_def)

lemma failed_outD: "failed_out out \<Longrightarrow> \<exists>e w. out = (Inl e, w)"
  by (auto simp: failed_out_def split: prod.splits sum.splits)

lemma dial_descriptor_fails:
  assumes "connectionless E lacks"
  shows "failed_out (dial_descriptor E A implements cfg d w)"
  unfolding dial_descriptor_def Let_def
  apply (rule try_act_rule, simp)+
  apply (rule try_do_rule, simp)
  apply (rule try_do_rule, simp)
  subgoal for fabric w1 domain w2 cq w3 ep w4 w5 w6
    using OpenEndpoint_lacks [OF assms, of d domain w3 ep w4]
      BindCompletionQueue_lacks [OF assms, of w4 _ ep cq "both_directions (hdr E)"]
      quiet_binds(1) [of E w4 ep cq "both_directions (hdr E)"] Enable_fails [OF assms, of w5 _ ep]
    by (auto simp: quiet_def)
  done

text \<open>
  Claim C12. \<open>Dial\<close> enables the endpoint before it opens and binds the address vector. With a
  connectionless provider that enforces the documented order it never succeeds, whatever the
  configuration.
\<close>

theorem connectionless_Dial_fails:
  assumes "connectionless E lacks"
  shows "\<exists>e w'. Dial E A implements cfg w = (Inl e, w')"
proof -
  have "failed_out (Dial E A implements cfg w)"
    unfolding Dial_def Let_def
  proof (rule try_act_rule)
    fix d w1
    let ?cfg = "with_defaults ''sockets'' (FI_EP_RDM (hdr E)) cfg"
    show "failed_out (with_discovery E d
      (\<lambda>w. if Descriptors d = [] then (Inl (Msg (''no descriptors found for provider '' @ cf_Provider ?cfg)), w)
            else dial_descriptor E A implements ?cfg
                   (select_descriptor (hdr E) A (cf_EndpointType ?cfg) (Descriptors d)) w) w1)"
    proof (cases "Descriptors d = []")
      case False
      obtain e w2 where "dial_descriptor E A implements ?cfg
          (select_descriptor (hdr E) A (cf_EndpointType ?cfg) (Descriptors d)) w1 = (Inl e, w2)"
        using failed_outD [OF dial_descriptor_fails [OF assms]] by blast
      with False show ?thesis by (simp add: with_discovery_def)
    qed (simp add: with_discovery_def)
  qed simp
  then show ?thesis by (rule failed_outD)
qed

section \<open>Closing an address vector in use\<close>

text \<open>
  \<open>fi_close(3)\<close>: closing an object other objects still use fails with \<open>FI_EBUSY\<close>. \<open>uses p a\<close>: in
  state \<open>p\<close> some open endpoint is bound to address vector \<open>a\<close>; only closing an endpoint ends that.
\<close>

definition av_busy :: "'p cenv \<Rightarrow> ('p \<Rightarrow> ptr \<Rightarrow> bool) \<Rightarrow> bool" where
  "av_busy E uses \<longleftrightarrow>
     (\<forall>a h p r f q. lib E (C_close KAV a) h p = (r, f, q) \<and> uses p a \<longrightarrow> r_ret r = neg_status (FI_EBUSY (hdr E))) \<and>
     (\<forall>c h p r f q a. lib E c h p = (r, f, q) \<and> uses p a \<and> (\<forall>e. c \<noteq> C_close KEndpoint e) \<longrightarrow> uses q a)"

text \<open>What the library answered to the closes of address vector \<open>a\<close> so far.\<close>

definition close_answers :: "ptr \<Rightarrow> 'p world \<Rightarrow> int64 list" where
  "close_answers a w = map (\<lambda>e. r_ret (snd e)) (filter (\<lambda>e. fst e = C_close KAV a) (calls w))"

lemma close_answers_ccall:
  "close_answers a (snd (ccall E c w)) =
     close_answers a w @ (if c = C_close KAV a then [r_ret (fst (ccall E c w))] else [])"
  by (simp add: close_answers_def)

lemma close_answers_frame [simp]:
  "close_answers a (w\<lparr>handles := hs\<rparr>) = close_answers a w"
  "close_answers a (w\<lparr>regions := rs\<rparr>) = close_answers a w"
  "close_answers a (c_free p w) = close_answers a w"
  by (simp_all add: close_answers_def)

lemma close_answers_status_call [simp]:
  "c \<noteq> C_close KAV a \<Longrightarrow> close_answers a (snd (status_call E c op w)) = close_answers a w"
  by (simp add: status_call_def split_beta close_answers_ccall)

lemma close_answers_close_wrapper [simp]:
  "k \<noteq> KAV \<Longrightarrow> close_answers a (snd (close_wrapper (close_native E k op) i w)) = close_answers a w"
  by (simp add: close_wrapper_def close_native_def split_beta split: option.split)

lemma close_answers_region_Close [simp]: "close_answers a (snd (region_Close E r w)) = close_answers a w"
  by (simp add: region_Close_def capi_MR_Close_def FreeBytes_def split_beta Let_def split: option.split)

lemma close_answers_drain [simp]: "close_answers a (drain E rs w) = close_answers a w"
  unfolding drain_def by (induction rs arbitrary: w) simp_all

lemma native_c_free [simp]: "native (c_free p w) = native w"
  by (simp add: c_free_def split: option.split)

lemma uses_status_call:
  assumes "av_busy E uses" and "uses (native w) a" and "\<And>e. c \<noteq> C_close KEndpoint e"
  shows "uses (native (snd (status_call E c op w))) a"
proof -
  obtain r f q where lib: "lib E c (contents w) (native w) = (r, f, q)"
    by (cases "lib E c (contents w) (native w)") auto
  from assms(1) have "\<forall>c h p r f q a. lib E c h p = (r, f, q) \<and> uses p a \<and> (\<forall>e. c \<noteq> C_close KEndpoint e) \<longrightarrow> uses q a"
    by (simp add: av_busy_def)
  with lib assms(2,3) have "uses q a" by blast
  with lib show ?thesis by (simp add: status_call_def ccall_def)
qed

lemma uses_region_Close:
  assumes "av_busy E uses" and "uses (native w) a"
  shows "uses (native (snd (region_Close E r w))) a"
  using assms uses_status_call [OF assms]
  by (simp add: region_Close_def capi_MR_Close_def FreeBytes_def split_beta Let_def split: option.split)

lemma uses_drained:
  assumes "av_busy E uses" and "uses (native (cl_world c)) a"
  shows "uses (native (drained E c)) a"
proof -
  have "uses (native (drain E rs w)) a" if "uses (native w) a" for rs w
    unfolding drain_def using that
    by (induction rs arbitrary: w) (simp_all add: uses_region_Close [OF assms(1)])
  with assms(2) show ?thesis
    by (simp add: drained_def Pool_Close_def split: option.split)
qed

lemma drained_frame [simp]: "handles (drained E c) = handles (cl_world c)"
  "close_answers a (drained E c) = close_answers a (cl_world c)"
proof -
  have "handles (drain E rs w) = handles w" for rs and w :: "'a world"
    unfolding drain_def by (induction rs arbitrary: w) simp_all
  then show "handles (drained E c) = handles (cl_world c)"
    by (simp add: drained_def Pool_Close_def split: option.split)
  show "close_answers a (drained E c) = close_answers a (cl_world c)"
    by (simp add: drained_def Pool_Close_def split: option.split)
qed

lemma close_answers_resources [simp]:
  "list_all (\<lambda>r. res_kind r \<noteq> KAV) rs \<Longrightarrow> close_answers a (fold (close_res E) rs w) = close_answers a w"
proof (induction rs arbitrary: w)
  case (Cons r rs)
  then have "close_answers a (close_res E r w) = close_answers a w"
    by (cases r) (simp_all add: Fabric_Close_def Domain_Close_def CQ_Close_def EQ_Close_def Endpoint_Close_def
        Passive_Close_def capi_Fabric_Close_def capi_Domain_Close_def capi_CQ_Close_def capi_EQ_Close_def
        capi_Endpoint_Close_def capi_Passive_Close_def)
  with Cons show ?case by simp
qed simp

lemma handles_close_res [simp]: "handles (close_res E r w) = (handles w)(res_id r := None)"
  by (cases r) (simp_all add: Fabric_Close_def Domain_Close_def CQ_Close_def EQ_Close_def Endpoint_Close_def
      AV_Close_def Passive_Close_def capi_Fabric_Close_def capi_Domain_Close_def capi_CQ_Close_def capi_EQ_Close_def
      capi_Endpoint_Close_def capi_AV_Close_def capi_Passive_Close_def)

lemma handles_close_resources:
  "handles (fold (close_res E) rs w) i = (if i \<in> res_id ` set rs then None else handles w i)"
  by (induction rs arbitrary: w) auto

lemma AV_Close_busy:
  assumes "av_busy E uses" and "uses (native w) a" and "handles w i = Some (KAV, a)" and "a \<noteq> NULL"
  shows "close_answers a (snd (AV_Close E i w)) = close_answers a w @ [neg_status (FI_EBUSY (hdr E))]"
proof -
  have "r_ret (fst (ccall E (C_close KAV a) w)) = neg_status (FI_EBUSY (hdr E))"
    using assms(1,2) by (auto simp: ccall_def av_busy_def split: prod.split)
  with assms(3,4) show ?thesis
    by (simp add: AV_Close_def capi_AV_Close_def close_wrapper_def close_native_def status_call_def split_beta
        close_answers_ccall split: option.split)
qed

text \<open>
  Claim C13. \<open>Client.Close\<close> closes the address vector before the endpoint bound to it. A provider that
  refuses this with \<open>FI_EBUSY\<close>, as documented, gets no second close: the wrapper has dropped its
  handle, and the native address vector is leaked.
\<close>

theorem Close_leaks_busy_av:
  assumes "av_busy E uses" and "\<not> cl_closed c" and "cl_av c = Some i"
    and "handles (cl_world c) i = Some (KAV, a)" and "a \<noteq> NULL" and "uses (native (cl_world c)) a"
  shows "close_answers a (cl_world (Client_Close E c)) =
      close_answers a (cl_world c) @ [neg_status (FI_EBUSY (hdr E))] \<and>
    handles (cl_world (Client_Close E c)) i = None"
proof -
  obtain rs where rs: "client_resources c = RAV i # rs" "list_all (\<lambda>r. res_kind r \<noteq> KAV) rs"
    using assms(3) by (simp add: client_resources_def split: option.split)
  with AV_Close_busy [OF assms(1) uses_drained [OF assms(1,6)], of i] assms(2,4,5) show ?thesis
    by (simp add: Client_Close_world handles_close_resources handles_close_res [of E "RAV i", simplified])
qed

section \<open>The handshake loops\<close>

text \<open>
  Time passes: from iteration \<open>N\<close> on nothing is left of the deadline, or the context is done.
\<close>

definition runs_out :: "conn_clock \<Rightarrow> nat \<Rightarrow> bool" where
  "runs_out K N \<longleftrightarrow> cn_left K N \<le> 0 \<or> cn_done K N \<noteq> None"

lemma connect_loop_returns:
  assumes "runs_out K N"
  shows "i \<le> N \<Longrightarrow> N - i < fuel \<Longrightarrow> \<exists>r w'. connect_loop fuel E n K q i w = Some (r, w')"
proof (induction fuel arbitrary: i w)
  case (Suc fuel)
  show ?case
  proof (cases "cn_done K i = None \<and> 0 < cn_left K i")
    case True
    with assms Suc.prems(1) have "Suc i \<le> N"
      by (metis le_neq_implies_less not_le runs_out_def Suc_leI)
    moreover from this Suc.prems(2) have "N - Suc i < fuel" by linarith
    ultimately have IH: "\<exists>r w'. connect_loop fuel E n K q (Suc i) v = Some (r, w')" for v
      by (rule Suc.IH)
    with True show ?thesis
      by (auto simp: Let_def split: prod.split sum.split)
  qed (auto split: option.split)
qed simp

lemma connect_descriptor_returns:
  assumes "runs_out K N" and "N < fuel"
  shows "connect_descriptor fuel E n K implements cfg d w \<noteq> None"
proof -
  have "\<exists>r w'. waitForConnected fuel E n K eq v = Some (r, w')" for eq v
    unfolding waitForConnected_def by (rule connect_loop_returns [OF assms(1)]) (use assms(2) in simp_all)
  then show ?thesis
    by (auto simp: connect_descriptor_def split: option.split prod.split sum.split) (metis option.distinct(1))
qed


section \<open>A listener closed before its clients\<close>

lemma handleConnReq_domain:
  "handleConnReq fuel E A n K implements l ev w = Some (Inr c, w') \<Longrightarrow>
     cl_domain c = ls_domain l \<and> cl_fabric c = ls_fabric l"
  by (auto simp: handleConnReq_def conn_req_body_def fail_plain_def return_client_def accepted_client_def
      new_client_def tell_def Let_def split: option.splits prod.splits sum.splits)

lemma accept_loop_domain:
  "accept_loop fuel cf E A n K implements l i out w = Some (Inr c, out', w') \<Longrightarrow>
     cl_domain c = ls_domain l \<and> cl_fabric c = ls_fabric l"
proof (induction fuel arbitrary: i out w)
  case (Suc fuel)
  then show ?case
    by (auto simp: Let_def split: option.splits if_splits prod.splits sum.splits dest: handleConnReq_domain)
qed simp

lemma Listener_Close_domain:
  "\<not> ls_closed l \<Longrightarrow> handles (snd (Listener_Close E l w)) (gd_ref (ls_domain l)) = None"
  by (subst Listener_Close_world, assumption, subst handles_close_resources) (simp add: listener_resources_def)

text \<open>
  Claim C20. An accepted client shares its listener's domain. Once the listener is closed the client
  can register no memory any more, although it is itself open: every registration fails with an
  invalid domain handle.
\<close>

theorem listener_close_strands_client:
  assumes "Accept fuel conn_fuel E A cm_size K implements (Some l) w = Some (Inr c, out, w')" and "\<not> ls_closed l"
  shows "\<not> cl_closed c \<and>
    RegisterMemory E (cl_domain c) buf access (snd (Listener_Close E l w'')) =
      (Inl (ErrInvalidHandle ''domain''), snd (Listener_Close E l w''))"
proof -
  from assms(1) have acc: "accept_loop fuel conn_fuel E A cm_size K implements l 0 [] w = Some (Inr c, out, w')"
    by (simp add: Accept_def)
  have "\<not> cl_closed c" using accept_loop_settled [OF acc] by simp
  moreover have "cl_domain c = ls_domain l" using accept_loop_domain [OF acc] by simp
  ultimately show ?thesis
    using Listener_Close_domain [OF assms(2), of E w'']
    by (simp add: RegisterMemory_def RegisterMemoryWithOptions_def with_handle_def)
qed

section \<open>Instances\<close>

text \<open>
  A provider that hands out one object of each kind. Its state is the next block for \<open>malloc\<close>, the
  open endpoints bound to an address vector, and the connection events still to deliver.
  \<open>strict\<close>: it refuses to enable an endpoint without an address vector; otherwise it refuses to
  close an address vector while an endpoint is bound to it.
\<close>

type_synonym session = "nat \<times> nat list \<times> uint32 list"

definition session_info :: fi_info where
  "session_info = \<lparr>fi_caps = 0, fi_mode = 0, fi_ep_type = Some 3,
     fi_fabric_attr = Some \<lparr>fa_prov_name = None, fa_name = None, fa_prov_version = 0, fa_api_version = 0\<rparr>,
     fi_domain_attr = None, fi_inject_size = Some 64\<rparr>"

definition session_resp :: "bool \<Rightarrow> call \<Rightarrow> nat list \<Rightarrow> uint32 list \<Rightarrow> resp" where
  "session_resp strict c l es =
     (case c of
        C_getinfo _ _ _ _ _ \<Rightarrow> resp0\<lparr>r_ptr := 10, r_infos := [session_info]\<rparr>
      | C_allocinfo \<Rightarrow> resp0\<lparr>r_ptr := 9\<rparr>
      | C_fabric _ \<Rightarrow> resp0\<lparr>r_ptr := 11\<rparr>
      | C_domain _ _ \<Rightarrow> resp0\<lparr>r_ptr := 12\<rparr>
      | C_endpoint _ _ \<Rightarrow> resp0\<lparr>r_ptr := 13\<rparr>
      | C_cq_open _ _ \<Rightarrow> resp0\<lparr>r_ptr := 14\<rparr>
      | C_av_open _ _ \<Rightarrow> resp0\<lparr>r_ptr := 15\<rparr>
      | C_eq_open _ _ \<Rightarrow> resp0\<lparr>r_ptr := 16\<rparr>
      | C_passive_ep _ _ \<Rightarrow> resp0\<lparr>r_ptr := 17\<rparr>
      | C_enable e \<Rightarrow> if strict \<and> e \<notin> set l then resp0\<lparr>r_ret := -322\<rparr> else resp0
      | C_close k p \<Rightarrow> if \<not> strict \<and> k = KAV \<and> l \<noteq> [] then resp0\<lparr>r_ret := -16\<rparr> else resp0
      | C_getname _ _ _ _ \<Rightarrow> resp0\<lparr>r_len := 2\<rparr>
      | C_av_insert _ _ _ \<Rightarrow> resp0\<lparr>r_ret := 1, r_addr := 7\<rparr>
      | C_eq_sread _ _ \<Rightarrow>
          (case es of [] \<Rightarrow> resp0\<lparr>r_ret := -11\<rparr> | e # _ \<Rightarrow> resp0\<lparr>r_ret := 16, r_event := e, r_ptr := 18, r_infos := (if e = 1 then [session_info] else [])\<rparr>)
      | _ \<Rightarrow> resp0)"

definition session_next :: "bool \<Rightarrow> call \<Rightarrow> session \<Rightarrow> session" where
  "session_next strict c s =
     (case s of (b, l, es) \<Rightarrow>
        (case c of
           C_ep_bind e k a fl \<Rightarrow> (b, if k = KAV then e # l else l, es)
         | C_endpoint _ _ \<Rightarrow> (b, if strict then removeAll 13 l else l, es)
         | C_close k p \<Rightarrow> (b, if k = KEndpoint then removeAll p l else l, es)
         | C_eq_sread _ _ \<Rightarrow> (b, l, tl es)
         | _ \<Rightarrow> (b, l, es)))"

definition session_env :: "bool \<Rightarrow> session cenv" where
  "session_env strict =
     \<lparr>hdr = linux_hdr,
      lib = (\<lambda>c h s. (session_resp strict c (fst (snd s)) (snd (snd s)), \<lambda>_. [], session_next strict c s)),
      malloc = (\<lambda>n h s. case bump_malloc n h (fst s) of (p, bs, b) \<Rightarrow> (p, bs, (b, snd s)))\<rparr>"

definition session_world :: "uint32 list \<Rightarrow> session world" where
  "session_world es = \<lparr>heap = Map.empty, fault = False, native = (0, [], es), gomem = (\<lambda>_. []), handles = Map.empty,
     next_id = 0, registry = Map.empty, ctxs = Map.empty, regions = Map.empty, ran = [], calls = []\<rparr>"

definition session_api :: ver_api where
  "session_api = \<lparr>libfabric_version = 0, libfabric_version_major = (\<lambda>v. 0), libfabric_version_minor = (\<lambda>v. 0),
     libfabric_fi_version = (\<lambda>a b. 0), libfabric_build_version_major = 0, libfabric_build_version_minor = 0\<rparr>"

definition session_cfg :: Config where
  "session_cfg = \<lparr>cf_Provider = '''', cf_EndpointType = 0, cf_Timeout = 0, cf_MRPoolSize = 0, cf_MRPoolCapacity = 0,
     cf_MRPoolAccess = 0, cf_Node = '''', cf_Service = ''7471'', cf_Logger = None, cf_StructuredLogger = None,
     cf_Tracer = None, cf_Metrics = None\<rparr>"

lemma session_connectionless: "connectionless (session_env True) (\<lambda>s e. e \<notin> set (fst (snd s)))"
proof -
  have "ErrorFromStatus linux_hdr (-322) ''fi_enable'' \<noteq> None" by code_simp
  then show ?thesis
    by (auto simp: connectionless_def session_env_def session_resp_def session_next_def resp0_def split: call.split)
qed

lemma session_av_busy: "av_busy (session_env False) (\<lambda>s a. fst (snd s) \<noteq> [])"
proof -
  have "neg_status (FI_EBUSY linux_hdr) = -16" by code_simp
  then show ?thesis
    by (auto simp: av_busy_def session_env_def session_resp_def session_next_def split: call.split)
qed

theorem connectionless_Dial_fails_witness:
  "connectionless (session_env True) (\<lambda>s e. e \<notin> set (fst (snd s))) \<and>
   (\<exists>e w'. Dial (session_env True) session_api (\<lambda>_. False) session_cfg (session_world []) = (Inl (Wrap ''enable endpoint'' e), w'))"
proof -
  obtain e w' where d: "Dial (session_env True) session_api (\<lambda>_. False) session_cfg (session_world []) = (Inl e, w')"
    using connectionless_Dial_fails [OF session_connectionless] by blast
  have "case fst (Dial (session_env True) session_api (\<lambda>_. False) session_cfg (session_world [])) of
      Inl e \<Rightarrow> (case e of Wrap what e' \<Rightarrow> what = ''enable endpoint'' | _ \<Rightarrow> False) | Inr c \<Rightarrow> False"
    by code_simp
  with d session_connectionless show ?thesis by (cases e) auto
qed

text \<open>A successful \<open>Dial\<close>, to be closed.\<close>

definition session_client :: "session client" where
  "session_client =
     (case fst (Dial (session_env False) session_api (\<lambda>_. False) (session_cfg\<lparr>cf_Service := ''''\<rparr>) (session_world [])) of
        Inr c \<Rightarrow> c
      | Inl e \<Rightarrow> (new_client (observers_of (\<lambda>_. False) session_cfg) 0 \<lparr>gd_ref = 0, gd_mrMode = 0, gd_mrKeySize = 0, gd_mrIovLimit = 0\<rparr>
                   \<lparr>ep_ref = 0, ep_injectLimit = 0, ep_supportsTagged = False\<rparr> \<lparr>cq_ref = 0, cq_format = 0\<rparr> None None 0 [] True
                   (session_world [])))"

lemma session_client_facts:
  "\<not> cl_closed session_client" "cl_av session_client = Some 4"
  "handles (cl_world session_client) 4 = Some (KAV, 15)" "fst (snd (native (cl_world session_client))) = [13]"
  "close_answers 15 (cl_world session_client) = []"
  by code_simp+

theorem Close_leaks_busy_av_witness:
  "close_answers 15 (cl_world (Client_Close (session_env False) session_client)) = [-16] \<and>
   handles (cl_world (Client_Close (session_env False) session_client)) 4 = None"
proof -
  have "neg_status (FI_EBUSY (hdr (session_env False))) = -16" by code_simp
  with Close_leaks_busy_av [OF session_av_busy session_client_facts(1-3)] session_client_facts(4,5)
  show ?thesis by simp
qed

definition session_clock :: conn_clock where
  "session_clock = \<lparr>cn_done = (\<lambda>_. None), cn_left = (\<lambda>i. 3000 - 1000 * int i)\<rparr>"


text \<open>A listener, and a client whose request and connection events are already queued.\<close>

definition session_listener :: listener where
  "session_listener = new_listener (\<lambda>_. False)
     \<lparr>lc_Provider = '''', lc_Node = '''', lc_Service = ''7471'', lc_Logger = None, lc_StructuredLogger = None,
      lc_Tracer = None, lc_Metrics = None\<rparr> 0 \<lparr>gd_ref = 1, gd_mrMode = 0, gd_mrKeySize = 0, gd_mrIovLimit = 0\<rparr> 3 2"

definition listening_world :: "session world" where
  "listening_world = (session_world [1, 2])\<lparr>handles := [0 \<mapsto> (KFabric, 11), 1 \<mapsto> (KDomain, 12), 2 \<mapsto> (KEQ, 16),
     3 \<mapsto> (KPassive, 17)], next_id := 4\<rparr>"

definition session_accept :: "(session client result \<times> tele list \<times> session world) option" where
  "session_accept = Accept 2 2 (session_env False) session_api 64
     \<lparr>ac_closed = (\<lambda>_. False), ac_done = (\<lambda>_. None), ac_conn = session_clock\<rparr> (\<lambda>_. False) (Some session_listener) listening_world"

theorem listener_close_strands_client_witness:
  "\<exists>c out w'. session_accept = Some (Inr c, out, w') \<and> \<not> cl_closed c \<and>
     fst (RegisterMemory (session_env False) (cl_domain c) nil_slice 0
       (snd (Listener_Close (session_env False) session_listener w'))) = Inl (ErrInvalidHandle ''domain'')"
proof -
  have "case session_accept of None \<Rightarrow> False | Some (r, out, w') \<Rightarrow> (case r of Inl e \<Rightarrow> False | Inr c \<Rightarrow> True)"
    by code_simp
  then obtain c out w' where acc: "session_accept = Some (Inr c, out, w')"
    by (auto split: option.splits prod.splits sum.splits)
  have "\<not> ls_closed session_listener" by (simp add: session_listener_def new_listener_def)
  from listener_close_strands_client [OF acc [unfolded session_accept_def] this, of nil_slice 0 w'] acc
  show ?thesis by (intro exI [of _ c] exI [of _ out] exI [of _ w']) simp
qed

end
