(* ===== verification/Client_Safety.thy ===== *)
theory Client_Safety
  imports Client_Runs
begin

text \<open>
  Memory safety of a client: with every caller passing Go memory that is really there, no
  interleaving of its methods, its dispatcher and other users of the shared world frees a block
  twice, touches a block that is gone, or copies past the end of one.
\<close>

section \<open>What the client relies on\<close>

text \<open>
  The client writes into the buffers of the regions of its pool, so each of them has to own its
  buffer, until it is closed. \<open>keeps\<close>: no such region stops being one.
\<close>

definition kept :: "'p world \<Rightarrow> nat \<Rightarrow> bool" where
  "kept w r \<longleftrightarrow> (\<exists>m. regions w r = Some m \<and> (mr_buffer m = NULL \<or> mr_ownsBuf m))"

definition keeps :: "'p world \<Rightarrow> 'p world \<Rightarrow> bool" where
  "keeps w w' \<longleftrightarrow> (\<forall>r. kept w r \<longrightarrow> kept w' r)"

definition mem_view :: "'p client \<Rightarrow> 'p world \<times> mrpool option \<times> release_fn option list" where
  "mem_view c = (cl_world c, cl_mrPool c, map op_release (cl_ops c))"

definition pooled :: "mrpool option \<Rightarrow> release_fn option list \<Rightarrow> nat set" where
  "pooled p rels = (case p of None \<Rightarrow> {} | Some q \<Rightarrow> set (mp_chan q)) \<union> {r. Some (RelPool r) \<in> set rels}"

definition client_safe :: "'p cenv \<Rightarrow> 'p client \<Rightarrow> bool" where
  "client_safe E c \<longleftrightarrow>
     (case mem_view c of (w, p, rels) \<Rightarrow> mem_safe E w \<and> (\<forall>r \<in> pooled p rels. kept w r))"

lemma client_safe_cong: "mem_view c' = mem_view c \<Longrightarrow> client_safe E c' = client_safe E c"
  by (simp add: client_safe_def)

lemma client_safe_mem: "client_safe E c \<Longrightarrow> mem_safe E (cl_world c)"
  by (simp add: client_safe_def mem_view_def)

section \<open>Worlds\<close>

lemma keeps_refl [simp]: "keeps w w"
  by (simp add: keeps_def)

lemma keeps_trans: "keeps u v \<Longrightarrow> keeps v w \<Longrightarrow> keeps u w"
  by (simp add: keeps_def)

lemma kept_keeps: "kept w r \<Longrightarrow> keeps w w' \<Longrightarrow> kept w' r"
  by (simp add: keeps_def)

lemma keeps_regions: "regions w' = regions w \<Longrightarrow> keeps w w'"
  by (simp add: keeps_def kept_def)

lemma keeps_Close: "keeps w (snd (region_Close E r w))"
proof -
  obtain e w' where c: "region_Close E r w = (e, w')" by fastforce
  then have "regions w' = regions w \<or> regions w' = (regions w)(r \<mapsto> closed_region)"
    by (cases rule: region_Close_cases) simp_all
  with c show ?thesis by (auto simp: keeps_def kept_def closed_region_def)
qed

lemma keeps_register:
  assumes "malloc_spec E" and "holds_bytes w (sl_loc buf) (sl_len buf)"
  shows "keeps w (snd (RegisterMemoryWithOptions E d buf opts w))"
    and "RegisterMemoryWithOptions E d buf opts w = (Inr r, w') \<Longrightarrow> kept w' r"
proof -
  obtain x v where reg: "RegisterMemoryWithOptions E d buf opts w = (x, v)" by fastforce
  from reg assms have "keeps w v \<and> (\<forall>r. x = Inr r \<longrightarrow> kept v r)"
  proof (cases rule: RegisterMemory_cases)
    case (failed e)
    then show ?thesis by (simp add: keeps_regions)
  next
    case (made b p)
    from made(1,6) show ?thesis by (auto simp: keeps_def kept_def)
  qed
  with reg show "keeps w (snd (RegisterMemoryWithOptions E d buf opts w))"
    and "RegisterMemoryWithOptions E d buf opts w = (Inr r, w') \<Longrightarrow> kept w' r" by auto
qed

text \<open>A step of a post, and a run of them, keeps regions and memory safety.\<close>

lemma post_step_world:
  assumes "mem_safe E w" and "post_step E w w'"
  shows "mem_safe E w'" and "keeps w w'"
  using memory.keeps [OF assms] assms(2) by (simp_all add: post_step_def region_frame_def keeps_regions)

lemma post_run_world:
  assumes "mem_safe E w" and "(post_step E)\<^sup>*\<^sup>* w w'"
  shows "mem_safe E w'" and "keeps w w'"
proof -
  show "mem_safe E w'" by (rule memory.reach_inv [OF assms(2,1)])
  from assms(2) have "regions w' = regions w"
    by (induction rule: rtranclp_induct) (simp_all add: post_step_def region_frame_def)
  then show "keeps w w'" by (rule keeps_regions)
qed

lemma frame_world:
  assumes "mem_safe E w" and "call_frame w w'"
  shows "mem_safe E w'" and "keeps w w'"
  using post_step_world [OF assms(1) post_steps(7) [OF assms(2)]] by blast+

lemma mem_safeD:
  assumes "mem_safe E w"
  shows "ctx_safe E w" and "ctx_inv w" and "malloc_spec E" and "region_inv w" and "\<not> fault w"
  using assms by (simp_all add: mem_safe_def ctx_safe_def region_inv_def)

section \<open>Calls that touch neither contexts nor regions\<close>

lemma frame_of_read [simp]:
  "call_frame w (snd (CQ_ReadContext E q w))" "call_frame w (snd (CQ_ReadError E q fl w))"
  by (rule call_frame_shape;
      simp add: CQ_ReadContext_def CQ_ReadError_def with_handle_def capi_ReadContext_def capi_CQ_ReadError_def
        split_beta split: option.split)+

lemma frame_of_close [simp]: "call_frame w (snd (close_wrapper (close_native E k op) i w))"
  by (rule call_frame_shape) simp_all

lemma frame_of_InsertRaw:
  assumes "malloc_spec E"
  shows "call_frame w (snd (InsertRaw E a addr fl w))"
proof -
  have "fault (Memcpy (CMem b) (GoVal addr) (length addr) (snd (c_malloc E OTemp (length addr) w))) = fault w"
    if "b = fst (c_malloc E OTemp (length addr) w)" "b \<noteq> NULL" for b
    using that by (subst fault_Memcpy) (auto simp: holds_bytes_CMem shape_c_malloc)
  moreover have "(shape (snd (c_malloc E OTemp (length addr) w)))(fst (c_malloc E OTemp (length addr) w) := None) = shape w"
    if "fst (c_malloc E OTemp (length addr) w) \<noteq> NULL"
    using c_malloc_fresh [OF assms that] that by (auto simp: shape_c_malloc)
  ultimately show ?thesis
    by (intro call_frame_shape)
      (auto simp: InsertRaw_def with_handle_def capi_AV_InsertRaw_def AllocBytes_def FreeBytes_def shape_c_malloc
        shape_c_free fault_c_free split_beta split: option.split)
qed

section \<open>Quiet parts of a client\<close>

lemma mem_view_quiet [simp]:
  "mem_view (tell ts c) = mem_view c"
  "mem_view (emit H strerror op res c) = mem_view c"
  "mem_view (c\<lparr>cl_stats := st\<rparr>) = mem_view c"
  "mem_view (c\<lparr>cl_spawned := sp\<rparr>) = mem_view c"
  "mem_view (c\<lparr>cl_dispatcherErr := de\<rparr>) = mem_view c"
  "mem_view (c\<lparr>cl_sendHandlers := h\<rparr>) = mem_view c"
  "mem_view (c\<lparr>cl_receiveHandlers := h\<rparr>) = mem_view c"
  "mem_view (c\<lparr>cl_handlerSeq := n\<rparr>) = mem_view c"
  "mem_view (c\<lparr>cl_peerAddr := a\<rparr>) = mem_view c"
  "mem_view (c\<lparr>cl_peerConfigured := b\<rparr>) = mem_view c"
  "mem_view (c\<lparr>cl_closed := b\<rparr>) = mem_view c"
  "mem_view (c\<lparr>cl_stopped := b\<rparr>) = mem_view c"
  by (simp_all add: mem_view_def tell_def emit_def emit_send_def emit_receive_def Let_def
      split: OperationKind.split option.split)

lemma mem_view_upd_op [simp]:
  assumes "\<And>op. op_release (f op) = op_release op"
  shows "mem_view (upd_op i f c) = mem_view c"
proof -
  have "i < length (cl_ops c) \<Longrightarrow> map op_release ((cl_ops c)[i := f (cl_ops c ! i)]) = map op_release (cl_ops c)"
    using assms by (metis list_update_id map_update)
  then show ?thesis by (simp add: mem_view_def upd_op_def)
qed

lemma mem_view_note [simp]: "mem_view (note_failure E strerror span ev what err c) = mem_view c"
  by (simp add: note_failure_def recordDispatcherError_def Let_def)

lemma mem_view_callback [simp]: "mem_view (addCallback i cb c) = mem_view c"
  by (simp add: addCallback_def split: option.split)

section \<open>A client in another world\<close>

lemma client_safe_world:
  assumes "client_safe E c" and "mem_safe E w" and "keeps (cl_world c) w"
  shows "client_safe E (c\<lparr>cl_world := w\<rparr>)"
  using assms by (auto simp: client_safe_def mem_view_def keeps_def)

lemma client_safe_pool:
  assumes "client_safe E c" and "mem_safe E w" and "keeps (cl_world c) w"
    and "\<And>r. r \<in> set (mp_chan p) \<Longrightarrow> kept w r"
  shows "client_safe E (c\<lparr>cl_mrPool := Some p, cl_world := w\<rparr>)"
  using assms by (auto simp: client_safe_def mem_view_def pooled_def keeps_def)

lemma client_safe_op:
  assumes "client_safe E c" and "\<And>r. op_release op = Some (RelPool r) \<Longrightarrow> kept (cl_world c) r"
  shows "client_safe E (c\<lparr>cl_ops := cl_ops c @ [op], cl_stats := st\<rparr>)"
  using assms by (auto simp: client_safe_def mem_view_def pooled_def)

lemma chan_kept: "client_safe E c \<Longrightarrow> cl_mrPool c = Some p \<Longrightarrow> r \<in> set (mp_chan p) \<Longrightarrow> kept (cl_world c) r"
  by (simp add: client_safe_def mem_view_def pooled_def)

lemma release_kept:
  assumes "client_safe E c" and "i < length (cl_ops c)" and "op_release (cl_ops c ! i) = Some (RelPool r)"
  shows "kept (cl_world c) r"
proof -
  have "Some (RelPool r) \<in> set (map op_release (cl_ops c))"
    using assms(2,3) by (metis length_map nth_map nth_mem)
  with assms(1) show ?thesis by (simp add: client_safe_def mem_view_def pooled_def)
qed

lemma client_safe_in_world:
  assumes "client_safe E c" and "mem_safe E (snd (m (cl_world c)))" and "keeps (cl_world c) (snd (m (cl_world c)))"
  shows "client_safe E (snd (in_world m c))"
  using client_safe_world [OF assms] by (simp add: in_world_def split_beta)

lemma client_safe_frame:
  "client_safe E c \<Longrightarrow> call_frame (cl_world c) (snd (m (cl_world c))) \<Longrightarrow> client_safe E (snd (in_world m c))"
  using client_safe_in_world frame_world client_safe_mem by blast

section \<open>Releasing and completing\<close>

lemma Pool_Release_world:
  assumes "mem_safe E w" and "\<And>x. x \<in> set (mp_chan p) \<Longrightarrow> kept w x" and "kept w r"
  shows "mem_safe E (snd (Pool_Release E p (Some r) w))" and "keeps w (snd (Pool_Release E p (Some r) w))"
    and "x \<in> set (mp_chan (fst (Pool_Release E p (Some r) w))) \<Longrightarrow> kept (snd (Pool_Release E p (Some r) w)) x"
  using assms mem_safe_region_Close [OF assms(1), of r] keeps_Close [of w E r]
  by (auto simp: Pool_Release_def release_push_def intro: kept_keeps split: if_splits)

lemma client_safe_release:
  assumes safe: "client_safe E c" and rel: "\<And>r. rel = Some (RelPool r) \<Longrightarrow> kept (cl_world c) r"
  shows "client_safe E (run_release E rel c)"
proof (cases rel)
  case (Some f)
  note w = client_safe_mem [OF safe]
  show ?thesis
  proof (cases f)
    case (RelRegion r)
    with Some client_safe_world [OF safe mem_safe_region_Close [OF w] keeps_Close] show ?thesis
      by (simp add: run_release_def)
  next
    case (RelPool r)
    show ?thesis
    proof (cases "cl_mrPool c")
      case (Some p)
      from client_safe_pool [OF safe Pool_Release_world(1,2) [OF w chan_kept [OF safe Some] rel] Pool_Release_world(3) [OF w chan_kept [OF safe Some] rel]]
      show ?thesis using Some \<open>rel = Some f\<close> RelPool by (simp add: run_release_def split_beta)
    qed (use safe \<open>rel = Some f\<close> RelPool in \<open>simp add: run_release_def\<close>)
  qed
qed (use safe in \<open>simp add: run_release_def\<close>)

lemma client_safe_complete:
  assumes safe: "client_safe E c"
  shows "client_safe E (complete E strerror i res c)"
proof (cases "length (cl_ops c) \<le> i \<or> op_once (cl_ops c ! i)")
  case True
  with safe show ?thesis by (auto simp: complete_def)
next
  case False
  let ?op = "cl_ops c ! i"
  let ?c2 = "emit (hdr E) strerror ?op res
    (upd_op i (\<lambda>x. x\<lparr>op_once := True, op_result := res, op_completed := True, op_callbacks := []\<rparr>) c)"
  have view: "mem_view ?c2 = mem_view c" by simp
  then have "client_safe E ?c2" "cl_world ?c2 = cl_world c"
    using safe client_safe_cong [OF view] by (simp_all add: mem_view_def)
  then have "client_safe E (run_release E (op_release ?op) ?c2)"
    using release_kept [OF safe, of i] False by (intro client_safe_release) auto
  then show ?thesis
    using False by (simp add: complete_def Let_def client_safe_def)
qed

section \<open>The dispatcher\<close>

lemma client_safe_resolve:
  assumes "client_safe E c"
  shows "client_safe E (snd (in_world (CompletionEvent_Resolve ev) c))"
    and "client_safe E (snd (in_world (CompletionError_Resolve en) c))"
proof -
  note safe = client_safe_mem [OF assms]
  note step = post_step_world [OF safe post_steps(5) [OF mem_safeD(2) [OF safe]]]
  show "client_safe E (snd (in_world (CompletionEvent_Resolve ev) c))"
    by (rule client_safe_in_world [OF assms])
      (simp_all add: CompletionEvent_Resolve_def safe step split: option.split)
  show "client_safe E (snd (in_world (CompletionError_Resolve en) c))"
    by (rule client_safe_in_world [OF assms])
      (simp_all add: CompletionError_Resolve_def safe step split: option.split)
qed

lemma client_safe_finish:
  assumes "client_safe E c"
  shows "client_safe E (finish_completion E strerror span event entry x c)"
proof (cases "Value x (cl_world c)")
  case (OpVal i)
  have "client_safe E (tell ts (upd_op i (set_source a) c))" for ts a
    using client_safe_cong [of "tell ts (upd_op i (set_source a) c)" c E] assms by simp
  with OpVal assms show ?thesis
    by (simp add: finish_completion_def Let_def client_safe_complete)
qed (use assms in \<open>simp_all add: finish_completion_def\<close>)

lemma client_safe_resolved:
  assumes "client_safe E (snd (in_world m c))"
  shows "client_safe E (case in_world m c of (Inl e, c1) \<Rightarrow> c1
    | (Inr x, c1) \<Rightarrow> finish_completion E strerror span event entry x c1)"
  using assms by (cases "in_world m c"; cases "fst (in_world m c)") (auto intro: client_safe_finish)

lemma client_safe_handle:
  assumes "client_safe E c"
  shows "client_safe E (handleCompletion E strerror event entry span c)"
  using client_safe_resolve [OF assms]
  by (cases event; cases entry) (simp_all add: handleCompletion_def assms client_safe_resolved)

lemma client_safe_poll:
  assumes "client_safe E c"
  shows "client_safe E (snd (dispatch_poll E strerror span c))"
proof -
  obtain r c1 where rd: "in_world (CQ_ReadContext E (cl_cq c)) c = (r, c1)" by fastforce
  have c1: "client_safe E c1"
    using client_safe_frame [OF assms, of "CQ_ReadContext E (cl_cq c)"] rd by simp
  show ?thesis
  proof (cases r)
    case (Inr event)
    with rd client_safe_handle [OF c1] show ?thesis by (simp add: dispatch_poll_def)
  next
    case (Inl err)
    let ?d = "note_failure E strerror span ''cq_read_error'' ''cq read'' err c1"
    have d: "client_safe E ?d" using c1 client_safe_cong [OF mem_view_note] by blast
    obtain r2 c2 where re: "in_world (CQ_ReadError E (cl_cq c) 0) ?d = (r2, c2)" by fastforce
    have c2: "client_safe E c2"
      using client_safe_frame [OF d, of "CQ_ReadError E (cl_cq c) 0"] re by simp
    then have "client_safe E (note_failure E strerror span ev what e c2)" for ev what e
      using client_safe_cong [OF mem_view_note] by blast
    with Inl rd re client_safe_handle [OF c2] show ?thesis
      by (cases r2) (simp_all add: dispatch_poll_def)
  qed
qed

section \<open>Peers and closing\<close>

lemma client_safe_peer:
  assumes "client_safe E c"
  shows "client_safe E (snd (RegisterPeer E addr dflt c))"
proof -
  have ins: "client_safe E (snd (in_world (InsertRaw E av addr 0) c))" for av
    using client_safe_frame [OF assms] frame_of_InsertRaw mem_safeD(3) [OF client_safe_mem [OF assms]] by blast
  have "client_safe E (snd (try_act (in_world (InsertRaw E av addr 0)) (\<lambda>e c. (Inl e, c))
      (\<lambda>a c. (Inr a, if dflt then c\<lparr>cl_peerAddr := a, cl_peerConfigured := True\<rparr> else c)) c))" for av
  proof (rule try_act_rule)
    show "client_safe E (snd (Inl e, c'))" if "in_world (InsertRaw E av addr 0) c = (Inl e, c')" for e c'
      using ins [of av] that by simp
    show "client_safe E (snd (Inr a, if dflt then c'\<lparr>cl_peerAddr := a, cl_peerConfigured := True\<rparr> else c'))"
      if "in_world (InsertRaw E av addr 0) c = (Inr a, c')" for a c'
      using ins [of av] that by (simp add: client_safe_def)
  qed
  then show ?thesis using assms by (simp add: RegisterPeer_def split: option.split)
qed

lemma drain_world:
  assumes "mem_safe E w"
  shows "mem_safe E (drain E rs w) \<and> keeps w (drain E rs w)"
  using assms
proof (induction rs arbitrary: w)
  case (Cons r rs)
  have "mem_safe E (drain E rs (snd (region_Close E r w))) \<and>
      keeps (snd (region_Close E r w)) (drain E rs (snd (region_Close E r w)))"
    by (rule Cons.IH) (rule mem_safe_region_Close [OF Cons.prems])
  then show ?case using keeps_trans [OF keeps_Close] by (auto simp: drain_def)
qed (simp add: drain_def)

lemma frame_of_handles [simp]:
  "call_frame w (snd (AV_Close E a w))" "call_frame w (snd (Endpoint_Close E ep w))"
  "call_frame w (snd (CQ_Close E cq w))" "call_frame w (snd (EQ_Close E q w))"
  "call_frame w (snd (Domain_Close E d w))" "call_frame w (snd (Fabric_Close E f w))"
  by (simp_all add: AV_Close_def Endpoint_Close_def CQ_Close_def EQ_Close_def Domain_Close_def Fabric_Close_def
      capi_AV_Close_def capi_Endpoint_Close_def capi_CQ_Close_def capi_EQ_Close_def capi_Domain_Close_def
      capi_Fabric_Close_def)

lemma frame_then:
  "call_frame v w \<Longrightarrow> call_frame w (f w) \<Longrightarrow> call_frame v (if b then f w else w)"
  "call_frame v w \<Longrightarrow> (\<And>x. call_frame w (g x w)) \<Longrightarrow> call_frame v (case q of None \<Rightarrow> w | Some x \<Rightarrow> g x w)"
  "call_frame v w \<Longrightarrow> (\<And>x. call_frame w (g x w)) \<Longrightarrow> call_frame v (case q of None \<Rightarrow> w | Some x \<Rightarrow> if b then g x w else w)"
  using call_frame_trans by (auto split: option.split)

lemma client_safe_Close:
  assumes safe: "client_safe E c"
  shows "client_safe E (Client_Close E c)"
proof (cases "cl_closed c")
  case False
  let ?c1 = "c\<lparr>cl_closed := True, cl_stopped := True, cl_sendHandlers := [], cl_receiveHandlers := []\<rparr>"
  let ?c2 = "case cl_mrPool ?c1 of None \<Rightarrow> ?c1
    | Some p \<Rightarrow> (case Pool_Close E p (cl_world ?c1) of (p', w) \<Rightarrow> ?c1\<lparr>cl_mrPool := Some p', cl_world := w\<rparr>)"
  have c1: "client_safe E ?c1" using safe by (simp add: client_safe_def)
  have c2: "client_safe E ?c2"
  proof (cases "cl_mrPool ?c1")
    case (Some p)
    note drained = drain_world [OF client_safe_mem [OF c1], of "mp_chan p"]
    show ?thesis
    proof (cases "mp_closed p")
      case True
      with Some c1 show ?thesis by (simp add: Pool_Close_def client_safe_def mem_view_def)
    next
      case False
      with Some client_safe_pool [OF c1 drained [THEN conjunct1] drained [THEN conjunct2], of "p\<lparr>mp_closed := True, mp_chan := []\<rparr>"] show ?thesis
        by (simp add: Pool_Close_def)
    qed
  qed (use c1 in simp)
  have "\<exists>w. Client_Close E c = ?c2\<lparr>cl_world := w\<rparr> \<and> call_frame (cl_world ?c2) w"
    unfolding Client_Close_def Let_def if_not_P [OF False]
    by (intro exI conjI, rule refl) (intro frame_then call_frame_refl frame_of_handles)
  then obtain w where "Client_Close E c = ?c2\<lparr>cl_world := w\<rparr>" "call_frame (cl_world ?c2) w" by blast
  with client_safe_world [OF c2] frame_world [OF client_safe_mem [OF c2]] show ?thesis by metis
qed (use safe in \<open>simp add: Client_Close_def\<close>)

section \<open>Preparing a request\<close>

lemma client_safe_register:
  assumes safe: "client_safe E c" and buf: "holds_bytes (cl_world c) (sl_loc buf) (sl_len buf)"
  shows "client_safe E (snd (in_world (RegisterMemory E d buf access) c))"
  unfolding RegisterMemory_def
  using client_safe_in_world [OF safe] mem_safe_register [OF client_safe_mem [OF safe] buf]
    keeps_register(1) [OF mem_safeD(3) [OF client_safe_mem [OF safe]] buf] by blast

lemma holds_zeros [simp]: "holds_bytes w (sl_loc (zero_slice n)) (sl_len (zero_slice n))"
  by (simp add: zero_slice_def)

lemma client_safe_Acquire:
  assumes safe: "client_safe E c" and pool: "cl_mrPool c = Some p" and acq: "in_pool Acquire E p c = (x, c')"
  shows "client_safe E c'" and "x = Inr r \<Longrightarrow> kept (cl_world c') r" and "gomem (cl_world c') = gomem (cl_world c)"
proof -
  note mem = client_safe_mem [OF safe]
  have upd: "client_safe E (c\<lparr>cl_mrPool := Some q, cl_world := w\<rparr>)"
    if "mem_safe E w" "keeps (cl_world c) w" "set (mp_chan q) \<subseteq> set (mp_chan p)" for q w
    using that chan_kept [OF safe pool] kept_keeps by (intro client_safe_pool [OF safe]) blast+
  let ?reg = "RegisterMemory E (mp_domain p) (zero_slice (nat (mp_size p))) (mp_access p) (cl_world c)"
  have reg: "mem_safe E (snd ?reg)" "keeps (cl_world c) (snd ?reg)" "fst ?reg = Inr r \<Longrightarrow> kept (snd ?reg) r"
    "gomem (snd ?reg) = gomem (cl_world c)" for r
    unfolding RegisterMemory_def
    using mem_safe_register [OF mem holds_zeros] keeps_register(1) [OF mem_safeD(3) [OF mem] holds_zeros]
      keeps_register(2) [OF mem_safeD(3) [OF mem] holds_zeros] RegisterMemoryWithOptions_frame
    by (metis prod.collapse)+
  have "client_safe E c' \<and> (\<forall>r. x = Inr r \<longrightarrow> kept (cl_world c') r) \<and> gomem (cl_world c') = gomem (cl_world c)"
  proof (cases "mp_closed p")
    case True
    with acq upd [OF mem keeps_refl] show ?thesis by (auto simp: in_pool_def Acquire_def)
  next
    case False
    show ?thesis
    proof (cases "mp_chan p")
      case Nil
      with False acq upd [OF reg(1,2)] reg(3,4) show ?thesis
        by (auto simp: in_pool_def Acquire_def acquire_take_def split_beta)
    next
      case (Cons a as)
      then have "set (mp_chan (p\<lparr>mp_chan := as\<rparr>)) \<subseteq> set (mp_chan p)" by auto
      with Cons False acq upd [OF mem keeps_refl this] chan_kept [OF safe pool, of a] show ?thesis
        by (auto simp: in_pool_def Acquire_def acquire_take_def)
    qed
  qed
  then show "client_safe E c'" and "x = Inr r \<Longrightarrow> kept (cl_world c') r" and "gomem (cl_world c') = gomem (cl_world c)"
    by blast+
qed

text \<open>Copying the payload into a region of the pool stays inside the region's buffer.\<close>

lemma frame_region_copy:
  assumes "mem_safe E w" and "kept w r" and "n \<le> sl_len (region_Bytes r w)" and "go_slice w s" and "sl_len s = n" and "n \<noteq> 0"
  shows "call_frame w (Memcpy (sl_loc (region_Bytes r w)) (sl_loc s) n w)"
proof -
  obtain m where m: "regions w r = Some m" "mr_buffer m \<noteq> NULL" "mr_ownsBuf m" "n \<le> mr_length m"
    "sl_loc (region_Bytes r w) = CMem (mr_buffer m)"
    using assms(2,3,6) by (auto simp: kept_def region_Bytes_def nil_slice_def split: if_splits)
  with region_invD(2) [OF mem_safeD(4) [OF assms(1)] m(1)] have "holds_bytes w (CMem (mr_buffer m)) n"
    by (auto simp: region_ok_def holds_bytes_CMem)
  moreover have "holds_bytes w (sl_loc s) n"
    using assms(4-6) by (auto simp: go_slice_def split: loc.splits)
  ultimately show ?thesis
    using m(5) by (intro call_frame_shape) (simp_all add: fault_Memcpy)
qed

definition prepared_send :: "'p cenv \<Rightarrow> (SendRequest \<times> release_fn option) result \<times> 'p client \<Rightarrow> bool" where
  "prepared_send E out \<longleftrightarrow>
     (case out of (r, c) \<Rightarrow> client_safe E c \<and>
        (\<forall>req rel. r = Inr (req, rel) \<longrightarrow> sr_Context req = None \<and>
           (sr_Region req = None \<longrightarrow> go_slice (cl_world c) (sr_Buffer req)) \<and>
           (\<forall>x. rel = Some (RelPool x) \<longrightarrow> kept (cl_world c) x)))"

definition prepared_receive :: "'p cenv \<Rightarrow> (RecvRequest \<times> release_fn option) result \<times> 'p client \<Rightarrow> bool" where
  "prepared_receive E out \<longleftrightarrow>
     (case out of (r, c) \<Rightarrow> client_safe E c \<and>
        (\<forall>req rel. r = Inr (req, rel) \<longrightarrow> rr_Context req = None \<and> go_array (cl_world c) (rr_Buffer req) \<and>
           (\<forall>x. rel = Some (RelPool x) \<longrightarrow> kept (cl_world c) x)))"

lemma prepared_error [simp]:
  "prepared_send E (Inl e, c) = client_safe E c" "prepared_receive E (Inl e, c) = client_safe E c"
  by (simp_all add: prepared_send_def prepared_receive_def)

lemma client_safe_prepareSend:
  assumes safe: "client_safe E c" and s: "go_slice (cl_world c) payload"
  shows "prepared_send E (prepareSend E payload dest c)"
proof -
  let ?n = "sl_len payload"
  have plain: "prepared_send E (if cl_requiresMR c then
       try_act (in_world (RegisterMemory E (cl_domain c) payload (cl_mrAccess c))) (\<lambda>e c. (Inl e, c))
         (\<lambda>r c. (Inr (\<lparr>sr_Buffer = \<lparr>sl_loc = sl_loc (region_Bytes r (cl_world c)), sl_len = ?n\<rparr>, sr_Dest = d, sr_Flags = 0,
            sr_Context = None, sr_Region = Some r\<rparr>, Some (RelRegion r)), c)) c
     else (Inr (\<lparr>sr_Buffer = payload, sr_Dest = d, sr_Flags = 0, sr_Context = None, sr_Region = None\<rparr>, None), c))"
    if n: "?n \<noteq> 0" for d
  proof -
    have "holds_bytes (cl_world c) (sl_loc payload) ?n" using s n by (auto simp: go_slice_def split: loc.splits)
    then have "in_world (RegisterMemory E d payload a) c = (x, c') \<Longrightarrow> client_safe E c'" for d a x c'
      using client_safe_register [OF safe] by (metis snd_conv)
    then show ?thesis
      using safe s by (auto simp: prepared_send_def try_act_def split: prod.split sum.split)
  qed
  have pool: "prepared_send E (try_act (in_pool Acquire E p) (\<lambda>e c. (Inl e, c))
       (\<lambda>r c. let buf = region_Bytes r (cl_world c)
               in if sl_len buf < ?n then (Inl (too_small (sl_len buf) ?n), run_release E (Some (RelPool r)) c)
                  else (Inr (\<lparr>sr_Buffer = \<lparr>sl_loc = sl_loc buf, sl_len = ?n\<rparr>, sr_Dest = d, sr_Flags = 0,
                     sr_Context = None, sr_Region = Some r\<rparr>, Some (RelPool r)),
                    c\<lparr>cl_world := Memcpy (sl_loc buf) (sl_loc payload) ?n (cl_world c)\<rparr>)) c)"
    if n: "?n \<noteq> 0" and p: "cl_mrPool c = Some p" for p d
  proof (rule try_act_rule)
    show "prepared_send E (Inl e, c')" if "in_pool Acquire E p c = (Inl e, c')" for e c'
      using client_safe_Acquire(1) [OF safe p that] by (simp add: prepared_send_def)
  next
    fix r c' assume acq: "in_pool Acquire E p c = (Inr r, c')"
    note got = client_safe_Acquire [OF safe p acq]
    have "go_slice (cl_world c') payload" using s go_slice_gomem(1) [OF got(3)] by simp
    note fr = frame_region_copy [OF client_safe_mem [OF got(1)] got(2) [OF refl] _ this refl n]
    note w = frame_world [OF client_safe_mem [OF got(1)] fr]
    show "prepared_send E (let buf = region_Bytes r (cl_world c')
               in if sl_len buf < ?n then (Inl (too_small (sl_len buf) ?n), run_release E (Some (RelPool r)) c')
                  else (Inr (\<lparr>sr_Buffer = \<lparr>sl_loc = sl_loc buf, sl_len = ?n\<rparr>, sr_Dest = d, sr_Flags = 0,
                     sr_Context = None, sr_Region = Some r\<rparr>, Some (RelPool r)),
                    c'\<lparr>cl_world := Memcpy (sl_loc buf) (sl_loc payload) ?n (cl_world c')\<rparr>))"
      using client_safe_release [OF got(1), of "Some (RelPool r)"] client_safe_world [OF got(1) w]
        kept_keeps [OF got(2) [OF refl] w(2)] got(2)
      by (simp add: prepared_send_def Let_def)
  qed
  show ?thesis
    unfolding prepareSend_def Let_def
    using plain pool [unfolded Let_def] safe by (cases "?n = 0"; cases "cl_mrPool c") simp_all
qed

lemma client_safe_prepareReceive:
  assumes safe: "client_safe E c" and s: "go_array (cl_world c) buf"
  shows "prepared_receive E (prepareReceive E buf c)"
proof -
  let ?n = "sl_len buf"
  let ?req = "\<lambda>reg. \<lparr>rr_Buffer = buf, rr_Source = 0, rr_Flags = 0, rr_Context = None, rr_Region = reg\<rparr>"
  have reg: "client_safe E c' \<and> go_array (cl_world c') buf"
    if "in_world (RegisterMemory E d (zero_slice ?n) a) c = (x, c')" for d a x c'
  proof -
    have "gomem (cl_world c') = gomem (cl_world c)"
      using that by (auto simp: in_world_def RegisterMemory_def split: prod.splits)
        (metis RegisterMemoryWithOptions_frame(1) snd_conv)
    with that s client_safe_register [OF safe holds_zeros, of d ?n a] show ?thesis
      by (simp add: go_slice_gomem(2) [of "cl_world c'" "cl_world c"])
  qed
  have plain: "prepared_receive E (if cl_requiresMR c then
       try_act (in_world (RegisterMemory E (cl_domain c) (zero_slice ?n) (cl_mrAccess c))) (\<lambda>e c. (Inl e, c))
         (\<lambda>r c. (Inr (?req (Some r), Some (RelRegion r)), c)) c
     else (Inr (?req None, None), c))"
    using safe s reg by (auto simp: prepared_receive_def try_act_def split: prod.split sum.split)
  have pool: "prepared_receive E (try_act (in_pool Acquire E p) (\<lambda>e c. (Inl e, c))
       (\<lambda>r c. if region_Size r (cl_world c) < ?n
               then (Inl (too_small (region_Size r (cl_world c)) ?n), run_release E (Some (RelPool r)) c)
               else (Inr (?req (Some r), Some (RelPool r)), c)) c)"
    if p: "cl_mrPool c = Some p" for p
  proof (rule try_act_rule)
    show "prepared_receive E (Inl e, c')" if "in_pool Acquire E p c = (Inl e, c')" for e c'
      using client_safe_Acquire(1) [OF safe p that] by (simp add: prepared_receive_def)
  next
    fix r c' assume acq: "in_pool Acquire E p c = (Inr r, c')"
    note got = client_safe_Acquire [OF safe p acq]
    have "go_array (cl_world c') buf" using s go_slice_gomem(2) [OF got(3)] by simp
    with got client_safe_release [OF got(1), of "Some (RelPool r)"]
    show "prepared_receive E (if region_Size r (cl_world c') < ?n
               then (Inl (too_small (region_Size r (cl_world c')) ?n), run_release E (Some (RelPool r)) c')
               else (Inr (?req (Some r), Some (RelPool r)), c'))"
      by (simp add: prepared_receive_def)
  qed
  show ?thesis
    unfolding prepareReceive_def Let_def
    using plain pool safe by (cases "?n = 0"; cases "cl_mrPool c") simp_all
qed

section \<open>Posting\<close>

lemma posted_world:
  assumes "client_safe E c" and "posted E ctx (cl_world c) (m (cl_world c))"
  shows "client_safe E (snd (in_world m c))" and "keeps (cl_world c) (cl_world (snd (in_world m c)))"
proof -
  obtain r w where m: "m (cl_world c) = (r, w)" by fastforce
  with assms(2) have "(post_step E)\<^sup>*\<^sup>* (cl_world c) w" by (simp add: posted_def)
  note run = post_run_world [OF client_safe_mem [OF assms(1)] this]
  with client_safe_world [OF assms(1) run] m
  show "client_safe E (snd (in_world m c))" and "keeps (cl_world c) (cl_world (snd (in_world m c)))"
    by (simp_all add: in_world_def)
qed

lemma client_safe_send:
  assumes safe: "client_safe E c" and s: "go_slice (cl_world c) payload"
  shows "client_safe E (snd (sendAsync_post E strerror payload dest c))"
proof -
  have "client_safe E (snd (try_act (prepareSend E payload dest) (\<lambda>e c. (Inl e, c))
      (\<lambda>(req, rel) c.
         let posted = posted_size req c; op = (newOperation OperationSend posted None)\<lparr>op_release := rel\<rparr>
         in try_act (in_world (PostSend E (cl_endpoint c) (Some req)))
              (\<lambda>e c. (Inl (Wrap ''post send'' e), run_release E rel c))
              (\<lambda>ctx c.
                 let i = length (cl_ops c);
                     c1 = tell (logs posted c) (c\<lparr>cl_ops := cl_ops c @ [op],
                            cl_stats := (cl_stats c)\<lparr>st_SendPosted := st_SendPosted (cl_stats c) + 1\<rparr>\<rparr>)
                 in case ctx of None \<Rightarrow> (Inr (i, None), complete E strerror i (res req) c1)
                    | Some x \<Rightarrow> (Inr (i, Some x), c1)) c) c))"
    (is "client_safe E (snd (try_act _ _ ?k c))") for posted_size logs res
  proof (rule try_act_rule)
    show "client_safe E (snd (Inl e, c'))" if "prepareSend E payload dest c = (Inl e, c')" for e c'
      using client_safe_prepareSend [OF safe s, of dest] that by (simp add: prepared_send_def)
  next
    fix q c' assume prep: "prepareSend E payload dest c = (Inr q, c')"
    obtain req rel where q: "q = (req, rel)" by fastforce
    from client_safe_prepareSend [OF safe s, of dest] prep q have p: "client_safe E c'" "sr_Context req = None"
      "sr_Region req = None \<longrightarrow> go_slice (cl_world c') (sr_Buffer req)"
      "\<And>x. rel = Some (RelPool x) \<Longrightarrow> kept (cl_world c') x"
      by (simp_all add: prepared_send_def)
    let ?m = "PostSend E (cl_endpoint c') (Some req)"
    have "posted E None (cl_world c') (?m (cl_world c'))"
      using PostSend_refines [OF mem_safeD(1) [OF client_safe_mem [OF p(1)]] _ p(3), of "cl_endpoint c'"] p(2)
      by (simp add: ready_def)
    note w = posted_world [where m = ?m, OF p(1) this]
    have rel: "kept (cl_world (snd (in_world ?m c'))) x" if "rel = Some (RelPool x)" for x
      using kept_keeps [OF p(4) [OF that] w(2)] .
    have add: "client_safe E (tell ts (d\<lparr>cl_ops := cl_ops d @ [(newOperation OperationSend n None)\<lparr>op_release := rel\<rparr>], cl_stats := st\<rparr>))"
      if "d = snd (in_world ?m c')" for ts d n st
      using client_safe_op [OF w(1), of "(newOperation OperationSend n None)\<lparr>op_release := rel\<rparr>" st] rel that
      by (simp add: client_safe_def)
    show "client_safe E (snd (?k q c'))"
      using client_safe_release [OF w(1) rel] add client_safe_complete [OF add]
      by (cases "in_world ?m c'"; cases "fst (in_world ?m c')")
        (simp_all add: q Let_def try_act_def split: option.split)
  qed
  then show ?thesis
    using safe unfolding sendAsync_post_def Let_def by (auto split: option.split)
qed

lemma client_safe_receive:
  assumes safe: "client_safe E c" and s: "go_array (cl_world c) buf"
  shows "client_safe E (snd (ReceiveAsync_post E buf c))"
proof -
  have "client_safe E (snd (try_act (prepareReceive E buf) (\<lambda>e c. (Inl e, c))
      (\<lambda>(req, rel) c0.
         let op = (newOperation OperationReceive n meta)\<lparr>op_release := rel\<rparr>
         in try_act (in_world (PostRecv E (cl_endpoint c0) (Some req)))
              (\<lambda>e c. (Inl (Wrap ''post recv'' e), run_release E rel c))
              (\<lambda>ctx c. (Inr (length (cl_ops c), ctx),
                 tell (logs req c0 c) (c\<lparr>cl_ops := cl_ops c @ [op],
                   cl_stats := (cl_stats c)\<lparr>st_ReceivePosted := st_ReceivePosted (cl_stats c) + 1\<rparr>\<rparr>))) c0) c))"
    (is "client_safe E (snd (try_act _ _ ?k c))") for n meta logs
  proof (rule try_act_rule)
    show "client_safe E (snd (Inl e, c'))" if "prepareReceive E buf c = (Inl e, c')" for e c'
      using client_safe_prepareReceive [OF safe s] that by simp
  next
    fix q c' assume prep: "prepareReceive E buf c = (Inr q, c')"
    obtain req rel where q: "q = (req, rel)" by fastforce
    from client_safe_prepareReceive [OF safe s] prep q have p: "client_safe E c'" "rr_Context req = None"
      "go_array (cl_world c') (rr_Buffer req)" "\<And>x. rel = Some (RelPool x) \<Longrightarrow> kept (cl_world c') x"
      by (simp_all add: prepared_receive_def)
    let ?m = "PostRecv E (cl_endpoint c') (Some req)"
    have "posted E None (cl_world c') (?m (cl_world c'))"
      using PostRecv_refines [OF mem_safeD(1) [OF client_safe_mem [OF p(1)]] _ p(3), of "cl_endpoint c'"] p(2)
      by (simp add: ready_def)
    note w = posted_world [where m = ?m, OF p(1) this]
    have rel: "kept (cl_world (snd (in_world ?m c'))) x" if "rel = Some (RelPool x)" for x
      using kept_keeps [OF p(4) [OF that] w(2)] .
    have "client_safe E (tell ts (d\<lparr>cl_ops := cl_ops d @ [(newOperation OperationReceive n meta)\<lparr>op_release := rel\<rparr>], cl_stats := st\<rparr>))"
      if "d = snd (in_world ?m c')" for ts d st
      using client_safe_op [OF w(1), of "(newOperation OperationReceive n meta)\<lparr>op_release := rel\<rparr>" st] rel that
      by (simp add: client_safe_def)
    with client_safe_release [OF w(1) rel] show "client_safe E (snd (?k q c'))"
      by (cases "in_world ?m c'"; cases "fst (in_world ?m c')") (simp_all add: q Let_def try_act_def)
  qed
  then show ?thesis
    using safe unfolding ReceiveAsync_post_def Let_def by (auto split: option.split)
qed

lemma client_safe_bind:
  assumes "client_safe E c"
  shows "client_safe E (bind_op i x c)"
  using client_safe_world [OF assms] post_step_world [OF client_safe_mem [OF assms] post_steps(2)] assms
  by (simp add: bind_op_def split: option.split)

section \<open>Runs\<close>

text \<open>
  The uses of a client: its callers (each passing memory that is really there), its dispatcher, and
  the rest of the program, which may do anything to the shared world that is itself memory safe and
  leaves the regions of the client's pool what they are. The contexts of \<open>X\<close> are bound already: they
  belong to the client, so nobody binds them again and the rest of the program leaves them alone.
\<close>

inductive client_use :: "'p cenv \<Rightarrow> (errno \<Rightarrow> string) \<Rightarrow> nat set \<Rightarrow> 'p client \<Rightarrow> 'p client \<Rightarrow> bool" for E strerror X where
  cu_send: "go_slice (cl_world c) payload \<Longrightarrow> client_use E strerror X c (snd (sendAsync_post E strerror payload dest c))"
| cu_receive: "go_array (cl_world c) buf \<Longrightarrow> client_use E strerror X c (snd (ReceiveAsync_post E buf c))"
| cu_bind: "x \<notin> X \<Longrightarrow> client_use E strerror X c (bind_op i (Some x) c)"
| cu_poll: "client_use E strerror X c (snd (dispatch_poll E strerror span c))"
| cu_callback: "client_use E strerror X c (addCallback i f c)"
| cu_send_handler: "client_use E strerror X c (snd (RegisterSendHandler h c))"
| cu_receive_handler: "client_use E strerror X c (snd (RegisterReceiveHandler h c))"
| cu_no_send_handler: "client_use E strerror X c (UnregisterSendHandler hid c)"
| cu_no_receive_handler: "client_use E strerror X c (UnregisterReceiveHandler hid c)"
| cu_peer: "client_use E strerror X c (snd (RegisterPeer E addr dflt c))"
| cu_default_peer: "client_use E strerror X c (SetDefaultPeer a c)"
| cu_close: "client_use E strerror X c (Client_Close E c)"
| cu_world: "mem_safe E w \<Longrightarrow> keeps (cl_world c) w \<Longrightarrow> (\<And>x. x \<in> X \<Longrightarrow> ctxs w x = ctxs (cl_world c) x) \<Longrightarrow>
    client_use E strerror X c (c\<lparr>cl_world := w\<rparr>)"

lemma client_use_safe:
  assumes "client_safe E c" and "client_use E strerror X c c'"
  shows "client_safe E c'"
proof -
  have quiet: "client_safe E d" if "mem_view d = mem_view c" for d
    using client_safe_cong [OF that] assms(1) by blast
  from assms(2) show ?thesis
    by cases
      (use assms(1) in \<open>simp_all add: client_safe_send client_safe_receive client_safe_bind client_safe_poll
         client_safe_peer client_safe_Close client_safe_world quiet RegisterSendHandler_def RegisterReceiveHandler_def
         UnregisterSendHandler_def UnregisterReceiveHandler_def SetDefaultPeer_def Let_def split: option.split\<close>)
qed

interpretation client_memory: transition_invariant "client_use E strerror X" "client_safe E" for E strerror X
  by unfold_locales (rule client_use_safe)

definition idle_client :: "'p client \<Rightarrow> bool" where
  "idle_client c \<longleftrightarrow> cl_ops c = [] \<and> (\<forall>p. cl_mrPool c = Some p \<longrightarrow> mp_chan p = [])"

lemma client_safe_idle: "idle_client c \<Longrightarrow> mem_safe E (cl_world c) \<Longrightarrow> client_safe E c"
  by (auto simp: idle_client_def client_safe_def mem_view_def pooled_def split: option.split)


section \<open>Receives of a client with regions\<close>

text \<open>With a pool that the buffer fits in, or when the provider demands regions, a receive is posted on a region.\<close>

definition on_region :: "'p client \<Rightarrow> slice \<Rightarrow> bool" where
  "on_region c buf \<longleftrightarrow> cl_requiresMR c \<or> (\<exists>p. cl_mrPool c = Some p \<and> int (sl_len buf) \<le> mp_size p)"

lemma prepareReceive_region:
  assumes safe: "client_safe E c" and "on_region c buf" and prep: "prepareReceive E buf c = (Inr (req, rel), c')"
  shows "(\<exists>r. rr_Region req = Some r) \<and> gomem (cl_world c') = gomem (cl_world c)"
proof -
  have reg: "gomem (cl_world d) = gomem (cl_world c)"
    if "in_world (RegisterMemory E dom' (zero_slice n) a) c = (x, d)" for dom' n a x d
    using that by (auto simp: in_world_def RegisterMemory_def split: prod.splits)
      (metis RegisterMemoryWithOptions_frame(1) snd_conv)
  have acq: "gomem (cl_world d) = gomem (cl_world c)"
    if "in_pool Acquire E p c = (x, d)" "cl_mrPool c = Some p" for p x d
    by (rule client_safe_Acquire(3) [OF safe that(2,1)])
  show ?thesis
    using assms(2) prep reg acq
    by (auto simp: on_region_def prepareReceive_def Let_def try_act_def
        split: if_splits option.splits prod.splits sum.splits)
qed

lemma gomem_quiet [simp]:
  "gomem (setCopyBack d s w) = gomem w" "gomem (snd (region_Descriptor E r w)) = gomem w"
  by (simp_all add: setCopyBack_def region_Descriptor_def capi_MR_Descriptor_def split_beta split: option.split)

lemma region_recv_gomem:
  assumes "ctx_safe E w" and "rr_Context rq = None" and "rr_Region rq = Some r"
    and ps: "PostRecv E ep (Some rq) w = (Inr (Some x), w')"
  shows "gomem w' = gomem w"
proof -
  have rd: "ready w (rr_Context rq)" using assms(2) by (simp add: ready_def)
  from assms(1) rd ps [unfolded PostRecv_def option.case] show ?thesis
  proof (cases rule: posted_via)
    case (1 p d v)
    then show ?thesis
      using assms(3)
      by (auto simp: use_region_def Let_def split_beta capi_Recv_def finish_Some dest!: guarded_None split: option.splits if_splits)
  qed
qed

lemma world_quiet [simp]:
  "cl_world (emit H strerror op res c) = cl_world c" "cl_world (upd_op i f c) = cl_world c" "cl_world (tell ts c) = cl_world c"
  using mem_view_quiet(2) [of H strerror op res c] by (simp_all add: mem_view_def upd_op_def tell_def)

lemma gomem_release [simp]: "gomem (cl_world (run_release E rel c)) = gomem (cl_world c)"
  by (auto simp: run_release_def Pool_Release_def release_push_def split: option.split release_fn.split prod.split)

lemma gomem_complete [simp]: "gomem (cl_world (complete E strerror i res c)) = gomem (cl_world c)"
  by (simp add: complete_def Let_def)

lemma gomem_finish: "gomem (cl_world (finish_completion E strerror span event entry x c)) = gomem (cl_world c)"
  by (simp add: finish_completion_def Let_def split: any_val.split)

lemma ReceiveAsync_posted:
  assumes "ReceiveAsync_post E buf c = (Inr (i, Some x), c')"
  obtains req rel c0 w where "prepareReceive E buf c = (Inr (req, rel), c0)"
    "PostRecv E (cl_endpoint c0) (Some req) (cl_world c0) = (Inr (Some x), w)" "cl_world c' = w"
  using assms
  by (auto simp: ReceiveAsync_post_def try_act_def Let_def in_world_def split: option.splits if_splits prod.splits sum.splits)

text \<open>
  Claim C15. A client with memory regions never delivers what it receives: from the post of a receive
  on a region to the end of the dispatcher's handling of its completion, whatever the provider wrote,
  every Go array, the caller's buffer included, is as it was before the call.
\<close>

theorem region_client_receives_nothing:
  assumes "client_safe E c" and "go_array (cl_world c) buf" and "on_region c buf"
    and "ReceiveAsync_post E buf c = (Inr (i, Some x), c')"
    and "w = snd (ccall E' k (cl_world c'))" and "ev_Context ev = Pointer x (cl_world c')"
  shows "gomem (cl_world (handleCompletion E strerror (Some ev) None span (c'\<lparr>cl_world := w\<rparr>))) = gomem (cl_world c)"
proof -
  from assms(4) obtain req rel c0 where prep: "prepareReceive E buf c = (Inr (req, rel), c0)"
    and post: "PostRecv E (cl_endpoint c0) (Some req) (cl_world c0) = (Inr (Some x), cl_world c')"
    by (auto elim!: ReceiveAsync_posted)
  from prepareReceive_region [OF assms(1,3) prep] obtain r where r: "rr_Region req = Some r"
    and g0: "gomem (cl_world c0) = gomem (cl_world c)" by blast
  from client_safe_prepareReceive [OF assms(1,2)] prep have p: "client_safe E c0" "rr_Context req = None"
    "go_array (cl_world c0) (rr_Buffer req)" by (simp_all add: prepared_receive_def)
  note ctx = mem_safeD(1) [OF client_safe_mem [OF p(1)]]
  have op: "post E (cl_endpoint c0) (OpRecv req) (cl_world c0) = (Inr (Some x), cl_world c')" using post by simp
  have "bufferless (cl_world c') x"
    using region_post [OF ctx _ _ op] p(2) r by (simp add: ready_def)
  moreover have "ctx_safe E (cl_world c')"
    using post_safe [OF ctx _ _ op] p(2,3) by (simp add: ready_def op_valid_def)
  then have "ctx_safe E w" unfolding assms(5) by (rule ctx_safe_ccall)
  moreover have same: "Pointer x w = Pointer x (cl_world c')" "ctxs w = ctxs (cl_world c')" "gomem w = gomem (cl_world c')"
    by (simp_all add: assms(5) Pointer_def)
  ultimately have "gomem (snd (resolveCompletion (ev_Context ev) w)) = gomem w"
    using resolve_bufferless [of E w x] by (simp add: bufferless_def assms(6))
  moreover have "gomem (cl_world c') = gomem (cl_world c)"
    using region_recv_gomem [OF ctx p(2) r post] g0 by simp
  ultimately show ?thesis
    by (cases "resolveCompletion (ev_Context ev) w"; cases "fst (resolveCompletion (ev_Context ev) w)")
      (simp_all add: handleCompletion_def in_world_def CompletionEvent_Resolve_def gomem_finish same)
qed

section \<open>A client with a pool of regions\<close>

text \<open>
  The concrete client with a pool of four-byte regions, on a provider that registers them and
  completes the first context at every poll, after filling every allocated block with ones.
\<close>

definition region_env :: "nat cenv" where
  "region_env = post_env\<lparr>lib := (\<lambda>c h q.
     (case c of
        C_mr_reg d buf len access offset requestedKey flags \<Rightarrow> resp0\<lparr>r_ptr := 90\<rparr>
      | C_cq_read p \<Rightarrow> resp0\<lparr>r_ret := 1, r_ctx := 2\<rparr>
      | _ \<Rightarrow> resp0,
      \<lambda>p. (case h p of None \<Rightarrow> [] | Some bs \<Rightarrow> replicate (length bs) 1), q))\<rparr>"

definition region_client :: "nat client" where
  "region_client = demo_client\<lparr>cl_mrPool := Some \<lparr>mp_domain = cl_domain demo_client, mp_size = 4, mp_access = 0,
     mp_cap = 2, mp_chan = [], mp_closed = False\<rparr>\<rparr>"

definition region_sent :: "nat client" where
  "region_sent = snd (sendAsync_post region_env (\<lambda>_. '''') demo_payload 7 region_client)"

definition region_polled :: "nat client" where
  "region_polled = snd (dispatch_poll region_env (\<lambda>_. '''') None (bind_op 0 (Some 6) region_sent))"

definition region_received :: "nat client" where
  "region_received = snd (ReceiveAsync_post region_env demo_payload region_client)"

lemma region_client_facts:
  "fst (ReceiveAsync_post region_env demo_payload region_client) = Inr (0, Some 6)"
  "Pointer 6 (cl_world region_received) = 2" "gomem (cl_world region_client) 5 = [1, 2, 3, 4, 5, 6]"
  "map op_completed (cl_ops region_polled) = [True]" "map_option mp_chan (cl_mrPool region_polled) = Some [5]"
  by code_simp+

lemma region_client_idle: "idle_client region_client"
  by (simp add: idle_client_def region_client_def demo_client_def)

lemma region_world_safe: "mem_safe region_env (cl_world region_client)"
  by (simp add: mem_safe_def ctx_safe_def ctx_inv_def no_leak_def region_inv_def region_ok_def region_client_def
      demo_client_def post_world_def world0_def shape_def region_env_def malloc_spec_def post_env_def bump_malloc_def)

lemma region_payload: "go_slice (cl_world region_client) demo_payload" "go_array (cl_world region_client) demo_payload"
  by (simp_all add: go_slice_def go_array_def demo_payload_def region_client_def demo_client_def post_world_def)


theorem region_client_receives_nothing_witness:
  "gomem (cl_world (handleCompletion region_env (\<lambda>_. '''')
      (Some \<lparr>ev_Context = 2, ev_Tag = 0, ev_Data = 0, ev_Source = 0\<rparr>) None None
      (region_received\<lparr>cl_world := snd (ccall region_env (C_cq_read 80) (cl_world region_received))\<rparr>))) 5 =
   [1, 2, 3, 4, 5, 6]"
proof -
  have posted: "ReceiveAsync_post region_env demo_payload region_client = (Inr (0, Some 6), region_received)"
    using region_client_facts(1) by (metis prod.collapse region_received_def)
  have "on_region region_client demo_payload"
    by (simp add: on_region_def region_client_def demo_payload_def)
  from region_client_receives_nothing [OF client_safe_idle [OF region_client_idle region_world_safe] region_payload(2)
      this posted refl, of "\<lparr>ev_Context = 2, ev_Tag = 0, ev_Data = 0, ev_Source = 0\<rparr>"] region_client_facts(2,3)
  show ?thesis by simp
qed

end
