(* ===== verification/Client_Delivery.thy ===== *)
theory Client_Delivery
  imports Client_Safety
begin

text \<open>
  From a post to the future: what the dispatcher does with the completion of an operation that was
  bound to its context, and what a receive without regions delivers to its caller.
\<close>

section \<open>The end of an operation\<close>

text \<open>\<open>over c i r\<close>: operation \<open>i\<close> is done, with result \<open>r\<close>.\<close>

definition over :: "'p client \<Rightarrow> nat \<Rightarrow> operationResult \<Rightarrow> bool" where
  "over c i r \<longleftrightarrow> i < length (cl_ops c) \<and> op_done (cl_ops c ! i) \<and> op_result (cl_ops c ! i) = r"

lemma over_Await:
  assumes "over c i r"
  shows "SendFuture_Await (Some i) None pick c = Some (or_err r)"
    and "ReceiveFuture_Await (Some i) None pick c = Some (or_length r, or_err r)"
    and "future_Done (Some i) c = Some True"
  using assms
  by (simp_all add: over_def SendFuture_Await_def ReceiveFuture_Await_def await_def op_result_of_def future_Done_def)

lemma ops_kept [simp]:
  "cl_ops (emit H strerror op res c) = cl_ops c" "cl_ops (run_release E rel c) = cl_ops c"
  by (metis emit_view)
    (simp add: run_release_def split_beta split: option.split release_fn.split)

lemma complete_over:
  assumes "i < length (cl_ops c)" and "\<not> op_once (cl_ops c ! i)"
  shows "over (complete E strerror i res c) i res"
  using assms by (simp add: complete_def Let_def over_def upd_op_def)

lemma finish_over:
  assumes "Value x (cl_world c) = OpVal i" and "i < length (cl_ops c)" and "\<not> op_once (cl_ops c ! i)"
  shows "over (finish_completion E strerror span (Some ev) None x c) i
    \<lparr>or_length = op_size (cl_ops c ! i), or_err = None\<rparr>"
  using assms
  by (auto simp: finish_completion_def Let_def upd_op_def intro!: complete_over)

section \<open>One poll\<close>

text \<open>\<open>armed_op c i x cc\<close>: operation \<open>i\<close> has not completed, and its context \<open>x\<close> is open, bound to it, and has record \<open>cc\<close>.\<close>

definition armed_op :: "'p client \<Rightarrow> nat \<Rightarrow> nat \<Rightarrow> cctx \<Rightarrow> bool" where
  "armed_op c i x cc \<longleftrightarrow> i < length (cl_ops c) \<and> \<not> op_once (cl_ops c ! i) \<and>
     ctxs (cl_world c) x = Some cc \<and> \<not> cc_closed cc \<and> cc_value cc = OpVal i"

lemma resolve_open:
  assumes "ctx_safe E w" and "ctxs w x = Some cc" and "\<not> cc_closed cc"
  obtains w' where "resolveCompletion (cc_ptr cc) w = (Inr x, w')" "Value x w' = cc_value cc"
proof -
  have inv: "ctx_inv w" using assms(1) by (simp add: ctx_safe_def)
  note mem = ctx_inv_open(1) [OF inv assms(2,3)]
  let ?v = "w\<lparr>registry := (registry w)(cc_ptr cc := None)\<rparr>"
  have released: "ctxs (release_ctx x True False ?v) x = Some (cc\<lparr>cc_closed := True, cc_onComplete := [], cc_cleanups := [],
      cc_copyBack := None, cc_buffer := NULL, cc_bufCap := (if cc_buffer cc = NULL then cc_bufCap cc else 0)\<rparr>)"
    using release_ctx_effect(2) [of ?v x cc True False] mem assms(2,3) ctx_invD(1) [OF inv]
    by (simp add: ctx_mem_def)
  have "Value x (release_ctx x True False ?v) = cc_value cc"
    unfolding Value_def released by simp
  moreover have "resolveCompletion (cc_ptr cc) w = (Inr x, release_ctx x True False ?v)"
    using ctx_inv_open(2) [OF inv assms(2,3)] mem by (simp add: resolveCompletion_def ctx_mem_def)
  ultimately show thesis by (intro that)
qed

lemma poll_completes:
  assumes safe: "client_safe E c" and ar: "armed_op c i x cc"
    and rd: "CQ_ReadContext E (cl_cq c) (cl_world c) = (Inr ev, w)" and ev: "ev_Context ev = Pointer x w"
    and poll: "dispatch_poll E strerror span c = (b, c')"
  shows "b \<and> over c' i \<lparr>or_length = op_size (cl_ops c ! i), or_err = None\<rparr> \<and>
    gomem (cl_world c') = gomem (snd (resolveCompletion (ev_Context ev) w))"
proof -
  have fr: "call_frame (cl_world c) w" using frame_of_read(1) [of "cl_world c" E "cl_cq c"] rd by simp
  have ctx: "ctx_safe E w" by (rule mem_safeD(1) [OF frame_world(1) [OF client_safe_mem [OF safe] fr]])
  have cc: "ctxs w x = Some cc" "\<not> cc_closed cc" "cc_value cc = OpVal i"
    using ar call_frame_ctx [OF fr] by (simp_all add: armed_op_def ctx_frame_def)
  then have p: "ev_Context ev = cc_ptr cc" using ev by (simp add: Pointer_def)
  from resolve_open [OF ctx cc(1,2)] obtain w' where w': "resolveCompletion (cc_ptr cc) w = (Inr x, w')" "Value x w' = OpVal i"
    using cc(3) by metis
  have "c' = finish_completion E strerror span (Some ev) None x (c\<lparr>cl_world := w'\<rparr>)" "b"
    using poll rd w'(1) p
    by (auto simp: dispatch_poll_def in_world_def handleCompletion_def CompletionEvent_Resolve_def)
  with finish_over [of x "c\<lparr>cl_world := w'\<rparr>" i E strerror span ev] ar w' p
    gomem_finish [of E strerror span "Some ev" None x "c\<lparr>cl_world := w'\<rparr>"]
  show ?thesis by (simp add: armed_op_def)
qed

section \<open>Contexts that a call does not touch\<close>

text \<open>Every operation on a context, or on a new one, leaves the record of any other context.\<close>

lemma ctxs_Release [simp]: "y \<noteq> x \<Longrightarrow> ctxs (Release y w) x = ctxs w x"
  by (auto simp: Release_def release_ctx_def CompletionContextFree_def Let_def split: option.split)

lemma ctxs_others [simp]:
  "y \<noteq> x \<Longrightarrow> ctxs (setCopyBack y s w) x = ctxs w x"
  "y \<noteq> x \<Longrightarrow> ctxs (snd (ensureBuffer E y n w)) x = ctxs w x"
  "ctxs (snd (region_Descriptor E r w)) x = ctxs w x"
  "ctxs (snd (try_inject E ep p rq w)) x = ctxs w x"
  "ctxs (snd (guarded E p k op w)) x = ctxs w x"
  by (auto simp: setCopyBack_def ensureBuffer_def ctxs_upd_ctx Let_def split_beta AllocBytes_def region_Descriptor_def
      capi_MR_Descriptor_def try_inject_def capi_Inject_def guarded_def split: option.split)

lemma ctxs_finish:
  "y \<noteq> x \<Longrightarrow> ctxs (snd (m w)) x = t \<Longrightarrow> ctxs (snd (finish_post Release y m w)) x = t"
  by (simp add: finish_post_def split_beta split: option.split)

lemma ctxs_stage:
  assumes "y \<noteq> x" and "ctxs w x = t" and "\<And>b v. ctxs v x = t \<Longrightarrow> ctxs (snd (k b v)) x = t"
  shows "ctxs (snd (stage Release y (ensureBuffer E y n) k w)) x = t"
proof -
  obtain r v where eb: "ensureBuffer E y n w = (r, v)" by fastforce
  then have "ctxs v x = t" using ctxs_others(2) [OF assms(1), of E n w] assms(2) by simp
  with assms(1,3) eb show ?thesis by (cases r) (simp_all add: stage_def try_act_def)
qed

lemma ctxs_use_region:
  assumes "y \<noteq> x" and "ctxs w x = t" and "\<And>b d n v. ctxs v x = t \<Longrightarrow> ctxs (snd (k b d n v)) x = t"
  shows "ctxs (snd (use_region E y r len msg k w)) x = t"
  using assms by (simp add: use_region_def Let_def split_beta split: option.split)

lemma ctxs_new_context:
  assumes "ctx_inv w" and "ctxs w x \<noteq> None" and "\<And>y v. y \<noteq> x \<Longrightarrow> ctxs (snd (k y v)) x = ctxs v x"
  shows "ctxs (snd (try_act (ensureContext E None) (\<lambda>e w. (Inl e, w)) k w)) x = ctxs w x"
proof -
  have "next_id w \<noteq> x" using ctx_invD(2) [OF assms(1), of x] assms(2) by auto
  then show ?thesis
    using assms(3)
    by (auto simp: try_act_def ensureContext_def NewCompletionContext_def CompletionContextAlloc_def Let_def split_beta)
qed

lemma ctxs_with_handle:
  "(\<And>p. ctxs (snd (f p w)) x = ctxs w x) \<Longrightarrow> ctxs (snd (with_handle r Inl e f w)) x = ctxs w x"
  by (auto simp: with_handle_def split: option.split)

lemma ctxs_PostSend:
  assumes "ctx_inv w" and "ctxs w x \<noteq> None" and "sr_Context rq = None"
  shows "ctxs (snd (PostSend E ep (Some rq) w)) x = ctxs w x"
  unfolding PostSend_def option.case assms(3)
  by (intro ctxs_with_handle ctxs_new_context [OF assms(1,2)])
    (auto simp: Let_def capi_Send_def split_beta intro!: ctxs_use_region ctxs_stage ctxs_finish
      split: option.split bool.split)

lemma ctxs_PostRecv:
  assumes "ctx_inv w" and "ctxs w x \<noteq> None" and "rr_Context rq = None"
  shows "ctxs (snd (PostRecv E ep (Some rq) w)) x = ctxs w x"
  unfolding PostRecv_def option.case assms(3)
  by (intro ctxs_with_handle ctxs_new_context [OF assms(1,2)])
    (auto simp: Let_def capi_Recv_def intro!: ctxs_use_region ctxs_stage ctxs_finish split: option.split)

section \<open>Steps of the client that do not touch a context\<close>

lemma ctxs_release_fn [simp]: "ctxs (cl_world (run_release E rel c)) = ctxs (cl_world c)"
  by (auto simp: run_release_def Pool_Release_def release_push_def split: option.split release_fn.split prod.split)

lemma ctxs_complete [simp]: "ctxs (cl_world (complete E strerror i res c)) = ctxs (cl_world c)"
  by (simp add: complete_def Let_def)

lemma ctxs_finish_completion [simp]:
  "ctxs (cl_world (finish_completion E strerror span event entry x c)) = ctxs (cl_world c)"
  by (simp add: finish_completion_def Let_def split: any_val.split)

lemma ctxs_register [simp]:
  "ctxs (cl_world (snd (in_world (RegisterMemory E d buf access) c))) = ctxs (cl_world c)"
  "ctxs (cl_world (snd (in_pool Acquire E p c))) = ctxs (cl_world c)"
  by (auto simp: in_world_def in_pool_def Acquire_def acquire_take_def RegisterMemory_def split_beta split: list.split)

lemma ctxs_prepare [simp]:
  "ctxs (cl_world (snd (prepareSend E payload dest c))) = ctxs (cl_world c)"
  "ctxs (cl_world (snd (prepareReceive E buf c))) = ctxs (cl_world c)"
  by (auto simp: prepareSend_def prepareReceive_def Let_def split: option.split
      intro!: try_act_view [where v = "\<lambda>c. ctxs (cl_world c)"])

text \<open>The two posting functions: prepare a request, post it, note the operation.\<close>

lemma ctxs_prepared_post:
  assumes "ctxs (cl_world (snd (prep c))) x = t"
    and "\<And>req rel c'. prep c = (Inr (req, rel), c') \<Longrightarrow> ctxs (cl_world c') x = t \<Longrightarrow>
      ctxs (snd (pst req c' (cl_world c'))) x = t"
    and "\<And>req rel c' y e. ctxs (cl_world e) x = t \<Longrightarrow> ctxs (cl_world (snd (k req rel c' y e))) x = t"
  shows "ctxs (cl_world (snd (try_act prep (\<lambda>e c. (Inl e, c))
    (\<lambda>(req, rel) c. try_act (in_world (pst req c)) (\<lambda>e c. (Inl (Wrap s e), run_release E rel c)) (k req rel c) c) c))) x = t"
proof (rule try_act_rule)
  show "ctxs (cl_world (snd (Inl e, c'))) x = t" if "prep c = (Inl e, c')" for e c'
    using assms(1) that by simp
next
  fix q c' assume prep: "prep c = (Inr q, c')"
  obtain req rel where q: "q = (req, rel)" by fastforce
  have "ctxs (cl_world c') x = t" using assms(1) prep by simp
  with assms(2) [of req rel c'] prep q have "ctxs (snd (pst req c' (cl_world c'))) x = t" by simp
  with assms(3) show "ctxs (cl_world (snd ((\<lambda>(req, rel) c. try_act (in_world (pst req c))
      (\<lambda>e c. (Inl (Wrap s e), run_release E rel c)) (k req rel c) c) q c'))) x = t"
    by (auto simp: q try_act_def in_world_def split: prod.splits sum.splits)
qed

lemma ctxs_send:
  assumes safe: "client_safe E c" and s: "go_slice (cl_world c) payload" and x: "ctxs (cl_world c) x \<noteq> None"
  shows "ctxs (cl_world (snd (sendAsync_post E strerror payload dest c))) x = ctxs (cl_world c) x"
proof -
  have pst: "ctxs (snd (PostSend E (cl_endpoint c') (Some req) (cl_world c'))) x = ctxs (cl_world c) x"
    if "prepareSend E payload dest c = (Inr (req, rel), c')" "ctxs (cl_world c') x = ctxs (cl_world c) x" for req rel c'
  proof -
    from client_safe_prepareSend [OF safe s, of dest] that(1) have "client_safe E c'" "sr_Context req = None"
      by (simp_all add: prepared_send_def)
    from ctxs_PostSend [OF mem_safeD(2) [OF client_safe_mem [OF this(1)]] _ this(2)] x that(2) show ?thesis by simp
  qed
  show ?thesis
    unfolding sendAsync_post_def Let_def
    by (auto intro!: ctxs_prepared_post pst split: option.split)
qed

lemma ctxs_receive:
  assumes safe: "client_safe E c" and s: "go_array (cl_world c) buf" and x: "ctxs (cl_world c) x \<noteq> None"
  shows "ctxs (cl_world (snd (ReceiveAsync_post E buf c))) x = ctxs (cl_world c) x"
proof -
  have pst: "ctxs (snd (PostRecv E (cl_endpoint c') (Some req) (cl_world c'))) x = ctxs (cl_world c) x"
    if "prepareReceive E buf c = (Inr (req, rel), c')" "ctxs (cl_world c') x = ctxs (cl_world c) x" for req rel c'
  proof -
    from client_safe_prepareReceive [OF safe s] that(1) have "client_safe E c'" "rr_Context req = None"
      by (simp_all add: prepared_receive_def)
    from ctxs_PostRecv [OF mem_safeD(2) [OF client_safe_mem [OF this(1)]] _ this(2)] x that(2) show ?thesis by simp
  qed
  show ?thesis
    unfolding ReceiveAsync_post_def Let_def
    by (auto intro!: ctxs_prepared_post pst split: option.split)
qed

lemma ctxs_peer [simp]: "ctxs (cl_world (snd (RegisterPeer E addr dflt c))) = ctxs (cl_world c)"
proof -
  have "ctxs (snd (InsertRaw E a addr fl w)) = ctxs w" for a fl and w :: "'a world"
    by (simp add: InsertRaw_def with_handle_def capi_AV_InsertRaw_def AllocBytes_def FreeBytes_def split_beta
        split: option.split)
  then show ?thesis
    by (auto simp: RegisterPeer_def in_world_def split_beta split: option.split
        intro!: try_act_view [where v = "\<lambda>c. ctxs (cl_world c)"])
qed

lemma ctxs_Close [simp]: "ctxs (cl_world (Client_Close E c)) = ctxs (cl_world c)"
proof -
  have drain: "ctxs (drain E rs w) = ctxs w" for rs and w
    by (induction rs arbitrary: w) (simp_all add: drain_def)
  then show ?thesis
    by (auto simp: Client_Close_def Let_def Pool_Close_def AV_Close_def Endpoint_Close_def CQ_Close_def EQ_Close_def
        Domain_Close_def Fabric_Close_def capi_AV_Close_def capi_Endpoint_Close_def capi_CQ_Close_def
        capi_EQ_Close_def capi_Domain_Close_def capi_Fabric_Close_def split: option.split)
qed

section \<open>Along a run\<close>

text \<open>
  In the abstract machine an operation keeps its size, is done once its completion has begun, and
  stays done.
\<close>

definition unlost :: "nat \<Rightarrow> nat \<Rightarrow> ops_state \<Rightarrow> bool" where
  "unlost i n s \<longleftrightarrow> i < length (os_ops s) \<and> op_size (os_ops s ! i) = n \<and> (op_once (os_ops s ! i) \<longrightarrow> op_done (os_ops s ! i))"

lemma unlost_step:
  assumes "ops_step s t" and "unlost i n s"
  shows "unlost i n t \<and> (op_done (os_ops s ! i) \<longrightarrow> op_done (os_ops t ! i))"
  using assms(1)
proof cases
  case (os_complete j res hs)
  with assms(2) show ?thesis by (cases "j = i") (auto simp: unlost_def)
next
  case (os_source j a)
  with assms(2) show ?thesis by (cases "j = i") (simp_all add: unlost_def)
next
  case (os_register j f)
  with assms(2) show ?thesis by (cases "j = i") (simp_all add: unlost_def)
qed (use assms(2) in \<open>simp_all add: unlost_def nth_append\<close>)

lemma unlost_run:
  assumes "ops_step\<^sup>*\<^sup>* s t" and "unlost i n s"
  shows "unlost i n t \<and> (op_done (os_ops s ! i) \<longrightarrow> op_done (os_ops t ! i))"
  using assms by (induction rule: rtranclp_induct) (use unlost_step in blast)+

lemma callback_run: "\<exists>reg. ops_step\<^sup>*\<^sup>* (ops_view [] c) (ops_view reg (addCallback i f c))"
proof (cases "f \<noteq> None \<and> i < length (cl_ops c)")
  case True
  then obtain g where g: "f = Some g" "i < length (os_ops (ops_view [] c))" by (auto simp: ops_view_def)
  have "ops_step (ops_view [] c) (ops_view [(i, g)] (addCallback i f c))"
  proof (cases "op_completed (cl_ops c ! i)")
    case True
    with os_late [OF g(2), of g] g show ?thesis by (simp add: ops_view_def addCallback_def)
  next
    case False
    with os_register [OF g(2), of g] g show ?thesis by (simp add: ops_view_def addCallback_def upd_op_def)
  qed
  then show ?thesis by blast
next
  case False
  then have "addCallback i f c = c" by (auto simp: addCallback_def split: option.split)
  then show ?thesis by (intro exI [of _ "[]"]) simp
qed

lemma view_handlers:
  "ops_view reg (snd (RegisterSendHandler h c)) = ops_view reg c"
  "ops_view reg (snd (RegisterReceiveHandler h c)) = ops_view reg c"
  "ops_view reg (UnregisterSendHandler hid c) = ops_view reg c"
  "ops_view reg (UnregisterReceiveHandler hid c) = ops_view reg c"
  "ops_view reg (SetDefaultPeer a c) = ops_view reg c"
  by (simp_all add: RegisterSendHandler_def RegisterReceiveHandler_def UnregisterSendHandler_def
      UnregisterReceiveHandler_def SetDefaultPeer_def Let_def split: option.split)

lemma use_run:
  assumes "client_use E strerror X c c'"
  shows "\<exists>reg. ops_step\<^sup>*\<^sup>* (ops_view [] c) (ops_view reg c')"
proof -
  have same: "\<exists>reg. ops_step\<^sup>*\<^sup>* (ops_view [] c) (ops_view reg d)" if "ops_view [] d = ops_view [] c" for d
    by (intro exI [of _ "[]"]) (simp add: that)
  from assms show ?thesis
  proof cases
    case (cu_send payload dest)
    then show ?thesis using sendAsync_post_run by blast
  next
    case (cu_receive buf)
    then show ?thesis using ReceiveAsync_post_run by blast
  next
    case (cu_poll span)
    then show ?thesis using dispatch_poll_run by blast
  next
    case (cu_callback i f)
    then show ?thesis using callback_run by blast
  qed (rule same, simp add: view_handlers RegisterPeer_view Client_Close_view)+
qed

lemma finish_done:
  assumes "Value x (cl_world c) = OpVal i" and "i < length (cl_ops c)" and "\<not> op_once (cl_ops c ! i)"
  shows "op_done (cl_ops (finish_completion E strerror span event entry x c) ! i)"
proof -
  have "\<exists>r. over (finish_completion E strerror span event entry x c) i r"
    using assms by (auto simp: finish_completion_def Let_def upd_op_def intro!: exI complete_over)
  then show ?thesis by (auto simp: over_def)
qed

text \<open>Handling a completion resolves at most one context; when it is \<open>x\<close>, operation \<open>i\<close> is done.\<close>

lemma resolved_armed:
  assumes safe: "client_safe E c" and ar: "armed_op c i x cc" and m: "m = resolveCompletion p \<or> m = (\<lambda>w. (Inl e, w))"
    and c': "c' = (case in_world m c of (Inl e, c1) \<Rightarrow> c1 | (Inr y, c1) \<Rightarrow> finish_completion E strerror span event entry y c1)"
  shows "ctxs (cl_world c') x = Some cc \<or> op_done (cl_ops c' ! i)"
proof (cases "m = resolveCompletion p")
  case True
  have inv: "ctx_inv (cl_world c)" by (rule mem_safeD(2) [OF client_safe_mem [OF safe]])
  obtain r w where r: "resolveCompletion p (cl_world c) = (r, w)" by fastforce
  have x: "ctxs (cl_world c) x = Some cc" "\<not> cc_closed cc" "cc_value cc = OpVal i" "i < length (cl_ops c)"
    "\<not> op_once (cl_ops c ! i)" using ar by (simp_all add: armed_op_def)
  show ?thesis
  proof (cases "r = Inr x")
    case False
    with resolve_other(1) [OF inv r] x(1) True r show ?thesis
      by (cases r) (simp_all add: c' in_world_def)
  next
    case same: True
    from same r have "p = cc_ptr cc"
    proof -
      from same r obtain "p \<noteq> NULL" "registry (cl_world c) p = Some x"
        by (auto simp: resolveCompletion_def split: if_splits option.splits)
      with ctx_invD(4) [OF inv this(2)] x(1) show ?thesis by auto
    qed
    with resolve_open [OF mem_safeD(1) [OF client_safe_mem [OF safe]] x(1,2)] r x(3) have "Value x w = OpVal i"
      by (metis snd_conv)
    with True r same x(4,5) show ?thesis
      by (auto simp: c' in_world_def intro!: finish_done)
  qed
next
  case False
  with m ar show ?thesis by (simp add: c' in_world_def armed_op_def)
qed

lemma poll_armed:
  assumes safe: "client_safe E c" and ar: "armed_op c i x cc"
  shows "ctxs (cl_world (snd (dispatch_poll E strerror span c))) x = Some cc \<or>
    op_done (cl_ops (snd (dispatch_poll E strerror span c)) ! i)"
proof -
  have armed_again: "armed_op d i x cc"
    if "call_frame (cl_world c) (cl_world d)" "cl_ops d = cl_ops c" for d
    using that(2) ar call_frame_ctx [OF that(1)] by (simp add: armed_op_def ctx_frame_def)
  have event: "CompletionEvent_Resolve (Some ev) = resolveCompletion (ev_Context ev)"
    and entry: "CompletionError_Resolve (Some en) = resolveCompletion (cqe_Context en)" for ev en
    by (simp_all add: fun_eq_iff CompletionEvent_Resolve_def CompletionError_Resolve_def)
  obtain r w where rd: "CQ_ReadContext E (cl_cq c) (cl_world c) = (r, w)" by fastforce
  let ?c1 = "c\<lparr>cl_world := w\<rparr>"
  have fr: "call_frame (cl_world c) w" using frame_of_read(1) [of "cl_world c" E "cl_cq c"] rd by simp
  have c1: "client_safe E ?c1"
    using client_safe_world [OF safe frame_world [OF client_safe_mem [OF safe] fr]] .
  show ?thesis
  proof (cases r)
    case (Inr ev)
    with resolved_armed [OF c1 armed_again [of ?c1] disjI1 [OF event] refl] fr rd show ?thesis
      by (simp add: dispatch_poll_def in_world_def handleCompletion_def)
  next
    case (Inl e)
    let ?d = "note_failure E strerror span ''cq_read_error'' ''cq read'' e ?c1"
    have d: "client_safe E ?d" using c1 client_safe_cong [OF mem_view_note] by blast
    have ops: "cl_ops (note_failure E strerror span s t u v) = cl_ops v" "cl_world (note_failure E strerror span s t u v) = cl_world v" for s t u v
      by (simp_all add: note_failure_def recordDispatcherError_def Let_def)
    obtain r2 w2 where re: "CQ_ReadError E (cl_cq c) 0 w = (r2, w2)" by fastforce
    have cq: "cl_cq ?d = cl_cq c" by (simp add: note_failure_def recordDispatcherError_def Let_def tell_def)
    let ?c2 = "?d\<lparr>cl_world := w2\<rparr>"
    have fr2: "call_frame w w2" using frame_of_read(2) [of w E "cl_cq c" 0] re by simp
    have c2: "client_safe E ?c2"
      using client_safe_world [OF d] frame_world [OF client_safe_mem [OF d]] fr2 by (simp add: ops)
    have ar2: "armed_op ?c2 i x cc"
      using armed_again [of ?c2] call_frame_trans [OF fr fr2] by (simp add: ops)
    have "in_world (CQ_ReadError E (cl_cq c) 0) ?d = (r2, ?c2)" by (simp add: in_world_def ops re)
    then have "snd (dispatch_poll E strerror span c) = (case r2 of Inr en \<Rightarrow> handleCompletion E strerror None (Some en) span ?c2
        | Inl e2 \<Rightarrow> note_failure E strerror span ''cq_readerr_error'' ''cq readerr'' e2 ?c2)"
      using Inl rd by (simp add: dispatch_poll_def in_world_def cq split: sum.split)
    with resolved_armed [OF c2 ar2 disjI1 [OF entry] refl] ar2 show ?thesis
      by (cases r2) (simp_all add: handleCompletion_def armed_op_def ops)
  qed
qed

lemma use_armed:
  assumes safe: "client_safe E c" and ar: "armed_op c i x cc" and use: "client_use E strerror X c c'" and x: "x \<in> X"
  shows "ctxs (cl_world c') x = Some cc \<or> op_done (cl_ops c' ! i)"
proof -
  have cc: "ctxs (cl_world c) x = Some cc" "ctxs (cl_world c) x \<noteq> None" using ar by (simp_all add: armed_op_def)
  have same: "?thesis" if "ctxs (cl_world c') x = ctxs (cl_world c) x" using that cc by simp
  from use show ?thesis
  proof cases
    case (cu_send payload dest)
    then show ?thesis using same ctxs_send [OF safe _ cc(2)] by simp
  next
    case (cu_receive buf)
    then show ?thesis using same ctxs_receive [OF safe _ cc(2)] by simp
  next
    case (cu_bind y j)
    with x have "y \<noteq> x" by auto
    with cu_bind show ?thesis by (intro same) (auto simp: bind_op_def SetValue_def ctxs_upd_ctx split: option.split)
  next
    case (cu_poll span)
    then show ?thesis using poll_armed [OF safe ar] by simp
  next
    case (cu_callback j f)
    then show ?thesis using mem_view_callback [of j f c] same by (simp add: mem_view_def)
  next
    case (cu_world w)
    with x same show ?thesis by simp
  qed (rule same, simp add: RegisterSendHandler_def RegisterReceiveHandler_def UnregisterSendHandler_def
      UnregisterReceiveHandler_def SetDefaultPeer_def Let_def split: option.split)+
qed

text \<open>Along every run, the operation is still waiting with the same context record, or it is done.\<close>

definition waits_or_done :: "nat \<Rightarrow> nat \<Rightarrow> cctx \<Rightarrow> nat \<Rightarrow> 'p client \<Rightarrow> bool" where
  "waits_or_done i x cc n c \<longleftrightarrow> unlost i n (ops_view [] c) \<and> (armed_op c i x cc \<or> op_done (cl_ops c ! i))"

lemma unlost_view: "unlost i n (ops_view reg c) = unlost i n (ops_view [] c)"
  by (simp add: unlost_def ops_view_def)

lemma use_waits_or_done:
  assumes "client_safe E c" and "waits_or_done i x cc n c" and "client_use E strerror X c c'" and "x \<in> X"
  shows "waits_or_done i x cc n c'"
proof -
  obtain reg where run: "ops_step\<^sup>*\<^sup>* (ops_view [] c) (ops_view reg c')" using use_run [OF assms(3)] by blast
  have "unlost i n (ops_view [] c)" using assms(2) by (simp add: waits_or_done_def)
  from unlost_run [OF run this] have later: "unlost i n (ops_view [] c')" "op_done (cl_ops c ! i) \<longrightarrow> op_done (cl_ops c' ! i)"
    unfolding unlost_view [of i n reg] by (simp_all add: ops_view_def)
  have "armed_op c' i x cc \<or> op_done (cl_ops c' ! i)" if "armed_op c i x cc"
  proof (cases "op_done (cl_ops c' ! i)")
    case False
    with use_armed [OF assms(1) that assms(3,4)] later(1) that show ?thesis
      by (auto simp: armed_op_def unlost_def ops_view_def)
  qed simp
  with later assms(2) show ?thesis by (auto simp: waits_or_done_def)
qed

lemma run_waits_or_done:
  assumes "(client_use E strerror X)\<^sup>*\<^sup>* c c'" and "client_safe E c" and "armed_op c i x cc" and "x \<in> X"
  shows "client_safe E c'" and "waits_or_done i x cc (op_size (cl_ops c ! i)) c'"
proof -
  show "client_safe E c'" by (rule client_memory.reach_inv [OF assms(1,2)])
  have "waits_or_done i x cc (op_size (cl_ops c ! i)) c"
    using assms(3) by (simp add: waits_or_done_def unlost_def ops_view_def armed_op_def)
  then show "waits_or_done i x cc (op_size (cl_ops c ! i)) c'"
    by (rule client_memory.reach_carry [OF assms(1,2)]) (rule use_waits_or_done [OF _ _ _ assms(4)])
qed

section \<open>A receive without regions\<close>

lemma prepareReceive_plain:
  assumes "\<not> on_region c buf" and "sl_len buf \<noteq> 0"
  shows "prepareReceive E buf c =
    (Inr (\<lparr>rr_Buffer = buf, rr_Source = 0, rr_Flags = 0, rr_Context = None, rr_Region = None\<rparr>, None), c)"
  using assms by (auto simp: prepareReceive_def Let_def on_region_def split: option.split)

text \<open>What such a post leaves: the call it made, and a context that will copy the staging buffer back.\<close>

lemma receive_armed:
  assumes safe: "client_safe E c" and buf: "go_array (cl_world c) buf" and plain: "\<not> on_region c buf"
    and post: "ReceiveAsync_post E buf c = (Inr (i, Some x), c')"
  obtains p cc where "ctxs (cl_world c') x = Some cc" "\<not> cc_closed cc" "cc_buffer cc \<noteq> NULL" "cc_copyBack cc = Some buf"
    "fst (last (calls (cl_world c'))) = C_recv p (cc_buffer cc) (sl_len buf) NULL FIAddrUnspec (cc_ptr cc)"
    "i < length (cl_ops c')" "\<not> op_once (cl_ops c' ! i)" "op_size (cl_ops c' ! i) = sl_len buf"
proof -
  let ?req = "\<lparr>rr_Buffer = buf, rr_Source = 0, rr_Flags = 0, rr_Context = None, rr_Region = None\<rparr>"
  have n: "sl_len buf \<noteq> 0" using post by (auto simp: ReceiveAsync_post_def split: option.splits if_splits)
  from post have pr: "PostRecv E (cl_endpoint c) (Some ?req) (cl_world c) = (Inr (Some x), cl_world c')"
    and op: "i < length (cl_ops c')" "\<not> op_once (cl_ops c' ! i)" "op_size (cl_ops c' ! i) = sl_len buf"
    by (auto simp: ReceiveAsync_post_def prepareReceive_plain [OF plain n] try_act_def Let_def in_world_def
        newOperation_def split: option.splits if_splits prod.splits sum.splits)
  note ctx = mem_safeD(1) [OF client_safe_mem [OF safe]]
  from staged_PostRecv [OF ctx _ _ _ _ pr] buf n obtain p where
    "handed E (\<lambda>b y. C_recv p b (sl_len buf) NULL (recv_source 0) y) buf True x (cl_world c) (cl_world c')"
    by (auto simp: ready_def)
  then obtain v cc where "cl_world c' = snd (ccall E (C_recv p (cc_buffer cc) (sl_len buf) NULL (recv_source 0) (cc_ptr cc)) v)"
    "ctxs v x = Some cc" "\<not> cc_closed cc" "cc_buffer cc \<noteq> NULL" "cc_copyBack cc = Some buf"
    unfolding handed_def by auto
  with op show thesis by (intro that [of cc p]) (simp_all add: recv_source_def)
qed

lemma received_armed:
  assumes "client_safe E c" and "go_array (cl_world c) buf" and "\<not> on_region c buf"
    and "ReceiveAsync_post E buf c = (Inr (i, Some x), c1)"
  obtains p cc where "armed_op (bind_op i (Some x) c1) i x cc" "client_safe E (bind_op i (Some x) c1)"
    "cc_buffer cc \<noteq> NULL" "cc_copyBack cc = Some buf" "op_size (cl_ops (bind_op i (Some x) c1) ! i) = sl_len buf"
    "fst (last (calls (cl_world c1))) = C_recv p (cc_buffer cc) (sl_len buf) NULL FIAddrUnspec (cc_ptr cc)"
proof -
  have "client_safe E (bind_op i (Some x) c1)"
    using client_safe_bind [OF client_safe_receive [OF assms(1,2)]] assms(4) by (metis snd_conv)
  moreover from receive_armed [OF assms] obtain p cc where
    "ctxs (cl_world c1) x = Some cc" "\<not> cc_closed cc" "cc_buffer cc \<noteq> NULL" "cc_copyBack cc = Some buf"
    "fst (last (calls (cl_world c1))) = C_recv p (cc_buffer cc) (sl_len buf) NULL FIAddrUnspec (cc_ptr cc)"
    "i < length (cl_ops c1)" "\<not> op_once (cl_ops c1 ! i)" "op_size (cl_ops c1 ! i) = sl_len buf" by metis
  ultimately show thesis
    by (intro that [of "cc\<lparr>cc_value := OpVal i\<rparr>" p])
      (simp_all add: armed_op_def bind_op_def SetValue_def ctxs_upd_ctx)
qed

section \<open>Properties\<close>

text \<open>
  Claim C6. An operation that is bound to its context is never lost. However the client is used from
  then on, by its callers, its dispatcher and the rest of the program, either the operation is done
  or its context is still registered under its pointer, and then the first poll that reads a
  completion of that pointer makes it done.
\<close>

theorem bound_operation_finishes:
  assumes "client_safe E c" and "armed_op c i x cc" and "x \<in> X"
    and "(client_use E strerror X)\<^sup>*\<^sup>* c c'"
  shows "future_Done (Some i) c' = Some True \<or>
    registry (cl_world c') (cc_ptr cc) = Some x \<and>
    (\<forall>ev w span. CQ_ReadContext E (cl_cq c') (cl_world c') = (Inr ev, w) \<and> ev_Context ev = cc_ptr cc \<longrightarrow>
       future_Done (Some i) (snd (dispatch_poll E strerror span c')) = Some True)"
proof -
  note run = run_waits_or_done [OF assms(4,1,2,3)]
  then have "armed_op c' i x cc \<or> future_Done (Some i) c' = Some True"
    by (auto simp: waits_or_done_def unlost_def ops_view_def future_Done_def)
  moreover have "registry (cl_world c') (cc_ptr cc) = Some x" if "armed_op c' i x cc"
    using that ctx_inv_open(2) [OF mem_safeD(2) [OF client_safe_mem [OF run(1)]]] by (simp add: armed_op_def)
  moreover have "future_Done (Some i) (snd (dispatch_poll E strerror span c')) = Some True"
    if ar: "armed_op c' i x cc" and rd: "CQ_ReadContext E (cl_cq c') (cl_world c') = (Inr ev, w)"
      and ev: "ev_Context ev = cc_ptr cc" for ev w span
  proof -
    have fr: "call_frame (cl_world c') w" using frame_of_read(1) [of "cl_world c'" E "cl_cq c'"] rd by simp
    from ar call_frame_ctx [OF fr] have "Pointer x w = cc_ptr cc" by (simp add: armed_op_def ctx_frame_def Pointer_def)
    with poll_completes [OF run(1) ar rd _ prod.collapse [symmetric]] ev over_Await(3) show ?thesis by metis
  qed
  ultimately show ?thesis by blast
qed

text \<open>
  Claim C5. A client without regions delivers what it receives. A receive is posted and bound to its
  context, and the client goes on being used in any way; when the dispatcher reads the completion of
  that context, the poll finishes the operation without an error, its \<open>Await\<close> returns the size of the
  buffer, and the caller's array starts with the bytes that the buffer given to \<open>fi_recv\<close> holds at that
  moment and is unchanged behind them.
\<close>

theorem client_receive_delivers:
  assumes "client_safe E c" and "go_array (cl_world c) buf" and "sl_loc buf = GoMem a" and "\<not> on_region c buf"
    and "ReceiveAsync_post E buf c = (Inr (i, Some x), c1)"
    and "(client_use E strerror {x})\<^sup>*\<^sup>* (bind_op i (Some x) c1) c2" and "future_Done (Some i) c2 = Some False"
    and "CQ_ReadContext E (cl_cq c2) (cl_world c2) = (Inr ev, w)" and "ev_Context ev = Pointer x w"
  shows "\<exists>p y. fst (last (calls (cl_world c1))) = C_recv p y (sl_len buf) NULL FIAddrUnspec (Pointer x w) \<and>
    (let c3 = snd (dispatch_poll E strerror span c2)
     in gomem (cl_world c3) a = take (sl_len buf) (blk_bytes (the (heap w y))) @ drop (sl_len buf) (gomem (cl_world c2) a) \<and>
        ReceiveFuture_Await (Some i) None pick c3 = Some (sl_len buf, None))"
proof -
  from received_armed [OF assms(1,2,4,5)] obtain p cc where
    ar: "armed_op (bind_op i (Some x) c1) i x cc" and safe: "client_safe E (bind_op i (Some x) c1)"
    and cc: "cc_buffer cc \<noteq> NULL" "cc_copyBack cc = Some buf" "op_size (cl_ops (bind_op i (Some x) c1) ! i) = sl_len buf"
    and call: "fst (last (calls (cl_world c1))) = C_recv p (cc_buffer cc) (sl_len buf) NULL FIAddrUnspec (cc_ptr cc)" .
  note run = run_waits_or_done [OF assms(6) safe ar singletonI]
  with assms(7) cc(3) have ar2: "armed_op c2 i x cc" and size: "op_size (cl_ops c2 ! i) = sl_len buf"
    by (auto simp: waits_or_done_def unlost_def ops_view_def future_Done_def armed_op_def)
  have fr: "call_frame (cl_world c2) w" using frame_of_read(1) [of "cl_world c2" E "cl_cq c2"] assms(8) by simp
  have w: "ctxs w x = Some cc" "\<not> cc_closed cc" "ctx_safe E w"
    using ar2 call_frame_ctx [OF fr] mem_safeD(1) [OF frame_world(1) [OF client_safe_mem [OF run(1)] fr]]
    by (simp_all add: armed_op_def ctx_frame_def)
  have g: "gomem w = gomem (cl_world c2)"
    using assms(8) by (auto simp: CQ_ReadContext_def with_handle_def capi_ReadContext_def split_beta
        dest: arg_cong [where f = "\<lambda>x. gomem (snd x)"] split: option.splits)
  have "registry w (cc_ptr cc) = Some x"
    using ctx_inv_open(2) [of w x cc] w by (simp add: ctx_safe_def)
  from copied_back [OF w(3) this w(1) cc(2) assms(3)] cc(1) g
  have copy: "gomem (snd (resolveCompletion (cc_ptr cc) w)) a =
      take (sl_len buf) (blk_bytes (the (heap w (cc_buffer cc)))) @ drop (sl_len buf) (gomem (cl_world c2) a)"
    by simp
  have ptr: "Pointer x w = cc_ptr cc" using w(1) by (simp add: Pointer_def)
  note poll = poll_completes [OF run(1) ar2 assms(8,9) prod.collapse [symmetric]]
  with over_Await(2) have "ReceiveFuture_Await (Some i) None pick (snd (dispatch_poll E strerror span c2)) = Some (sl_len buf, None)"
    by (metis operationResult.select_convs size)
  with poll copy call ptr assms(9) show ?thesis by (auto simp: Let_def)
qed

section \<open>A delivered receive\<close>

text \<open>
  The concrete client on a provider that completes the first context at every poll, after filling
  every allocated block with ones; a four-byte receive, bound, a handler registered, then polled.
\<close>

definition deliver_env :: "nat cenv" where
  "deliver_env = post_env\<lparr>lib := (\<lambda>c h q.
     (case c of C_cq_read p \<Rightarrow> resp0\<lparr>r_ret := 1, r_ctx := 1\<rparr> | _ \<Rightarrow> resp0,
      \<lambda>p. (case h p of None \<Rightarrow> [] | Some bs \<Rightarrow> replicate (length bs) 1), q))\<rparr>"

definition receiving :: "nat client" where
  "receiving = snd (ReceiveAsync_post deliver_env demo_payload demo_client)"

definition watched :: "nat client" where
  "watched = snd (RegisterReceiveHandler (Some 8) (bind_op 0 (Some 5) receiving))"

definition polled_world :: "nat world" where
  "polled_world = snd (CQ_ReadContext deliver_env (cl_cq watched) (cl_world watched))"

lemma receiving_facts:
  "fst (ReceiveAsync_post deliver_env demo_payload demo_client) = Inr (0, Some 5)"
  "fst (CQ_ReadContext deliver_env (cl_cq watched) (cl_world watched)) =
     Inr \<lparr>ev_Context = 1, ev_Tag = 0, ev_Data = 0, ev_Source = 0\<rparr>"
  "Pointer 5 polled_world = 1" "future_Done (Some 0) watched = Some False"
  "map_option cc_ptr (ctxs (cl_world (bind_op 0 (Some 5) receiving)) 5) = Some 1"
  by code_simp+

lemma demo_world_safe: "mem_safe deliver_env (cl_world demo_client)"
  by (simp add: mem_safe_def ctx_safe_def ctx_inv_def no_leak_def region_inv_def region_ok_def
      demo_client_def post_world_def world0_def shape_def deliver_env_def malloc_spec_def post_env_def bump_malloc_def)

lemma demo_client_safe: "client_safe deliver_env demo_client"
  by (rule client_safe_idle [OF _ demo_world_safe]) (simp add: idle_client_def demo_client_def)

lemma demo_buffer: "go_array (cl_world demo_client) demo_payload" "\<not> on_region demo_client demo_payload"
  by (simp_all add: go_array_def demo_payload_def demo_client_def post_world_def on_region_def)

lemma receiving_posted: "ReceiveAsync_post deliver_env demo_payload demo_client = (Inr (0, Some 5), receiving)"
  using receiving_facts(1) by (metis prod.collapse receiving_def)

lemma watched_run: "(client_use deliver_env (\<lambda>_. '''') {5})\<^sup>*\<^sup>* (bind_op 0 (Some 5) receiving) watched"
  unfolding watched_def by (rule r_into_rtranclp) (rule cu_receive_handler)

lemma watched_read:
  "CQ_ReadContext deliver_env (cl_cq watched) (cl_world watched) =
    (Inr \<lparr>ev_Context = 1, ev_Tag = 0, ev_Data = 0, ev_Source = 0\<rparr>, polled_world)"
  using receiving_facts(2) by (metis prod.collapse polled_world_def)

theorem client_receive_delivers_witness:
  "ReceiveFuture_Await (Some 0) None True (snd (dispatch_poll deliver_env (\<lambda>_. '''') None watched)) = Some (4, None) \<and>
   gomem (cl_world (snd (dispatch_poll deliver_env (\<lambda>_. '''') None watched))) 5 = [1, 1, 1, 1, 5, 6]"
proof -
  have "sl_loc demo_payload = GoMem 5" "sl_len demo_payload = 4" by (simp_all add: demo_payload_def)
  with client_receive_delivers [where a = 5 and pick = True and span = None, OF demo_client_safe demo_buffer(1) _
      demo_buffer(2) receiving_posted watched_run receiving_facts(4) watched_read] receiving_facts(3)
  have "ReceiveFuture_Await (Some 0) None True (snd (dispatch_poll deliver_env (\<lambda>_. '''') None watched)) = Some (4, None)"
    by (auto simp: Let_def)
  moreover have "gomem (cl_world (snd (dispatch_poll deliver_env (\<lambda>_. '''') None watched))) 5 = [1, 1, 1, 1, 5, 6]"
    by code_simp
  ultimately show ?thesis by simp
qed

theorem bound_operation_finishes_witness:
  "future_Done (Some 0) (snd (dispatch_poll deliver_env (\<lambda>_. '''') None watched)) = Some True"
proof -
  from received_armed [OF demo_client_safe demo_buffer receiving_posted] obtain cc where
    ar: "armed_op (bind_op 0 (Some 5) receiving) 0 5 cc" and safe: "client_safe deliver_env (bind_op 0 (Some 5) receiving)" .
  then have "cc_ptr cc = 1" using receiving_facts(5) by (simp add: armed_op_def)
  with bound_operation_finishes [OF safe ar singletonI watched_run] receiving_facts(4) watched_read show ?thesis
    by auto
qed

end
