(* ===== verification/Descriptors.thy ===== *)
theory Descriptors
  imports Discovery
begin

text \<open>
  The queries of \<open>fi/discover.go\<close> about a provider: on a live descriptor (an entry of the list a
  \<open>Discovery\<close> holds), on the \<open>Info\<close> snapshot that outlives it, and on a domain opened from it. The
  code repeats each of them on the three types; the lemmas say that the answers agree.
\<close>

section \<open>Queries of a snapshot\<close>

definition Info_MRModeFlags :: "Info \<Rightarrow> uint64" where
  "Info_MRModeFlags i = i_MRMode i"

definition Info_RequiresMRMode :: "Info \<Rightarrow> uint64 \<Rightarrow> bool" where
  "Info_RequiresMRMode i flag \<longleftrightarrow> (if flag = 0 then False else any_bit (i_MRMode i) flag)"

definition Info_SupportsRDM :: "fi_hdr \<Rightarrow> Info \<Rightarrow> bool" where
  "Info_SupportsRDM H i \<longleftrightarrow> SupportsEndpointType i (FI_EP_RDM H)"

definition Info_SupportsDatagram :: "fi_hdr \<Rightarrow> Info \<Rightarrow> bool" where
  "Info_SupportsDatagram H i \<longleftrightarrow> SupportsEndpointType i (FI_EP_DGRAM H)"

section \<open>Queries of a descriptor\<close>

definition Desc_Info :: "fi_hdr \<Rightarrow> ver_api \<Rightarrow> fi_info \<Rightarrow> Info" where
  "Desc_Info H A d = infoFromEntry H A d"

definition Desc_Provider :: "fi_info \<Rightarrow> string" where
  "Desc_Provider d = ProviderName d"

definition Desc_SupportsTagged :: "fi_hdr \<Rightarrow> fi_info \<Rightarrow> bool" where
  "Desc_SupportsTagged H d \<longleftrightarrow> any_bit (fi_caps d) (FI_TAGGED H)"

definition Desc_SupportsMsg :: "fi_hdr \<Rightarrow> fi_info \<Rightarrow> bool" where
  "Desc_SupportsMsg H d \<longleftrightarrow> any_bit (fi_caps d) (FI_MSG H)"

definition Desc_SupportsRMA :: "fi_hdr \<Rightarrow> fi_info \<Rightarrow> bool" where
  "Desc_SupportsRMA H d \<longleftrightarrow> any_bit (fi_caps d) (FI_RMA H)"

definition Desc_SupportsRemoteRead :: "fi_hdr \<Rightarrow> fi_info \<Rightarrow> bool" where
  "Desc_SupportsRemoteRead H d \<longleftrightarrow> any_bit (fi_caps d) (FI_REMOTE_READ H)"

definition Desc_SupportsRemoteWrite :: "fi_hdr \<Rightarrow> fi_info \<Rightarrow> bool" where
  "Desc_SupportsRemoteWrite H d \<longleftrightarrow> any_bit (fi_caps d) (FI_REMOTE_WRITE H)"

definition Desc_MRModeFlags :: "fi_info \<Rightarrow> uint64" where
  "Desc_MRModeFlags d = MRMode d"

definition Desc_RequiresMRMode :: "fi_info \<Rightarrow> uint64 \<Rightarrow> bool" where
  "Desc_RequiresMRMode d flag \<longleftrightarrow> (if flag = 0 then False else any_bit (MRMode d) flag)"

definition Desc_MRKeySize :: "fi_info \<Rightarrow> nat" where
  "Desc_MRKeySize d = MRKeySize d"

definition Desc_MRIovLimit :: "fi_info \<Rightarrow> nat" where
  "Desc_MRIovLimit d = MRIovLimit d"

definition Desc_EndpointType :: "fi_hdr \<Rightarrow> fi_info \<Rightarrow> int" where
  "Desc_EndpointType H d = entry_EndpointType H d"

definition Desc_SupportsEndpointType :: "fi_hdr \<Rightarrow> fi_info \<Rightarrow> int \<Rightarrow> bool" where
  "Desc_SupportsEndpointType H d t \<longleftrightarrow> Desc_EndpointType H d = t"

section \<open>Queries of a domain\<close>

text \<open>A nil domain is \<open>None\<close>. (A closed one keeps its attributes.)\<close>

definition Domain_MRModeFlags :: "godomain option \<Rightarrow> uint64" where
  "Domain_MRModeFlags d = (case d of None \<Rightarrow> 0 | Some x \<Rightarrow> gd_mrMode x)"

definition Domain_RequiresMRMode :: "godomain option \<Rightarrow> uint64 \<Rightarrow> bool" where
  "Domain_RequiresMRMode d flag \<longleftrightarrow>
     (case d of None \<Rightarrow> False | Some x \<Rightarrow> if flag = 0 then False else any_bit (gd_mrMode x) flag)"

definition Domain_MRKeySize :: "godomain option \<Rightarrow> nat" where
  "Domain_MRKeySize d = (case d of None \<Rightarrow> 0 | Some x \<Rightarrow> gd_mrKeySize x)"

definition Domain_MRIovLimit :: "godomain option \<Rightarrow> nat" where
  "Domain_MRIovLimit d = (case d of None \<Rightarrow> 0 | Some x \<Rightarrow> gd_mrIovLimit x)"

section \<open>The three agree\<close>

text \<open>The questions one can ask, and the answers of the three types; a domain answers only some.\<close>

datatype query =
    AskTagged
  | AskMsg
  | AskRMA
  | AskRemoteRead
  | AskRemoteWrite
  | AskEndpointType int
  | AskMRMode uint64

fun ask_info :: "fi_hdr \<Rightarrow> Info \<Rightarrow> query \<Rightarrow> bool" where
  "ask_info H i AskTagged = Info_SupportsTagged H i"
| "ask_info H i AskMsg = Info_SupportsMsg H i"
| "ask_info H i AskRMA = Info_SupportsRMA H i"
| "ask_info H i AskRemoteRead = Info_SupportsRemoteRead H i"
| "ask_info H i AskRemoteWrite = Info_SupportsRemoteWrite H i"
| "ask_info H i (AskEndpointType t) = SupportsEndpointType i t"
| "ask_info H i (AskMRMode f) = Info_RequiresMRMode i f"

fun ask_descriptor :: "fi_hdr \<Rightarrow> fi_info \<Rightarrow> query \<Rightarrow> bool" where
  "ask_descriptor H d AskTagged = Desc_SupportsTagged H d"
| "ask_descriptor H d AskMsg = Desc_SupportsMsg H d"
| "ask_descriptor H d AskRMA = Desc_SupportsRMA H d"
| "ask_descriptor H d AskRemoteRead = Desc_SupportsRemoteRead H d"
| "ask_descriptor H d AskRemoteWrite = Desc_SupportsRemoteWrite H d"
| "ask_descriptor H d (AskEndpointType t) = Desc_SupportsEndpointType H d t"
| "ask_descriptor H d (AskMRMode f) = Desc_RequiresMRMode d f"

lemma snapshot_answers: "ask_info H (Desc_Info H A d) q = ask_descriptor H d q"
  by (cases q) (simp_all add: Desc_Info_def infoFromEntry_def Info_SupportsTagged_def Info_SupportsMsg_def
      Info_SupportsRMA_def Info_SupportsRemoteRead_def Info_SupportsRemoteWrite_def SupportsCap_def
      SupportsEndpointType_def Info_RequiresMRMode_def Desc_SupportsTagged_def Desc_SupportsMsg_def
      Desc_SupportsRMA_def Desc_SupportsRemoteRead_def Desc_SupportsRemoteWrite_def
      Desc_SupportsEndpointType_def Desc_EndpointType_def Desc_RequiresMRMode_def)

lemma domain_answers:
  assumes "OpenDomain E d fabric w = (Inr x, w')"
  shows "Domain_RequiresMRMode (Some x) flag = Desc_RequiresMRMode d flag"
    and "Domain_MRModeFlags (Some x) = Desc_MRModeFlags d"
    and "Domain_MRKeySize (Some x) = Desc_MRKeySize d" and "Domain_MRIovLimit (Some x) = Desc_MRIovLimit d"
  using assms
  by (auto simp: OpenDomain_def with_handle_def try_act_def Domain_RequiresMRMode_def Domain_MRModeFlags_def
      Domain_MRKeySize_def Domain_MRIovLimit_def Desc_RequiresMRMode_def Desc_MRModeFlags_def Desc_MRKeySize_def
      Desc_MRIovLimit_def split: option.splits prod.splits sum.splits)

end
