(* ===== verification/Examples.thy ===== *)
theory Examples
  imports Ownership Descriptors
begin

text \<open>
  The example programs \<open>examples/rma_basic\<close>, \<open>examples/msg_basic\<close> and \<open>examples/provider_switch\<close>:
  programs over the whole \<open>fi\<close> package, from discovery to the transfer. They close what they open
  with \<open>defer\<close>, which is the combinator \<open>deferring\<close>; \<open>log.Fatalf\<close> leaves the process without
  running deferred calls.

  What such a program prints is a list of lines, here without the formatting verbs. \<open>g\<close> names the
  Go array a \<open>make\<close> returns for a buffer the program reads afterwards; buffers that are only
  copied from are values. The \<open>k\<close>-th blocking call of a program polls its deadline as \<open>ex k\<close>.
\<close>

section \<open>Bodies with deferred calls\<close>

datatype line = Say string | Quoted string "byte list" | Addresses uint64 uint64

type_synonym 'p body = "'p world \<Rightarrow> ((goerr option \<times> line list) \<times> 'p world) option"

definition return_err :: "goerr option \<Rightarrow> 'p body" where
  "return_err e w = Some ((e, []), w)"

text \<open>\<open>x, err := m(); if err != nil { ... }\<close> in a body.\<close>

definition attempt ::
  "('p world \<Rightarrow> 'a result \<times> 'p world) \<Rightarrow> (goerr \<Rightarrow> 'p world \<Rightarrow> 'r option) \<Rightarrow> ('a \<Rightarrow> 'p world \<Rightarrow> 'r option) \<Rightarrow>
   'p world \<Rightarrow> 'r option" where
  "attempt m onerr k w = (case m w of (Inl e, w') \<Rightarrow> onerr e w' | (Inr x, w') \<Rightarrow> k x w')"

definition attempt_do ::
  "('p world \<Rightarrow> goerr option \<times> 'p world) \<Rightarrow> (goerr \<Rightarrow> 'p world \<Rightarrow> 'r option) \<Rightarrow> ('p world \<Rightarrow> 'r option) \<Rightarrow>
   'p world \<Rightarrow> 'r option" where
  "attempt_do m onerr k w = (case m w of (Some e, w') \<Rightarrow> onerr e w' | (None, w') \<Rightarrow> k w')"

definition failing :: "string \<Rightarrow> goerr \<Rightarrow> 'p body" where
  "failing what e = return_err (Some (Wrap what e))"

definition deferring :: "('p world \<Rightarrow> 'p world) \<Rightarrow> 'p body \<Rightarrow> 'p body" where
  "deferring cl k w = map_option (\<lambda>(r, w'). (r, cl w')) (k w)"

definition saying :: "line \<Rightarrow> 'p body \<Rightarrow> 'p body" where
  "saying l k w = map_option (\<lambda>((e, out), w'). ((e, l # out), w')) (k w)"

text \<open>\<open>x, err := open(); if err != nil { return wrapped }; defer x.Close()\<close>.\<close>

definition with_open ::
  "'p cenv \<Rightarrow> ('p world \<Rightarrow> 'a result \<times> 'p world) \<Rightarrow> ('a \<Rightarrow> resource) \<Rightarrow> string \<Rightarrow> ('a \<Rightarrow> 'p body) \<Rightarrow> 'p body" where
  "with_open E opn res what k = attempt opn (failing what) (\<lambda>x. deferring (close_res E (res x)) (k x))"

definition with_region ::
  "'p cenv \<Rightarrow> ('p world \<Rightarrow> nat result \<times> 'p world) \<Rightarrow> string \<Rightarrow> (nat \<Rightarrow> 'p body) \<Rightarrow> 'p body" where
  "with_region E reg what k = attempt reg (failing what) (\<lambda>r. deferring (\<lambda>w. snd (region_Close E r w)) (k r))"

text \<open>A step that only returns an error, and a blocking call.\<close>

definition checked :: "('p world \<Rightarrow> goerr option \<times> 'p world) \<Rightarrow> (goerr \<Rightarrow> string) \<Rightarrow> 'p body \<Rightarrow> 'p body" where
  "checked m what k = attempt_do m (\<lambda>e. failing (what e) e) k"

definition awaiting ::
  "('p world \<Rightarrow> (goerr option \<times> 'p world) option) \<Rightarrow> (goerr \<Rightarrow> string) \<Rightarrow> 'p body \<Rightarrow> 'p body" where
  "awaiting m what k w =
     (case m w of
        None \<Rightarrow> None
      | Some (Some e, w') \<Rightarrow> failing (what e) e w'
      | Some (None, w') \<Rightarrow> k w')"

definition go_make :: "nat \<Rightarrow> nat \<Rightarrow> 'p world \<Rightarrow> 'p world" where
  "go_make g n w = w\<lparr>gomem := (gomem w)(g := replicate n 0)\<rparr>"

definition zeros :: "nat \<Rightarrow> slice" where
  "zeros n = \<lparr>sl_loc = GoVal (replicate n 0), sl_len = n\<rparr>"

definition text_bytes :: "string \<Rightarrow> byte list" where
  "text_bytes s = map of_char s"

definition text_slice :: "string \<Rightarrow> slice" where
  "text_slice s = \<lparr>sl_loc = GoVal (text_bytes s), sl_len = length s\<rparr>"

definition one_second :: int where
  "one_second = 1000000000"

section \<open>examples/rma_basic\<close>

definition rma_openEndpoint ::
  "'p cenv \<Rightarrow> godomain \<Rightarrow> fi_info \<Rightarrow> nat \<Rightarrow> string \<Rightarrow> 'p world \<Rightarrow> (endpoint \<times> compq) result \<times> 'p world" where
  "rma_openEndpoint E domain d av label =
     try_act (OpenCompletionQueue E domain None) (give_up E [] (label @ '': open completion queue''))
      (\<lambda>cq. try_act (OpenEndpoint E d domain) (give_up E [RCQ cq] (label @ '': open endpoint''))
       (\<lambda>ep. let rs = [REndpoint ep, RCQ cq] in
         try_do (BindCompletionQueue E ep cq (both_directions (hdr E))) (give_up E rs (label @ '': bind completion queue''))
          (try_do (BindAddressVector E ep av 0) (give_up E rs (label @ '': bind address vector''))
           (try_do (Endpoint_Enable E ep) (give_up E rs (label @ '': enable endpoint''))
             (\<lambda>w. (Inr (ep, cq), w))))))"

definition write_payload :: string where
  "write_payload = ''rma write payload''"

definition read_payload :: string where
  "read_payload = ''updated remote payload''"

definition rma_request :: "slice \<Rightarrow> nat \<Rightarrow> uint64 \<Rightarrow> uint64 \<Rightarrow> RMARequest" where
  "rma_request buf region addr key =
     \<lparr>rq_Buffer = buf, rq_Region = Some region, rq_Key = key, rq_Offset = 0, rq_Address = addr,
      rq_Context = None, rq_Flags = 0\<rparr>"

text \<open>The write, and what is printed of the remote buffer.\<close>

definition rma_write ::
  "nat \<Rightarrow> 'p cenv \<Rightarrow> (nat \<Rightarrow> bool) \<Rightarrow> endpoint \<Rightarrow> compq \<Rightarrow> uint64 \<Rightarrow> nat \<Rightarrow> nat \<Rightarrow> 'p body \<Rightarrow> 'p body" where
  "rma_write fuel E ex ep cq addr local remote k =
     saying (Say ''posting RMA write...'')
       (\<lambda>w. case region_Key E remote w of
          (key, w1) \<Rightarrow>
            awaiting (WriteSync fuel E ex ep (Some (rma_request nil_slice local addr key)) (Some cq) one_second)
              (\<lambda>_. ''write sync'')
              (\<lambda>w. saying (Quoted ''remote buffer now contains '' (slice_bytes (region_Bytes remote w) w)) k w) w1)"

text \<open>\<open>copy\<close> into the remote region stops at the shorter of the two; then the read.\<close>

definition rma_refill :: "nat \<Rightarrow> 'p world \<Rightarrow> 'p world" where
  "rma_refill remote w =
     (let s = region_Bytes remote w
      in Memcpy (sl_loc s) (GoVal (text_bytes read_payload)) (min (sl_len s) (length read_payload)) w)"

definition rma_read ::
  "nat \<Rightarrow> 'p cenv \<Rightarrow> (nat \<Rightarrow> bool) \<Rightarrow> nat \<Rightarrow> godomain \<Rightarrow> endpoint \<Rightarrow> compq \<Rightarrow> uint64 \<Rightarrow> nat \<Rightarrow> 'p body" where
  "rma_read fuel E ex g domain ep cq addr remote w =
     with_region E (RegisterMemory E domain (zeros (length read_payload)) (FI_MR_LOCAL (hdr E)))
       ''register read staging region''
       (\<lambda>rd w.
          saying (Say ''posting RMA read...'')
            (\<lambda>w. case region_Key E remote w of
               (key, w1) \<Rightarrow>
                 awaiting
                   (ReadSync fuel E ex ep
                      (Some (rma_request \<lparr>sl_loc = GoMem g, sl_len = length read_payload\<rparr> rd addr key)) (Some cq) one_second)
                   (\<lambda>_. ''read sync'')
                   (\<lambda>w. saying (Quoted ''read returned '' (gomem w g)) (return_err None) w) w1)
            (go_make g (length read_payload) w))
       (rma_refill remote w)"

definition rma_transfer ::
  "nat \<Rightarrow> 'p cenv \<Rightarrow> (nat \<Rightarrow> nat \<Rightarrow> bool) \<Rightarrow> nat \<Rightarrow> godomain \<Rightarrow> nat \<Rightarrow> endpoint \<Rightarrow> compq \<Rightarrow> endpoint \<Rightarrow> 'p body" where
  "rma_transfer fuel E ex g domain av ep cq target =
     attempt (RegisterAddress E target av 0) (failing ''register target address'')
      (\<lambda>addr. with_region E (RegisterMemory E domain (text_slice write_payload) (FI_MR_LOCAL (hdr E)))
                ''register local memory''
       (\<lambda>local. with_region E
                  (RegisterMemory E domain (zeros (length write_payload))
                     (FI_MR_LOCAL (hdr E) OR FI_REMOTE_READ (hdr E) OR FI_REMOTE_WRITE (hdr E)))
                  ''register remote memory''
        (\<lambda>remote. rma_write fuel E (ex 0) ep cq addr local remote
                    (rma_read fuel E (ex 1) g domain ep cq addr remote))))"

text \<open>The second deferred close of an endpoint pair runs first: the queue before its endpoint.\<close>

definition runRMAExample :: "nat \<Rightarrow> 'p cenv \<Rightarrow> (nat \<Rightarrow> nat \<Rightarrow> bool) \<Rightarrow> nat \<Rightarrow> fi_info \<Rightarrow> 'p body" where
  "runRMAExample fuel E ex g d =
     (if Desc_EndpointType (hdr E) d \<noteq> FI_EP_RDM (hdr E)
      then return_err (Some (Msg (''descriptor endpoint type '' @ show_int (Desc_EndpointType (hdr E) d) @ '' lacks RDM support'')))
      else
        with_open E (OpenFabric E d) RFabric ''open fabric''
         (\<lambda>fabric. with_open E (OpenDomain E d fabric) RDomain ''open domain''
          (\<lambda>domain. with_open E (OpenAddressVector E domain None) RAV ''open address vector''
           (\<lambda>av. attempt (rma_openEndpoint E domain d av ''initiator'') (\<lambda>e. return_err (Some e))
            (\<lambda>(ep, cq). deferring (close_res E (REndpoint ep)) (deferring (close_res E (RCQ cq))
              (attempt (rma_openEndpoint E domain d av ''target'') (\<lambda>e. return_err (Some e))
               (\<lambda>(ep2, cq2). deferring (close_res E (REndpoint ep2)) (deferring (close_res E (RCQ cq2))
                 (rma_transfer fuel E ex g domain av ep cq ep2))))))))))"

text \<open>\<open>strings.ToLower\<close>, on ASCII letters.\<close>

definition to_lower :: "string \<Rightarrow> string" where
  "to_lower s = map (\<lambda>c. if 65 \<le> (of_char c :: nat) \<and> of_char c \<le> (90 :: nat) then char_of (of_char c + (32 :: nat)) else c) s"

definition is_loopback :: "fi_info \<Rightarrow> bool" where
  "is_loopback d =
     (let fabric = to_lower (FabricName d)
      in fabric = '''' \<or> fabric = ''lo'' \<or> fabric = ''lo0'' \<or> take 8 fabric = ''loopback'')"

definition orderDescriptors :: "fi_info list \<Rightarrow> fi_info list" where
  "orderDescriptors ds = filter is_loopback ds @ filter (\<lambda>d. \<not> is_loopback d) ds"

text \<open>The discovery that is still open, if its list is not empty; RDM first, then any type.\<close>

definition discoverRMADescriptors ::
  "'p cenv \<Rightarrow> ver_api \<Rightarrow> DiscoverOption list \<Rightarrow> 'p world \<Rightarrow> info_list option result \<times> 'p world" where
  "discoverRMADescriptors E A base =
     try_act (DiscoverDescriptors E A (base @ [WithEndpointType (FI_EP_RDM (hdr E))])) (\<lambda>e w. (Inl e, w))
      (\<lambda>d w. if Descriptors d \<noteq> [] then (Inr (Some d), w)
             else
               try_act (DiscoverDescriptors E A base) (\<lambda>e w. (Inl e, w))
                (\<lambda>d w. if Descriptors d \<noteq> [] then (Inr (Some d), w)
                       else (Inr None, snd (Discovery_Close E d w)))
                (snd (Discovery_Close E d w)))"

section \<open>The main functions\<close>

datatype outcome = Returned | Fatal string "goerr option"

type_synonym 'p program = "'p world \<Rightarrow> ((outcome \<times> line list) \<times> 'p world) option"

definition fatal :: "string \<Rightarrow> goerr option \<Rightarrow> 'p program" where
  "fatal what e w = Some ((Fatal what e, []), w)"

text \<open>One attempt per descriptor, until one succeeds.\<close>

fun rma_attempts ::
  "nat \<Rightarrow> 'p cenv \<Rightarrow> ver_api \<Rightarrow> (nat \<Rightarrow> nat \<Rightarrow> nat \<Rightarrow> bool) \<Rightarrow> (nat \<Rightarrow> nat) \<Rightarrow> nat \<Rightarrow> goerr option \<Rightarrow> fi_info list \<Rightarrow> 'p program" where
  "rma_attempts fuel E A ex g i lastErr [] w =
     (case lastErr of
        Some e \<Rightarrow> fatal ''no descriptor succeeded'' (Some e) w
      | None \<Rightarrow> fatal ''no descriptor succeeded (provider did not expose usable descriptors)'' None w)"
| "rma_attempts fuel E A ex g i lastErr (d # ds) w =
     (let info = Desc_Info (hdr E) A d;
          head = Say (''attempting provider '' @ i_Provider info @ '' fabric '' @ i_Fabric info @ '' domain '' @ i_Domain info);
          more = (\<lambda>e out w. map_option (\<lambda>((r, out'), w'). ((r, head # out @ Say ''descriptor skipped'' # out'), w'))
                    (rma_attempts fuel E A ex g (Suc i) (Some e) ds w))
      in if \<not> Desc_SupportsRemoteRead (hdr E) d \<or> \<not> Desc_SupportsRemoteWrite (hdr E) d
         then more (Msg ''descriptor missing remote capability'') [] w
         else
           (case runRMAExample fuel E (ex i) (g i) d w of
              None \<Rightarrow> None
            | Some ((Some e, out), w') \<Rightarrow> more e out w'
            | Some ((None, out), w') \<Rightarrow> Some ((Returned, head # out), w')))"

definition rma_main ::
  "nat \<Rightarrow> 'p cenv \<Rightarrow> ver_api \<Rightarrow> (nat \<Rightarrow> nat \<Rightarrow> nat \<Rightarrow> bool) \<Rightarrow> (nat \<Rightarrow> nat) \<Rightarrow> string \<Rightarrow> 'p program" where
  "rma_main fuel E A ex g env w =
     (let provider = (if env = '''' then ''sockets'' else env);
          head = Say (if env = '''' then ''defaulting to provider sockets; override with LIBFABRIC_EXAMPLE_PROVIDER''
                      else ''requesting provider '' @ provider)
      in map_option (\<lambda>((r, out), w'). ((r, head # out), w'))
           (case discoverRMADescriptors E A [WithProvider provider, WithCaps (FI_RMA (hdr E))] w of
              (Inl e, w1) \<Rightarrow> fatal ''discover descriptors'' (Some e) w1
            | (Inr None, w1) \<Rightarrow> fatal (''no RMA-capable descriptors found for provider '' @ provider) None w1
            | (Inr (Some d), w1) \<Rightarrow>
                map_option (\<lambda>((r, out), w'). ((r, out), if r = Returned then snd (Discovery_Close E d w') else w'))
                  (rma_attempts fuel E A ex g 0 None (orderDescriptors (Descriptors d)) w1)))"


section \<open>examples/msg_basic and the MSG half of examples/provider_switch\<close>

text \<open>Both texts an \<open>Enable\<close> can fail with.\<close>

definition enable_text :: "goerr \<Rightarrow> string" where
  "enable_text e =
     (if errors_Is e (Sentinel ErrCapabilityUnsupported) then ''endpoint enable unsupported'' else ''enable endpoint'')"

definition msg_message :: string where
  "msg_message = ''hello from MSG endpoint''"

definition runMSGExample :: "nat \<Rightarrow> 'p cenv \<Rightarrow> (nat \<Rightarrow> nat \<Rightarrow> bool) \<Rightarrow> nat \<Rightarrow> fi_info \<Rightarrow> 'p body" where
  "runMSGExample fuel E ex g d =
     with_open E (OpenFabric E d) RFabric ''open fabric''
      (\<lambda>fabric. with_open E (OpenDomain E d fabric) RDomain ''open domain''
       (\<lambda>domain. with_open E (OpenCompletionQueue E domain None) RCQ ''open completion queue''
        (\<lambda>cq. with_open E (OpenEndpoint E d domain) REndpoint ''open endpoint''
         (\<lambda>ep. checked (BindCompletionQueue E ep cq (both_directions (hdr E))) (\<lambda>_. ''bind completion queue'')
          (checked (Endpoint_Enable E ep) enable_text
           (awaiting (SendSync fuel E (ex 0) ep (text_slice msg_message) FIAddrUnspec (Some cq) one_second) (\<lambda>_. ''send sync'')
            (\<lambda>w. awaiting (RecvSync fuel E (ex 1) ep \<lparr>sl_loc = GoMem g, sl_len = length msg_message\<rparr> (Some cq) one_second)
                   (\<lambda>_. ''recv sync'')
                   (\<lambda>w. saying (Quoted ''MSG round-trip payload: '' (gomem w g)) (return_err None) w)
                   (go_make g (length msg_message) w))))))))"

text \<open>\<open>main\<close> of \<open>msg_basic\<close>: the same steps, but every failure leaves the process on the spot.\<close>

definition fatal_on :: "('p world \<Rightarrow> 'a result \<times> 'p world) \<Rightarrow> string \<Rightarrow> ('a \<Rightarrow> 'p program) \<Rightarrow> 'p program" where
  "fatal_on m what k = attempt m (\<lambda>e. fatal what (Some e)) k"

definition fatal_wait ::
  "('p world \<Rightarrow> (goerr option \<times> 'p world) option) \<Rightarrow> string \<Rightarrow> 'p program \<Rightarrow> 'p program" where
  "fatal_wait m what k w =
     (case m w of
        None \<Rightarrow> None
      | Some (Some e, w') \<Rightarrow> fatal what (Some e) w'
      | Some (None, w') \<Rightarrow> k w')"

definition at_return :: "('p world \<Rightarrow> 'p world) \<Rightarrow> 'p program \<Rightarrow> 'p program" where
  "at_return cl k w = map_option (\<lambda>((r, out), w'). ((r, out), if r = Returned then cl w' else w')) (k w)"

definition fatal_open ::
  "'p cenv \<Rightarrow> ('p world \<Rightarrow> 'a result \<times> 'p world) \<Rightarrow> ('a \<Rightarrow> resource) \<Rightarrow> string \<Rightarrow> ('a \<Rightarrow> 'p program) \<Rightarrow> 'p program" where
  "fatal_open E opn res what k = fatal_on opn what (\<lambda>x. at_return (close_res E (res x)) (k x))"

definition is_msg :: "fi_hdr \<Rightarrow> ver_api \<Rightarrow> fi_info \<Rightarrow> bool" where
  "is_msg H A d \<longleftrightarrow> Info_SupportsMsg H (Desc_Info H A d) \<and> Desc_EndpointType H d = FI_EP_MSG H"

definition basic_message :: string where
  "basic_message = ''hello, libfabric''"

definition msg_session :: "nat \<Rightarrow> 'p cenv \<Rightarrow> (nat \<Rightarrow> nat \<Rightarrow> bool) \<Rightarrow> nat \<Rightarrow> fi_info \<Rightarrow> 'p program" where
  "msg_session fuel E ex g d =
     fatal_open E (OpenFabric E d) RFabric ''open fabric''
      (\<lambda>fabric. fatal_open E (OpenDomain E d fabric) RDomain ''open domain''
       (\<lambda>domain. fatal_open E (OpenCompletionQueue E domain None) RCQ ''open completion queue''
        (\<lambda>cq. fatal_open E (OpenEndpoint E d domain) REndpoint ''open endpoint''
         (\<lambda>ep. attempt_do (BindCompletionQueue E ep cq (both_directions (hdr E))) (\<lambda>e. fatal ''bind completion queue'' (Some e))
          (attempt_do (Endpoint_Enable E ep) (\<lambda>e. fatal (enable_text e) (Some e))
           (fatal_wait (SendSync fuel E (ex 0) ep (text_slice basic_message) FIAddrUnspec (Some cq) one_second) ''send sync''
            (\<lambda>w. fatal_wait (RecvSync fuel E (ex 1) ep \<lparr>sl_loc = GoMem g, sl_len = length basic_message\<rparr> (Some cq) one_second)
                   ''recv sync''
                   (\<lambda>w. Some ((Returned, [Quoted ''received: '' (gomem w g)]), w))
                   (go_make g (length basic_message) w))))))))"

definition msg_main :: "nat \<Rightarrow> 'p cenv \<Rightarrow> ver_api \<Rightarrow> (nat \<Rightarrow> nat \<Rightarrow> bool) \<Rightarrow> nat \<Rightarrow> 'p program" where
  "msg_main fuel E A ex g =
     fatal_on (DiscoverDescriptors E A []) ''discover descriptors''
      (\<lambda>ds. at_return (\<lambda>w. snd (Discovery_Close E ds w))
        (case find (is_msg (hdr E) A) (Descriptors ds) of
           None \<Rightarrow> fatal ''no provider found that supports MSG endpoints'' None
         | Some d \<Rightarrow> msg_session fuel E ex g d))"

section \<open>examples/provider_switch\<close>

definition switch_newEndpoint ::
  "'p cenv \<Rightarrow> godomain \<Rightarrow> fi_info \<Rightarrow> nat \<Rightarrow> 'p world \<Rightarrow> (endpoint \<times> compq) result \<times> 'p world" where
  "switch_newEndpoint E domain d av =
     try_act (OpenCompletionQueue E domain None) (give_up E [] ''open completion queue'')
      (\<lambda>cq. try_act (OpenEndpoint E d domain) (give_up E [RCQ cq] ''open endpoint'')
       (\<lambda>ep. let rs = [REndpoint ep, RCQ cq] in
         try_do (BindCompletionQueue E ep cq (both_directions (hdr E))) (give_up E rs ''bind completion queue'')
          (try_do (BindAddressVector E ep av 0) (give_up E rs ''bind address vector'')
           (try_do (Endpoint_Enable E ep) (\<lambda>e. give_up E rs (enable_text e) e)
             (\<lambda>w. (Inr (ep, cq), w))))))"

text \<open>
  The exchange runs the receive in a goroutine. A blocking call is a thread: it posts, then polls,
  one poll per step. \<open>wait_poll\<close> is one iteration of \<open>wait_loop\<close>.
\<close>

definition wait_poll :: "'p cenv \<Rightarrow> clock \<Rightarrow> compq \<Rightarrow> nat \<Rightarrow> int \<Rightarrow> nat \<Rightarrow> 'p world \<Rightarrow> goerr option option \<times> 'p world" where
  "wait_poll E K cq target timeout i w =
     (case cancelled K i of
        Some e \<Rightarrow> (Some (Some (CtxErr e)), w)
      | None \<Rightarrow>
          (case CQ_ReadContext E cq w of
             (Inl err, w1) \<Rightarrow>
               (if errors_Is err (Sentinel ErrNoCompletion)
                then if 0 < timeout \<and> expired K i \<or> timeout = 0 then Some (Some (Sentinel ErrTimeout)) else None
                else Some (Some err), w1)
           | (Inr evt, w1) \<Rightarrow>
               (case CompletionEvent_Resolve (Some evt) w1 of
                  (Inl err, w2) \<Rightarrow> (if errors_Is err (Sentinel ErrContextUnknown) then None else Some (Some err), w2)
                | (Inr c, w2) \<Rightarrow> (if c = target then Some None else None, w2))))"

datatype thread = Posting | Polling nat nat | Finished "goerr option"

definition thread_step ::
  "'p cenv \<Rightarrow> clock \<Rightarrow> ('p world \<Rightarrow> nat option result \<times> 'p world) \<Rightarrow> compq \<Rightarrow> int \<Rightarrow> thread \<Rightarrow> 'p world \<Rightarrow> thread \<times> 'p world" where
  "thread_step E K pst cq timeout t w =
     (case t of
        Posting \<Rightarrow>
          (case pst w of
             (Inl e, w1) \<Rightarrow> (Finished (Some e), w1)
           | (Inr None, w1) \<Rightarrow> (Finished None, w1)
           | (Inr (Some c), w1) \<Rightarrow>
               (if handles w1 (cq_ref cq) = None then Finished (Some (ErrInvalidHandle ''completion queue'')) else Polling c 0, w1))
      | Polling c i \<Rightarrow>
          (case wait_poll E K cq c timeout i w of
             (Some r, w1) \<Rightarrow> (Finished r, w1)
           | (None, w1) \<Rightarrow> (Polling c (Suc i), w1))
      | Finished r \<Rightarrow> (Finished r, w))"


text \<open>
  What the main goroutine of the exchange returns: its own error at once, without waiting for the
  receiver, else the receiver's.
\<close>

definition deadline_text :: "string \<Rightarrow> goerr \<Rightarrow> string" where
  "deadline_text what e = (if errors_Is e (CtxErr DeadlineExceeded) then what @ '' deadline'' else what)"

definition joined :: "thread \<Rightarrow> thread \<Rightarrow> goerr option option" where
  "joined snd_t rcv_t =
     (case snd_t of
        Finished (Some e) \<Rightarrow> Some (Some (Wrap (deadline_text ''rdm send sync'' e) e))
      | Finished None \<Rightarrow>
          (case rcv_t of
             Finished (Some e) \<Rightarrow> Some (Some (Wrap (deadline_text ''rdm recv sync'' e) e))
           | Finished None \<Rightarrow> Some None
           | _ \<Rightarrow> None)
      | _ \<Rightarrow> None)"

text \<open>\<open>sched\<close> says which of the two runs next, \<open>True\<close> for the main goroutine.\<close>

fun exchange ::
  "(thread \<Rightarrow> 'p world \<Rightarrow> thread \<times> 'p world) \<Rightarrow> (thread \<Rightarrow> 'p world \<Rightarrow> thread \<times> 'p world) \<Rightarrow> bool list \<Rightarrow> thread \<Rightarrow> thread \<Rightarrow>
   'p world \<Rightarrow> (goerr option \<times> 'p world) option" where
  "exchange sender receiver [] s r w = map_option (\<lambda>e. (e, w)) (joined s r)"
| "exchange sender receiver (b # sched) s r w =
     (case joined s r of
        Some e \<Rightarrow> Some (e, w)
      | None \<Rightarrow>
          if b then (case sender s w of (s', w') \<Rightarrow> exchange sender receiver sched s' r w')
          else (case receiver r w of (r', w') \<Rightarrow> exchange sender receiver sched s r' w'))"

definition rdm_message :: string where
  "rdm_message = ''hello from RDM endpoint''"

definition send_thread :: "'p cenv \<Rightarrow> clock \<Rightarrow> endpoint \<Rightarrow> uint64 \<Rightarrow> compq \<Rightarrow> thread \<Rightarrow> 'p world \<Rightarrow> thread \<times> 'p world" where
  "send_thread E K ep dest cq =
     thread_step E K
       (PostSend E ep (Some \<lparr>sr_Buffer = text_slice rdm_message, sr_Dest = dest, sr_Flags = 0, sr_Context = None, sr_Region = None\<rparr>))
       cq one_second"

definition recv_thread :: "'p cenv \<Rightarrow> clock \<Rightarrow> endpoint \<Rightarrow> nat \<Rightarrow> compq \<Rightarrow> thread \<Rightarrow> 'p world \<Rightarrow> thread \<times> 'p world" where
  "recv_thread E K ep g cq =
     thread_step E K
       (PostRecv E ep (Some \<lparr>rr_Buffer = \<lparr>sl_loc = GoMem g, sl_len = length rdm_message\<rparr>, rr_Source = 0, rr_Flags = 0,
          rr_Context = None, rr_Region = None\<rparr>))
       cq one_second"

definition runRDMExample :: "bool list \<Rightarrow> 'p cenv \<Rightarrow> clock \<Rightarrow> clock \<Rightarrow> nat \<Rightarrow> fi_info \<Rightarrow> 'p body" where
  "runRDMExample sched E Ks Kr g d =
     with_open E (OpenFabric E d) RFabric ''open fabric''
      (\<lambda>fabric. with_open E (OpenDomain E d fabric) RDomain ''open domain''
       (\<lambda>domain. with_open E (OpenAddressVector E domain (Some (map_av_attr (hdr E)))) RAV ''open address vector''
        (\<lambda>av. attempt (switch_newEndpoint E domain d av) (\<lambda>e. return_err (Some e))
         (\<lambda>(ep, cq). deferring (fold (close_res E) [REndpoint ep, RCQ cq])
          (attempt (switch_newEndpoint E domain d av) (\<lambda>e. return_err (Some e))
           (\<lambda>(ep2, cq2). deferring (fold (close_res E) [REndpoint ep2, RCQ cq2])
            (attempt (RegisterAddress E ep av 0) (failing ''register endpoint A address'')
             (\<lambda>addrA. attempt (RegisterAddress E ep2 av 0) (failing ''register endpoint B address'')
              (\<lambda>addrB. saying (Addresses addrA addrB)
               (\<lambda>w. case exchange (send_thread E Ks ep addrB cq) (recv_thread E Kr ep2 g cq2) sched Posting Posting
                          (go_make g (length rdm_message) w) of
                  None \<Rightarrow> None
                | Some (Some e, w') \<Rightarrow> return_err (Some e) w'
                | Some (None, w') \<Rightarrow> saying (Quoted ''RDM round-trip payload: '' (gomem w' g)) (return_err None) w'))))))))))"

text \<open>The first descriptor with RDM, and the first other one that is a message endpoint.\<close>

fun pick_descriptors ::
  "fi_hdr \<Rightarrow> ver_api \<Rightarrow> fi_info list \<Rightarrow> fi_info option \<times> fi_info option \<Rightarrow> fi_info option \<times> fi_info option" where
  "pick_descriptors H A [] (rdm, msg) = (rdm, msg)"
| "pick_descriptors H A (d # ds) (rdm, msg) =
     (if rdm = None \<and> Info_SupportsRDM H (Desc_Info H A d) then pick_descriptors H A ds (Some d, msg)
      else if msg = None \<and> is_msg H A d then pick_descriptors H A ds (rdm, Some d)
      else pick_descriptors H A ds (rdm, msg))"

definition run_or_fatal :: "string \<Rightarrow> string \<Rightarrow> 'p body \<Rightarrow> 'p program" where
  "run_or_fatal intro what k w =
     map_option
       (\<lambda>((e, out), w'). ((case e of None \<Rightarrow> Returned | Some x \<Rightarrow> Fatal what (Some x), Say intro # out), w')) (k w)"

definition switch_main ::
  "nat \<Rightarrow> bool list \<Rightarrow> 'p cenv \<Rightarrow> ver_api \<Rightarrow> clock \<Rightarrow> clock \<Rightarrow> (nat \<Rightarrow> nat \<Rightarrow> bool) \<Rightarrow> nat \<Rightarrow> 'p program" where
  "switch_main fuel sched E A Ks Kr ex g =
     fatal_on (DiscoverDescriptors E A []) ''discover descriptors''
      (\<lambda>ds. at_return (\<lambda>w. snd (Discovery_Close E ds w))
        (case pick_descriptors (hdr E) A (Descriptors ds) (None, None) of
           (Some d, _) \<Rightarrow>
             run_or_fatal (''using RDM provider: '' @ FormatInfo (hdr E) (Desc_Info (hdr E) A d)) ''rdm example failed''
               (runRDMExample sched E Ks Kr g d)
         | (None, Some d) \<Rightarrow>
             run_or_fatal (''using MSG provider: '' @ FormatInfo (hdr E) (Desc_Info (hdr E) A d)) ''msg example failed''
               (runMSGExample fuel E ex g d)
         | (None, None) \<Rightarrow> fatal ''no MSG or RDM capable providers available'' None))"

end
