(* ===== verification/Example_Runs.thy ===== *)
theory Example_Runs
  imports Examples
begin

text \<open>
  The steps of the example programs: which of them open or close something and which do not, and
  that a blocking call run as a thread is the blocking call.
\<close>

section \<open>What is left behind\<close>

text \<open>
  The deregistrations of region \<open>p\<close> that libfabric refused; such a region is still held, and the
  program has no reference to it any more. \<open>owed\<close> leaves them out of the ledger.
\<close>

fun mr_close :: "call \<Rightarrow> bool" where
  "mr_close (C_mr_close _) = True"
| "mr_close _ = False"

definition refused :: "'p cenv \<Rightarrow> 'p world \<Rightarrow> ptr \<Rightarrow> nat" where
  "refused E w p =
     length (filter (\<lambda>e. fst e = C_mr_close p \<and> ErrorFromStatus (hdr E) (r_ret (snd e)) '''' \<noteq> None) (calls w))"

definition owed :: "'p cenv \<Rightarrow> 'p world \<Rightarrow> kind \<times> ptr \<Rightarrow> int" where
  "owed E w h = ledger E w h - (if fst h = KMR then int (refused E w (snd h)) else 0)"

text \<open>
  \<open>tidy\<close>: older wrappers and regions are as they were, and the program owes nothing new.
  \<open>plain\<close>: a step that touches no wrapper and no region at all.
\<close>

definition tidy :: "'p cenv \<Rightarrow> 'p world \<Rightarrow> 'p world \<Rightarrow> bool" where
  "tidy E w w' \<longleftrightarrow>
     next_id w \<le> next_id w' \<and> (\<forall>j < next_id w. handles w' j = handles w j \<and> regions w' j = regions w j) \<and>
     owed E w' = owed E w"

definition plain :: "'p cenv \<Rightarrow> 'p world \<Rightarrow> 'p world \<Rightarrow> bool" where
  "plain E w w' \<longleftrightarrow>
     next_id w \<le> next_id w' \<and> handles w' = handles w \<and> regions w' = regions w \<and>
     ledger E w' = ledger E w \<and> refused E w' = refused E w"

lemma tidy_refl [simp]: "tidy E w w"
  by (simp add: tidy_def)

lemma tidy_trans: "tidy E u v \<Longrightarrow> tidy E v w \<Longrightarrow> tidy E u w"
  by (fastforce simp: tidy_def)

lemma plain_refl [simp]: "plain E w w"
  by (simp add: plain_def)

lemma plain_trans: "plain E u v \<Longrightarrow> plain E v w \<Longrightarrow> plain E u w"
  by (simp add: plain_def)

lemma plain_tidy: "plain E w w' \<Longrightarrow> tidy E w w'"
  by (simp add: plain_def tidy_def owed_def fun_eq_iff)

section \<open>No deregistration in sight\<close>

lemma refused_cong: "calls w = calls w' \<Longrightarrow> refused E w = refused E w'"
  by (simp add: refused_def fun_eq_iff)

lemma refused_update [simp]:
  "refused E (w\<lparr>heap := h\<rparr>) = refused E w"
  "refused E (w\<lparr>fault := b\<rparr>) = refused E w"
  "refused E (w\<lparr>native := q\<rparr>) = refused E w"
  "refused E (w\<lparr>gomem := gm\<rparr>) = refused E w"
  "refused E (w\<lparr>handles := hs\<rparr>) = refused E w"
  "refused E (w\<lparr>next_id := n\<rparr>) = refused E w"
  "refused E (w\<lparr>registry := r\<rparr>) = refused E w"
  "refused E (w\<lparr>ctxs := cs\<rparr>) = refused E w"
  "refused E (w\<lparr>regions := rs\<rparr>) = refused E w"
  "refused E (w\<lparr>ran := l\<rparr>) = refused E w"
  by (simp_all add: refused_def fun_eq_iff)

lemma refused_memory [simp]:
  "refused E (snd (c_malloc E' own n w)) = refused E w"
  "refused E (c_free p w) = refused E w"
  "refused E (Memcpy d s n w) = refused E w"
  "refused E (snd (GoBytes p n w)) = refused E w"
  by (simp_all add: refused_def fun_eq_iff)

lemma refused_call [simp]:
  "\<not> mr_close c \<Longrightarrow> refused E (snd (ccall E c w)) = refused E w"
  "\<not> mr_close c \<Longrightarrow> refused E (snd (status_call E c op w)) = refused E w"
  "\<not> mr_close c \<Longrightarrow> refused E (snd (open_call E c op w)) = refused E w"
  "\<not> mr_close c \<Longrightarrow> refused E (snd (guarded E p c op w)) = refused E w"
proof -
  assume c: "\<not> mr_close c"
  then show call: "refused E (snd (ccall E c w)) = refused E w" for w
    by (auto simp: refused_def fun_eq_iff)
  show st: "refused E (snd (status_call E c op w)) = refused E w"
    by (simp add: status_call_def split_beta call)
  show "refused E (snd (open_call E c op w)) = refused E w"
    by (simp add: open_call_def split_beta call split: option.split)
  show "refused E (snd (guarded E p c op w)) = refused E w"
    by (simp add: guarded_def st)
qed


section \<open>Plain steps\<close>

named_theorems plain_steps \<open>operations that touch no wrapper and no region\<close>

lemma plain_then: "plain E u v \<Longrightarrow> plain E v (snd (m v)) \<Longrightarrow> plain E u (snd (m v))"
  by (rule plain_trans)

lemma plain_call [plain_steps]:
  "neutral c \<Longrightarrow> \<not> mr_close c \<Longrightarrow> plain E w (snd (ccall E c w))"
  "neutral c \<Longrightarrow> \<not> mr_close c \<Longrightarrow> plain E w (snd (status_call E c op w))"
  "neutral c \<Longrightarrow> \<not> mr_close c \<Longrightarrow> plain E w (snd (guarded E p c op w))"
  by (simp_all add: plain_def guarded_def)

lemma plain_with_handle [plain_steps]:
  "(\<And>p. plain E w (snd (k p w))) \<Longrightarrow> plain E w (snd (with_handle i mk e k w))"
  by (simp add: with_handle_def split: option.split)

lemma plain_try_act:
  assumes "plain E w (snd (m w))"
    and "\<And>e v. plain E w v \<Longrightarrow> plain E w (snd (f e v))"
    and "\<And>x v. plain E w v \<Longrightarrow> plain E w (snd (k x v))"
  shows "plain E w (snd (try_act m f k w))"
proof (rule try_act_rule)
  show "plain E w (snd (f e v))" if "m w = (Inl e, v)" for e v
    using assms(1,2) that by simp
  show "plain E w (snd (k x v))" if "m w = (Inr x, v)" for x v
    using assms(1,3) that by simp
qed

lemma plain_memory [plain_steps]:
  "plain E w (snd (c_malloc E' own n w))" "plain E w (c_free p w)" "plain E w (Memcpy d s n w)"
  "plain E w (go_make g n w)" "plain E w (snd (GoBytes p n w))"
  by (simp_all add: plain_def go_make_def)

lemma plain_controls [plain_steps]:
  "plain E w (snd (BindCompletionQueue E e cq fl w))"
  "plain E w (snd (BindAddressVector E e av fl w))"
  "plain E w (snd (Endpoint_Enable E e w))"
  by (auto simp: BindCompletionQueue_def BindAddressVector_def Endpoint_Enable_def capi_BindCompletionQueue_def
      capi_BindAddressVector_def capi_Bind_def capi_Enable_def intro!: plain_steps)

lemma refused_name_loop [simp]: "refused E (snd (name_loop E k p what a sz w)) = refused E w"
  by (induction a arbitrary: sz w) (simp_all add: split_beta)

lemma plain_Name [plain_steps]: "plain E w (snd (Endpoint_Name E e w))"
  by (simp add: Endpoint_Name_def capi_Endpoint_Name_def plain_def with_handle_def split: option.split)

lemma plain_InsertRaw [plain_steps]: "plain E w (snd (InsertRaw E a addr fl w))"
  by (simp add: InsertRaw_def with_handle_def plain_def capi_AV_InsertRaw_def split_beta AllocBytes_def FreeBytes_def
      split: option.split)

lemma plain_RegisterAddress [plain_steps]: "plain E w (snd (RegisterAddress E e av fl w))"
  unfolding RegisterAddress_def
  by (intro plain_with_handle plain_try_act) (auto intro: plain_steps plain_trans)

lemma plain_region_Key [plain_steps]: "plain E w (snd (region_Key E r w))"
  by (auto simp: region_Key_def capi_MR_Key_def split_beta split: option.split intro: plain_steps)

section \<open>Posts and waits are plain\<close>

lemma plain_contexts [plain_steps]:
  "plain E w (Release c w)" "plain E w (setCopyBack c s w)" "plain E w (snd (resolveCompletion p w))"
  by (simp_all add: plain_def Release_def release_ctx_def setCopyBack_def upd_ctx_def resolveCompletion_def Let_def
      FreeBytes_def CompletionContextFree_def split: option.split)

lemma plain_ensure [plain_steps]:
  "plain E w (snd (ensureContext E c w))" "plain E w (snd (ensureBuffer E c' n w))"
  by (simp_all add: plain_def ensureContext_def NewCompletionContext_def CompletionContextAlloc_def ensureBuffer_def
      AllocBytes_def FreeBytes_def upd_ctx_def Let_def split_beta split: option.split)


lemma plain_native [plain_steps]:
  "plain E w (snd (capi_Send E p b n d a c w))"
  "plain E w (snd (capi_Recv E p b n d a c w))"
  "plain E w (snd (capi_Read E p b n d a k off c w))"
  "plain E w (snd (capi_Write E p b n d a k off c w))"
  "plain E w (snd (capi_Inject E p bs a w))"
  by (auto simp: capi_Send_def capi_Recv_def capi_Read_def capi_Write_def capi_Inject_def intro: plain_steps)

lemma plain_region_Descriptor [plain_steps]: "plain E w (snd (region_Descriptor E r w))"
  by (auto simp: region_Descriptor_def capi_MR_Descriptor_def split_beta split: option.split intro: plain_steps)


text \<open>An operation that is plain wherever it starts.\<close>

definition plainly :: "'p cenv \<Rightarrow> ('p world \<Rightarrow> 'a \<times> 'p world) \<Rightarrow> bool" where
  "plainly E m \<longleftrightarrow> (\<forall>w. plain E w (snd (m w)))"

lemma plainlyI: "(\<And>w. plain E w (snd (m w))) \<Longrightarrow> plainly E m"
  by (simp add: plainly_def)

lemma plainlyD: "plainly E m \<Longrightarrow> plain E u w \<Longrightarrow> plain E u (snd (m w))"
  unfolding plainly_def using plain_trans by blast

lemma plainly_return [simp]: "plainly E (\<lambda>w. (x, w))"
  by (simp add: plainly_def)

lemma plainly_pre: "(\<And>w. plain E w (g w)) \<Longrightarrow> plainly E m \<Longrightarrow> plainly E (\<lambda>w. m (g w))"
  unfolding plainly_def using plain_trans by blast

lemma plainly_give_up: "(\<And>w. plain E w (g w)) \<Longrightarrow> plainly E (\<lambda>w. (x, g w))"
  by (simp add: plainly_def)

lemma plainly_with_handle: "(\<And>p. plainly E (k p)) \<Longrightarrow> plainly E (with_handle i mk e k)"
  by (auto simp: plainly_def intro: plain_with_handle)

lemma plainly_try_act:
  "plainly E m \<Longrightarrow> (\<And>e. plainly E (f e)) \<Longrightarrow> (\<And>x. plainly E (k x)) \<Longrightarrow> plainly E (try_act m f k)"
  by (rule plainlyI, rule plain_try_act) (auto intro: plainlyD)

lemma plainly_finish:
  assumes "\<And>v. plainly E (m v)" and "\<And>w. plain E w (g w)"
  shows "plainly E (\<lambda>w. finish_post Release c (m w) (g w))"
proof (rule plainlyI)
  fix w
  obtain e v where m: "m w (g w) = (e, v)" by fastforce
  with plainlyD [OF assms(1) assms(2)] have "plain E w v" by (metis snd_conv)
  with m show "plain E w (snd (finish_post Release c (m w) (g w)))"
    by (auto simp: finish_post_def split: option.split intro: plain_trans plain_contexts)
qed

lemma plainly_stage:
  assumes "\<And>b. plainly E (k b)"
  shows "plainly E (stage Release c (ensureBuffer E c n) k)"
  unfolding stage_def
  by (intro plainly_try_act plainly_give_up assms) (simp_all add: plainly_def plain_ensure plain_contexts)

lemma plainly_use_region:
  assumes "\<And>b d n. plainly E (k b d n)"
  shows "plainly E (use_region E c r len t k)"
proof (rule plainlyI)
  fix w
  obtain d v where d: "region_Descriptor E r w = (d, v)" by fastforce
  with plain_region_Descriptor [of E w r] have "plain E w v" by simp
  with d show "plain E w (snd (use_region E c r len t k w))"
    by (auto simp: use_region_def Let_def split: option.split intro: plainlyD assms plain_contexts plain_trans)
qed

lemma plainly_native:
  "plainly E (capi_Send E p b n d a c)" "plainly E (capi_Recv E p b n d a c)"
  "plainly E (capi_Read E p b n d a k off c)" "plainly E (capi_Write E p b n d a k off c)"
  "plainly E (ensureContext E x)"
  by (simp_all add: plainly_def plain_native plain_ensure)

lemma plainly_request:
  "(\<And>rq. plainly E (k rq)) \<Longrightarrow> plainly E (\<lambda>w. case req of None \<Rightarrow> (x, w) | Some rq \<Rightarrow> k rq w)"
  by (cases req) simp_all

lemma plainly_region_case:
  "(\<And>r. req = Some r \<Longrightarrow> plainly E (k r)) \<Longrightarrow> plainly E m \<Longrightarrow>
   plainly E (\<lambda>w. case req of Some r \<Rightarrow> k r w | None \<Rightarrow> m w)"
  by (cases req) simp_all

lemma plainly_if: "plainly E m \<Longrightarrow> plainly E m' \<Longrightarrow> plainly E (\<lambda>w. if b then m w else m' w)"
  by (cases b) simp_all

lemma plain_copy_back: "plain E w (if b then setCopyBack c s w else w)"
  by (simp add: plain_contexts)

lemmas plainly_post = plainly_with_handle plainly_request plainly_region_case plainly_use_region plainly_if
  plainly_stage plainly_finish plainly_native plainly_give_up plainly_return plain_contexts plain_copy_back plain_memory
  plain_refl plainly_try_act

lemma plainly_Read: "plainly E (PostRead E ep req)"
  unfolding PostRead_def Let_def by (intro plainly_post)

lemma plainly_Write: "plainly E (PostWrite E ep req)"
  unfolding PostWrite_def Let_def by (intro plainly_post)

lemma plainly_Recv: "plainly E (PostRecv E ep req)"
  unfolding PostRecv_def Let_def by (intro plainly_post)

lemma plainly_inject: "plainly E (try_inject E ep p rq)"
  by (simp add: plainly_def try_inject_def split_beta plain_native)

lemma plainly_bool_case:
  assumes "plainly E m" and "plainly E k" and "plainly E k'"
  shows "plainly E (\<lambda>w. case m w of (True, v) \<Rightarrow> k v | (False, v) \<Rightarrow> k' v)"
proof (rule plainlyI)
  fix w
  obtain b v where m: "m w = (b, v)" by fastforce
  with plainlyD [OF assms(1) plain_refl, of w] have "plain E w v" by simp
  with m assms(2,3) show "plain E w (snd (case m w of (True, v) \<Rightarrow> k v | (False, v) \<Rightarrow> k' v))"
    by (auto split: bool.split intro: plainlyD)
qed

lemma plainly_Send: "plainly E (PostSend E ep req)"
  unfolding PostSend_def Let_def
  apply (intro plainly_with_handle plainly_request plainly_try_act plainly_native plainly_return)
  apply (rule plainly_bool_case [OF plainly_inject])
   apply (intro plainly_post)+
  done


lemma refused_ReadContext [simp]: "refused E (snd (capi_ReadContext E p f w)) = refused E w"
  by (simp add: capi_ReadContext_def split_beta)

lemma plain_ReadContext [plain_steps]: "plain E w (snd (CQ_ReadContext E cq w))"
  by (auto simp: CQ_ReadContext_def with_handle_def capi_ReadContext_def split_beta split: option.split intro: plain_steps)

lemma plain_polls: "polls E cq target w w' \<Longrightarrow> plain E w w'"
  unfolding polls_def by (metis plain_ReadContext plain_contexts(3) plain_trans snd_conv)

lemma plain_wait_loop: "wait_loop fuel E K cq target timeout want i w = Some (r, w') \<Longrightarrow> plain E w w'"
proof (induction fuel arbitrary: i w)
  case (Suc fuel)
  from Suc.prems show ?case
  proof (cases rule: wait_loop_cases)
    case (again w2)
    then show ?thesis using plain_trans [OF plain_polls Suc.IH] by blast
  qed (metis plain_refl plain_ReadContext plain_contexts(3) plain_trans snd_conv)+
qed simp

lemma plain_wait: "waitForContext fuel E K cq target timeout w = Some (e, w') \<Longrightarrow> plain E w w'"
  by (auto simp: waitForContext_def waitForCompletion_def split: option.splits if_splits dest: plain_wait_loop)

lemma plain_sync:
  assumes "plainly E pst" and "sync fuel E K pst cq timeout w = Some (e, w')"
  shows "plain E w w'"
proof (cases cq)
  case (Some q)
  obtain r v where p: "pst w = (r, v)" by fastforce
  with plainlyD [OF assms(1) plain_refl, of w] have "plain E w v" by simp
  with assms(2) Some p show ?thesis
    by (auto simp: sync_def split: sum.splits intro: plain_trans dest: plain_wait)
qed (use assms in \<open>simp add: sync_def\<close>)

lemma plain_blocking:
  "SendSync fuel E ex ep buf dest cq t w = Some (e, w') \<Longrightarrow> plain E w w'"
  "RecvSync fuel E ex ep buf cq t w = Some (e, w') \<Longrightarrow> plain E w w'"
  "ReadSync fuel E ex ep req cq t w = Some (e, w') \<Longrightarrow> plain E w w'"
  "WriteSync fuel E ex ep req cq t w = Some (e, w') \<Longrightarrow> plain E w w'"
  unfolding SendSync_def RecvSync_def ReadSync_def WriteSync_def
  by (erule plain_sync [rotated], rule plainly_Send plainly_Recv plainly_Read plainly_Write)+

lemma plain_poll: "plain E w (snd (wait_poll E K cq target timeout i w))"
  by (auto simp: wait_poll_def CompletionEvent_Resolve_def split_beta split: option.split sum.split
      intro: plain_steps plain_trans [OF plain_ReadContext])

lemma plain_thread:
  assumes "plainly E pst"
  shows "plain E w (snd (thread_step E K pst cq timeout t w))"
proof (cases t)
  case Posting
  with plainlyD [OF assms plain_refl, of w] show ?thesis
    by (auto simp: thread_step_def split: prod.split sum.split option.split)
next
  case (Polling c i)
  with plain_poll [of E w K cq c timeout i] show ?thesis
    by (auto simp: thread_step_def split: prod.split option.split)
qed (simp add: thread_step_def)

lemma plain_exchange:
  assumes "\<And>t v. plain E v (snd (s t v))" and "\<And>t v. plain E v (snd (r t v))"
    and "exchange s r sched ts tr w = Some (e, w')"
  shows "plain E w w'"
  using assms(3)
proof (induction sched arbitrary: ts tr w)
  case (Cons b sched)
  show ?case
  proof (cases "joined ts tr")
    case None
    obtain ts' v where s: "s ts w = (ts', v)" by fastforce
    obtain tr' u where r: "r tr w = (tr', u)" by fastforce
    from assms(1) [of w ts] assms(2) [of w tr] s r have "plain E w v" "plain E w u" by simp_all
    with None s r Cons show ?thesis by (cases b) (auto intro: plain_trans)
  qed (use Cons.prems in simp)
qed simp

text \<open>The exchange in the example, whose two threads are these.\<close>

lemma plain_threads:
  "plain E w (snd (send_thread E K ep dest cq t w))" "plain E w (snd (recv_thread E K ep g cq t w))"
  by (simp_all add: send_thread_def recv_thread_def plain_thread plainly_Send plainly_Recv)


text \<open>A thread alone does what the blocking call does.\<close>

definition only_error :: "(CompletionEvent option result \<times> 'p world) option \<Rightarrow> (goerr option \<times> 'p world) option" where
  "only_error = map_option (\<lambda>(r, w). (case r of Inl e \<Rightarrow> Some e | Inr _ \<Rightarrow> None, w))"

lemma wait_loop_poll:
  "only_error (wait_loop (Suc fuel) E K cq target timeout want i w) =
     (case wait_poll E K cq target timeout i w of
        (Some e, w') \<Rightarrow> Some (e, w')
      | (None, w') \<Rightarrow> only_error (wait_loop fuel E K cq target timeout want (Suc i) w'))"
  by (auto simp: only_error_def wait_poll_def split: option.split prod.split sum.split)

lemma thread_polls:
  "only_error (wait_loop fuel E K cq target timeout want i w) = Some (e, w') \<Longrightarrow>
     \<exists>n. ((\<lambda>(t, w). thread_step E K pst cq timeout t w) ^^ n) (Polling target i, w) = (Finished e, w')"
proof (induction fuel arbitrary: i w)
  case (Suc fuel)
  obtain r v where p: "wait_poll E K cq target timeout i w = (r, v)" by fastforce
  let ?f = "\<lambda>(t, w). thread_step E K pst cq timeout t w"
  have f: "(?f ^^ Suc n) s = (?f ^^ n) (?f s)" for n s
    by (simp add: funpow_swap1)
  show ?case
  proof (cases r)
    case None
    with Suc p wait_loop_poll [of fuel E K cq target timeout want i w]
    obtain n where "(?f ^^ n) (Polling target (Suc i), v) = (Finished e, w')"
      by (metis (mono_tags, lifting) case_prod_conv option.simps(4))
    with f [of n "(Polling target i, w)"] p None show ?thesis
      by (intro exI [of _ "Suc n"]) (simp add: thread_step_def)
  next
    case (Some x)
    with Suc.prems p wait_loop_poll [of fuel E K cq target timeout want i w] show ?thesis
      by (intro exI [of _ 1]) (simp add: thread_step_def)
  qed
qed (simp add: only_error_def)

lemma thread_alone:
  assumes "sync fuel E K pst (Some cq) timeout w = Some (e, w')"
  shows "\<exists>n. ((\<lambda>(t, w). thread_step E K pst cq timeout t w) ^^ n) (Posting, w) = (Finished e, w')"
proof -
  let ?f = "\<lambda>(t, w). thread_step E K pst cq timeout t w"
  obtain r v where p: "pst w = (r, v)" by fastforce
  have one: "?f (Posting, w) = (Finished e, w') \<Longrightarrow> ?thesis"
    by (intro exI [of _ 1]) simp
  show ?thesis
  proof (cases r)
    case (Inl x)
    with assms p show ?thesis by (intro one) (simp add: sync_def thread_step_def)
  next
    case (Inr t)
    show ?thesis
    proof (cases t)
      case None
      with assms p Inr show ?thesis
        by (intro one) (auto simp: sync_def waitForContext_def waitForCompletion_def thread_step_def)
    next
      case (Some c)
      show ?thesis
      proof (cases "handles v (cq_ref cq)")
        case None
        with assms p Inr Some show ?thesis
          by (intro one) (auto simp: sync_def waitForContext_def waitForCompletion_def thread_step_def)
      next
        case open_cq: (Some h)
        with assms p Inr Some
        have "only_error (wait_loop fuel E K cq c timeout False 0 v) = Some (e, w')"
          by (simp add: sync_def waitForContext_def waitForCompletion_def only_error_def)
        then obtain n where "(?f ^^ n) (Polling c 0, v) = (Finished e, w')" using thread_polls by blast
        moreover have "?f (Posting, w) = (Polling c 0, v)" using p Inr Some open_cq by (simp add: thread_step_def)
        ultimately have "(?f ^^ Suc n) (Posting, w) = (Finished e, w')"
          unfolding funpow_Suc_right o_def by simp
        then show ?thesis by blast
      qed
    qed
  qed
qed

section \<open>Opening for the length of a body\<close>

text \<open>The open functions touch no region; \<open>opener\<close> says the rest.\<close>

locale pure_opener = opener +
  assumes kept: "regions (snd (opn w)) = regions w" "refused E (snd (opn w)) = refused E w"
begin

lemma opened:
  assumes "opn w = (Inr x, v)"
  shows "owns E w [res x] v" and "regions v = regions w" and "refused E v = refused E w"
  using acquired [OF owns_Nil assms] kept [of w] assms by simp_all

lemma not_opened: "opn w = (Inl e, v) \<Longrightarrow> plain E w v"
  using fails [of w e v] kept [of w] by (simp add: quiet_def plain_def)

end

lemma refused_wrap [simp]:
  "(\<And>w. refused E (snd (m w)) = refused E w) \<Longrightarrow> refused E (snd (wrap_open k m w)) = refused E w"
  "(\<And>w. regions (snd (m w)) = regions w) \<Longrightarrow> regions (snd (wrap_open k m w)) = regions w"
  by (simp_all add: wrap_open_def new_wrapper_def split_beta split: sum.split)

lemma kept_native [simp]:
  "refused E (snd (capi_OpenFabric E d w)) = refused E w" "regions (snd (capi_OpenFabric E d w)) = regions w"
  "refused E (snd (capi_OpenDomain E p d w)) = refused E w" "regions (snd (capi_OpenDomain E p d w)) = regions w"
  "refused E (snd (capi_OpenEndpoint E p d w)) = refused E w" "regions (snd (capi_OpenEndpoint E p d w)) = regions w"
  "refused E (snd (capi_OpenCompletionQueue E p cqa w)) = refused E w"
  "regions (snd (capi_OpenCompletionQueue E p cqa w)) = regions w"
  "refused E (snd (capi_OpenAV E p ava w)) = refused E w" "regions (snd (capi_OpenAV E p ava w)) = regions w"
  by (simp_all add: capi_OpenFabric_def capi_OpenDomain_def capi_OpenEndpoint_def capi_OpenCompletionQueue_def
      capi_OpenAV_def split: option.split)

lemma kept_try [simp]:
  "regions (snd (m w)) = regions w \<Longrightarrow>
   regions (snd (try_act m (\<lambda>e w. (Inl e, w)) (\<lambda>i w. (Inr (mk i), w)) w)) = regions w"
  "refused E (snd (m w)) = refused E w \<Longrightarrow>
   refused E (snd (try_act m (\<lambda>e w. (Inl e, w)) (\<lambda>i w. (Inr (mk i), w)) w)) = refused E w"
  by (simp_all add: try_act_def split_beta split: sum.split)

interpretation pure_fabrics: pure_opener E "OpenFabric E d" RFabric for E d
  by unfold_locales (simp_all add: OpenFabric_def)

interpretation pure_domains: pure_opener E "OpenDomain E d f" RDomain for E d f
  by unfold_locales (simp_all add: OpenDomain_def with_handle_def split: option.split)

interpretation pure_compqs: pure_opener E "OpenCompletionQueue E d attr" RCQ for E d attr
  by unfold_locales (simp_all add: OpenCompletionQueue_def with_handle_def split: option.split)

interpretation pure_endpoints: pure_opener E "OpenEndpoint E i d" REndpoint for E i d
  by unfold_locales (simp_all add: OpenEndpoint_def with_handle_def split: option.split)

interpretation pure_vectors: pure_opener E "OpenAddressVector E d attr" RAV for E d attr
  by unfold_locales (simp_all add: OpenAddressVector_def with_handle_def split: option.split)

end
