(* ===== verification/Example_Release.thy ===== *)
theory Example_Release
  imports Example_Runs
begin

text \<open>
  The example programs close what they opened, on every path that returns.
\<close>

section \<open>Closing at the end of a body\<close>

lemma refused_close_cell [simp]: "refused E (close_cell E i w) = refused E w"
  by (auto simp: close_cell_def close_wrapper_def close_native_def split_beta split: option.split)

lemma close_cells_frame [simp]:
  "regions (fold (close_cell E) is w) = regions w" "refused E (fold (close_cell E) is w) = refused E w"
  by (induction "is" arbitrary: w) simp_all

lemma closed_after:
  assumes own: "owns E w rs v" and kept: "regions v = regions w" "refused E v = refused E w"
    and body: "tidy E v u"
  shows "tidy E w (fold (close_res E) rs u)"
proof -
  have same: "handles u (res_id r) = handles v (res_id r)" if "r \<in> set rs" for r
    using own body that by (simp add: owns_def tidy_def)
  have eq: "fold (close_res E) rs u = fold (close_cell E) (map res_id rs) u"
    using own same by (intro fold_close_res) (auto simp: owns_def)
  have "(\<Sum>r\<leftarrow>rs. acct (handles u (res_id r)) h) = (\<Sum>r\<leftarrow>rs. acct (handles v (res_id r)) h)" for h
    using same by (metis (mono_tags, lifting) map_eq_conv)
  then have "owed E (fold (close_cell E) (map res_id rs) u) h = owed E u h - (\<Sum>r\<leftarrow>rs. acct (handles v (res_id r)) h)" for h
    using own cells.debt_fold [of "map res_id rs" E u h] by (cases h) (simp add: owed_def owns_def o_def)
  moreover have "owed E u h = owed E w h + (\<Sum>r\<leftarrow>rs. acct (handles v (res_id r)) h)" for h
    using own kept body by (cases h) (simp add: tidy_def, simp add: owed_def owns_def)
  moreover have "handles (fold (close_cell E) (map res_id rs) u) j = handles w j" if "j < next_id w" for j
    using own body that by (auto simp: cells.cell_fold owns_def tidy_def)
  ultimately show ?thesis
    unfolding eq using own kept body by (auto simp: tidy_def owns_def)
qed

section \<open>Bodies\<close>

definition tidies :: "'p cenv \<Rightarrow> ('p world \<Rightarrow> ('r \<times> 'p world) option) \<Rightarrow> bool" where
  "tidies E k \<longleftrightarrow> (\<forall>w r w'. k w = Some (r, w') \<longrightarrow> tidy E w w')"

lemma tidiesI: "(\<And>w r w'. k w = Some (r, w') \<Longrightarrow> tidy E w w') \<Longrightarrow> tidies E k"
  by (simp add: tidies_def)

lemma tidiesD: "tidies E k \<Longrightarrow> k v = Some (r, w') \<Longrightarrow> tidy E w v \<Longrightarrow> tidy E w w'"
  unfolding tidies_def using tidy_trans by blast

lemma tidies_ends [simp]:
  "tidies E (return_err e)" "tidies E (failing what x)" "tidies E (fatal what e)" "tidies E (\<lambda>w. None)"
  by (simp_all add: tidies_def return_err_def failing_def fatal_def)

lemma tidies_pre: "(\<And>w. tidy E w (g w)) \<Longrightarrow> tidies E k \<Longrightarrow> tidies E (\<lambda>w. k (g w))"
  by (rule tidiesI) (blast intro: tidiesD)

lemma tidies_saying: "tidies E k \<Longrightarrow> tidies E (saying l k)"
  unfolding tidies_def saying_def by auto

lemma tidies_saying_state: "(\<And>v. tidies E (k v)) \<Longrightarrow> tidies E (\<lambda>w. saying (l w) (k w) w)"
  unfolding tidies_def saying_def by auto

lemma tidies_attempt:
  assumes "\<And>w x v. m w = (Inr x, v) \<Longrightarrow> tidy E w v" and "\<And>w e v. m w = (Inl e, v) \<Longrightarrow> tidy E w v"
    and "\<And>e. tidies E (f e)" and "\<And>x. tidies E (k x)"
  shows "tidies E (attempt m f k)"
  by (rule tidiesI) (auto simp: attempt_def split: prod.splits sum.splits
      intro: tidiesD [OF assms(3)] tidiesD [OF assms(4)] assms(1,2))

lemma plain_tidies_attempt:
  assumes "plainly E m" and "\<And>e. tidies E (f e)" and "\<And>x. tidies E (k x)"
  shows "tidies E (attempt m f k)"
  by (rule tidies_attempt) (use assms plainlyD [OF assms(1) plain_refl] in \<open>metis plain_tidy snd_conv\<close>)+

lemma plain_tidies_do:
  assumes "plainly E m" and "\<And>e. tidies E (f e)" and "tidies E k"
  shows "tidies E (attempt_do m f k)"
proof (rule tidiesI)
  fix w r w' assume run: "attempt_do m f k w = Some (r, w')"
  obtain e v where m: "m w = (e, v)" by fastforce
  with plainlyD [OF assms(1) plain_refl, of w] have "tidy E w v" by (simp add: plain_tidy)
  with run m show "tidy E w w'"
    by (auto simp: attempt_do_def split: option.splits intro: tidiesD [OF assms(2)] tidiesD [OF assms(3)])
qed

lemma tidies_awaiting:
  assumes "\<And>w e v. m w = Some (e, v) \<Longrightarrow> plain E w v" and "tidies E k"
  shows "tidies E (awaiting m what k)"
proof (rule tidiesI)
  fix w r w' assume run: "awaiting m what k w = Some (r, w')"
  then obtain e v where m: "m w = Some (e, v)" by (auto simp: awaiting_def split: option.splits)
  from plain_tidy [OF assms(1) [OF m]] run m show "tidy E w w'"
    by (auto simp: awaiting_def failing_def return_err_def split: option.splits intro: tidiesD [OF assms(2)])
qed

text \<open>Open something, run a body, close it.\<close>

definition brackets :: "'p cenv \<Rightarrow> ('p world \<Rightarrow> 'a result \<times> 'p world) \<Rightarrow> ('a \<Rightarrow> resource list) \<Rightarrow> bool" where
  "brackets E m rs \<longleftrightarrow>
     (\<forall>w e v. m w = (Inl e, v) \<longrightarrow> tidy E w v) \<and>
     (\<forall>w x v. m w = (Inr x, v) \<longrightarrow> owns E w (rs x) v \<and> regions v = regions w \<and> refused E v = refused E w)"

lemma tidies_brackets:
  assumes "brackets E m rs" and "\<And>e. tidies E (f e)" and "\<And>x. tidies E (k x)"
  shows "tidies E (attempt m f (\<lambda>x. deferring (fold (close_res E) (rs x)) (k x)))"
proof (rule tidiesI)
  fix w r w' assume run: "attempt m f (\<lambda>x. deferring (fold (close_res E) (rs x)) (k x)) w = Some (r, w')"
  obtain y v where m: "m w = (y, v)" by fastforce
  show "tidy E w w'"
  proof (cases y)
    case (Inl e)
    with assms(1) m have "tidy E w v" by (auto simp: brackets_def)
    with run m Inl show ?thesis by (auto simp: attempt_def intro: tidiesD [OF assms(2)])
  next
    case (Inr x)
    with assms(1) m have own: "owns E w (rs x) v" "regions v = regions w" "refused E v = refused E w"
      by (auto simp: brackets_def)
    from run m Inr obtain u where u: "k x v = Some (r, u)" "w' = fold (close_res E) (rs x) u"
      by (auto simp: attempt_def deferring_def)
    show ?thesis
      unfolding u(2) by (rule closed_after [OF own tidiesD [OF assms(3) u(1) tidy_refl]])
  qed
qed

context pure_opener
begin

lemma brackets_one: "brackets E opn (\<lambda>x. [res x])"
  unfolding brackets_def using opened not_opened by (blast intro: plain_tidy)

lemma tidies_open: "(\<And>x. tidies E (k x)) \<Longrightarrow> tidies E (with_open E opn res what k)"
  using tidies_brackets [OF brackets_one, of "failing what" k] by (simp add: with_open_def)

end

section \<open>The endpoints of the examples\<close>

text \<open>Steps that touch no region.\<close>

definition mr_free :: "'p cenv \<Rightarrow> 'p world \<Rightarrow> 'p world \<Rightarrow> bool" where
  "mr_free E w w' \<longleftrightarrow> regions w' = regions w \<and> refused E w' = refused E w \<and> next_id w \<le> next_id w'"

lemma mr_free_refl [simp]: "mr_free E w w"
  by (simp add: mr_free_def)

lemma mr_free_trans: "mr_free E u v \<Longrightarrow> mr_free E v w \<Longrightarrow> mr_free E u w"
  by (simp add: mr_free_def)

lemma mr_free_plain: "plain E u w \<Longrightarrow> mr_free E u w"
  by (simp add: mr_free_def plain_def)

lemma mr_free_close: "mr_free E w (fold (close_res E) rs w)"
proof (induction rs arbitrary: w)
  case (Cons r rs)
  have "mr_free E w (close_res E r w)"
    by (cases r) (auto simp: mr_free_def Fabric_Close_def Domain_Close_def CQ_Close_def EQ_Close_def Endpoint_Close_def
        AV_Close_def Passive_Close_def capi_Fabric_Close_def capi_Domain_Close_def capi_CQ_Close_def capi_EQ_Close_def
        capi_Endpoint_Close_def capi_AV_Close_def capi_Passive_Close_def close_wrapper_def close_native_def split_beta
        split: option.split)
  from mr_free_trans [OF this Cons.IH] show ?case by simp
qed simp

definition mr_freely :: "'p cenv \<Rightarrow> ('p world \<Rightarrow> 'a \<times> 'p world) \<Rightarrow> bool" where
  "mr_freely E m \<longleftrightarrow> (\<forall>w. mr_free E w (snd (m w)))"

lemma mr_freely_simps [simp]: "mr_freely E (give_up E rs what e)" "mr_freely E (\<lambda>w. (x, w))"
  by (simp_all add: mr_freely_def give_up_def mr_free_close)

lemma mr_freely_plain: "plainly E m \<Longrightarrow> mr_freely E m"
  by (simp add: mr_freely_def plainly_def mr_free_plain)

lemma mr_freely_try:
  "mr_freely E m \<Longrightarrow> (\<And>e. mr_freely E (f e)) \<Longrightarrow> (\<And>x. mr_freely E (k x)) \<Longrightarrow> mr_freely E (try_act m f k)"
  "mr_freely E m' \<Longrightarrow> (\<And>e. mr_freely E (f e)) \<Longrightarrow> mr_freely E k' \<Longrightarrow> mr_freely E (try_do m' f k')"
  unfolding mr_freely_def try_act_def try_do_def
  by (fastforce split: prod.split sum.split option.split intro: mr_free_trans)+

context pure_opener
begin

lemma mr_freely_open: "mr_freely E opn"
proof -
  have "mr_free E w v" if "opn w = (y, v)" for w y v
    using that opened [of w _ v] not_opened [of w _ v]
    by (cases y) (auto simp: mr_free_def plain_def owns_def)
  then show ?thesis unfolding mr_freely_def by (metis prod.collapse)
qed

end

lemma bracketsI:
  assumes "\<And>w. case m w of (Inl e, v) \<Rightarrow> restored E w v | (Inr x, v) \<Rightarrow> owns E w (rs x) v" and "mr_freely E m"
  shows "brackets E m rs"
proof -
  have "tidy E w v" if "m w = (Inl e, v)" for w e v
    using assms(1) [of w] assms(2) [unfolded mr_freely_def, rule_format, of w] that
    by (auto simp: tidy_def mr_free_def restored_def owed_def)
  moreover have "owns E w (rs x) v \<and> regions v = regions w \<and> refused E v = refused E w" if "m w = (Inr x, v)" for w x v
    using assms(1) [of w] assms(2) [unfolded mr_freely_def, rule_format, of w] that by (auto simp: mr_free_def)
  ultimately show ?thesis by (simp add: brackets_def)
qed

text \<open>\<open>quiet_do\<close> with a text that depends on the error.\<close>

lemma quiet_do_any:
  assumes "owns E w0 rs w" and "mset rs' = mset rs" and "quiet E w (snd (m w))"
    and "\<And>w'. owns E w0 rs w' \<Longrightarrow> P (k w')"
    and "\<And>e w'. restored E w0 w' \<Longrightarrow> P (Inl (Wrap (what e) e), w')"
  shows "P (try_do m (\<lambda>e. give_up E rs' (what e) e) k w)"
proof (rule try_do_rule)
  fix e w' assume "m w = (Some e, w')"
  then have "owns E w0 rs' w'"
    using assms(1-3) by (auto intro: owns_perm owns_quiet)
  then show "P (give_up E rs' (what e) e w')"
    unfolding give_up_def by (intro assms(5) close_owned)
next
  fix w' assume "m w = (None, w')"
  with assms(1,3) have "owns E w0 rs w'" by (auto intro: owns_quiet)
  then show "P (k w')" by (rule assms(4))
qed

lemma plainly_controls:
  "plainly E (BindCompletionQueue E e cq fl)" "plainly E (BindAddressVector E e av fl)" "plainly E (Endpoint_Enable E e)"
  "plainly E (RegisterAddress E e av fl)" "plainly E (region_Key E r)"
  by (simp_all add: plainly_def plain_controls plain_RegisterAddress plain_region_Key)

lemmas mr_freely_steps = mr_freely_try mr_freely_simps mr_freely_plain plainly_controls
  pure_compqs.mr_freely_open pure_endpoints.mr_freely_open

lemma brackets_rma: "brackets E (rma_openEndpoint E domain d av label) (\<lambda>(ep, cq). [RCQ cq, REndpoint ep])"
proof (rule bracketsI)
  fix w
  show "case rma_openEndpoint E domain d av label w of
      (Inl e, v) \<Rightarrow> restored E w v
    | (Inr x, v) \<Rightarrow> owns E w (case x of (ep, cq) \<Rightarrow> [RCQ cq, REndpoint ep]) v"
    unfolding rma_openEndpoint_def Let_def
    apply (rule compqs.acquire [OF owns_Nil refl])
     apply (rule endpoints.acquire, assumption, rule refl)
      apply (rule quiet_do, assumption, rule refl, rule quiet_steps)
       apply (rule quiet_do, assumption, rule refl, rule quiet_steps)
        apply (rule quiet_do, assumption, rule refl, rule quiet_steps)
         apply (simp_all add: owns_perm)
    done
qed (unfold rma_openEndpoint_def Let_def, intro mr_freely_steps)

lemma brackets_switch: "brackets E (switch_newEndpoint E domain d av) (\<lambda>(ep, cq). [REndpoint ep, RCQ cq])"
proof (rule bracketsI)
  fix w
  show "case switch_newEndpoint E domain d av w of
      (Inl e, v) \<Rightarrow> restored E w v
    | (Inr x, v) \<Rightarrow> owns E w (case x of (ep, cq) \<Rightarrow> [REndpoint ep, RCQ cq]) v"
    unfolding switch_newEndpoint_def Let_def
    apply (rule compqs.acquire [OF owns_Nil refl])
     apply (rule endpoints.acquire, assumption, rule refl)
      apply (rule quiet_do, assumption, rule refl, rule quiet_steps)
       apply (rule quiet_do, assumption, rule refl, rule quiet_steps)
        apply (rule quiet_do_any, assumption, rule refl, rule quiet_steps)
         apply simp_all
    done
qed (unfold switch_newEndpoint_def Let_def, intro mr_freely_steps)


section \<open>Regions\<close>

lemma refused_status:
  "refused E (snd (status_call E (C_mr_close p) op w)) q =
     refused E w q + (if q = p \<and> fst (status_call E (C_mr_close p) op w) \<noteq> None then 1 else 0)"
  using ErrorFromStatus_None_op [of "hdr E" "r_ret (fst (ccall E (C_mr_close p) w))" op "''''"]
  by (auto simp: refused_def status_call_def split_beta)

lemma owed_MR_Close:
  "owed E (snd (capi_MR_Close E p w)) h = owed E w h - tally KMR p h"
proof (cases "p = NULL")
  case False
  have "fst (fst (capi_MR_Close E p w)) = fst (status_call E (C_mr_close p) (close_op KMR) w)"
    "snd (capi_MR_Close E p w) = snd (status_call E (C_mr_close p) (close_op KMR) w)"
    using False by (auto simp: capi_MR_Close_def split: prod.split option.split)
  with False refused_status [of E p "close_op KMR" w "snd h"] ledger_MR_Close [of E p w h] show ?thesis
    by (cases h) (auto simp: owed_def tally_def)
qed (simp add: capi_MR_Close_def)

lemma owed_update [simp]:
  "owed E (w\<lparr>regions := rs\<rparr>) = owed E w" "owed E (FreeBytes p w) = owed E w"
  "owed E (c_free p w) = owed E w"
  by (auto simp: owed_def fun_eq_iff FreeBytes_def)

lemma owed_region_Close:
  assumes "regions w r = Some m" and "mr_handle m = Some p"
  shows "owed E (snd (region_Close E r w)) h = owed E w h - tally KMR p h"
    and "\<forall>j. j \<noteq> r \<longrightarrow> regions (snd (region_Close E r w)) j = regions w j"
proof -
  obtain e q v where c: "capi_MR_Close E p w = ((e, q), v)" by (metis surj_pair)
  with owed_MR_Close [of E p w h] capi_MR_Close_frame(8) [of E p w]
  have "owed E v h = owed E w h - tally KMR p h" "regions v = regions w" by simp_all
  with assms c show "owed E (snd (region_Close E r w)) h = owed E w h - tally KMR p h"
    and "\<forall>j. j \<noteq> r \<longrightarrow> regions (snd (region_Close E r w)) j = regions w j"
    by (auto simp: region_Close_def Let_def FreeBytes_def split: option.split)
qed

lemma AllocBytes_plain:
  "ledger E (snd (AllocBytes E own n w)) = ledger E w" "refused E (snd (AllocBytes E own n w)) = refused E w"
  "handles (snd (AllocBytes E own n w)) = handles w" "regions (snd (AllocBytes E own n w)) = regions w"
  "next_id (snd (AllocBytes E own n w)) = next_id w"
  by (simp_all add: AllocBytes_def)

lemma RegisterMemory_effect:
  assumes "RegisterMemory E d buf access w = (y, v)"
  shows "case y of
      Inl e \<Rightarrow> plain E w v
    | Inr r \<Rightarrow> r = next_id w \<and> next_id v = Suc r \<and> handles v = handles w \<and> refused E v = refused E w \<and>
        (\<exists>m p. regions v = (regions w)(r \<mapsto> m) \<and> mr_handle m = Some p \<and> (\<forall>h. ledger E v h = ledger E w h + tally KMR p h))"
proof -
  have [simp]: "refused E (snd (capi_RegisterMemory E dp b n a off k fl u)) = refused E u" for dp b n a off k fl u
    by (simp add: capi_RegisterMemory_def)
  have led: "ledger E u' h = ledger E u h + (case z of Inl _ \<Rightarrow> 0 | Inr p \<Rightarrow> tally KMR p h)"
    "handles u' = handles u" "regions u' = regions u" "next_id u' = next_id u" "refused E u' = refused E u"
    if "capi_RegisterMemory E dp b n a off k fl u = (z, u')" for dp b n a off k fl u z u' h
    using ledger_RegisterMemory [of E dp b n a off k fl u h] capi_RegisterMemory_frame [of E dp b n a off k fl u] that
      \<open>refused E (snd (capi_RegisterMemory E dp b n a off k fl u)) = refused E u\<close> by simp_all
  obtain b w1 where al: "AllocBytes E (ORegion (next_id w)) (sl_len buf) w = (b, w1)" by fastforce
  have w1: "ledger E w1 = ledger E w" "handles w1 = handles w" "regions w1 = regions w" "next_id w1 = next_id w"
    "refused E w1 = refused E w"
    using AllocBytes_plain [of E "ORegion (next_id w)" "sl_len buf" w] al by simp_all
  show ?thesis
    using assms al w1
    by (auto simp: RegisterMemory_def RegisterMemoryWithOptions_def with_handle_def try_act_def new_region_def Let_def
        plain_def FreeBytes_def fun_eq_iff led split: option.splits if_splits prod.splits sum.splits)
qed

lemma tidies_region:
  assumes "\<And>r. tidies E (k r)"
  shows "tidies E (with_region E (RegisterMemory E d buf access) what k)"
proof (rule tidiesI)
  fix w out w' assume run: "with_region E (RegisterMemory E d buf access) what k w = Some (out, w')"
  obtain y v where m: "RegisterMemory E d buf access w = (y, v)" by fastforce
  show "tidy E w w'"
  proof (cases y)
    case (Inl e)
    with RegisterMemory_effect [OF m] run m show ?thesis
      by (auto simp: with_region_def attempt_def failing_def return_err_def intro: plain_tidy)
  next
    case (Inr r)
    with RegisterMemory_effect [OF m] obtain mr p where reg: "r = next_id w" "next_id v = Suc r" "handles v = handles w"
      "refused E v = refused E w" "regions v = (regions w)(r \<mapsto> mr)" "mr_handle mr = Some p"
      "\<And>h. ledger E v h = ledger E w h + tally KMR p h"
      by auto
    from run m Inr obtain u where u: "k r v = Some (out, u)" "w' = snd (region_Close E r u)"
      by (auto simp: with_region_def attempt_def deferring_def)
    have body: "tidy E v u" by (rule tidiesD [OF assms u(1) tidy_refl])
    with reg have live: "regions u r = Some mr" by (simp add: tidy_def)
    note cl = owed_region_Close [OF live reg(6)]
    have "owed E u h = owed E w h + tally KMR p h" for h
      using body reg(4,7) by (simp add: tidy_def) (simp add: owed_def)
    with cl(1) [of E] u(2) have "owed E w' h = owed E w h" for h by simp
    with cl(2) [of E] body reg u(2) show ?thesis by (auto simp: tidy_def less_Suc_eq fun_eq_iff)
  qed
qed


section \<open>The examples\<close>

lemma tidies_endpoints:
  assumes "\<And>e. tidies E (f e)" and "\<And>ep cq. tidies E (k ep cq)"
  shows "brackets E m (\<lambda>(ep, cq). [RCQ cq, REndpoint ep]) \<Longrightarrow>
      tidies E (attempt m f (\<lambda>(ep, cq). deferring (close_res E (REndpoint ep)) (deferring (close_res E (RCQ cq)) (k ep cq))))"
    and "brackets E m (\<lambda>(ep, cq). [REndpoint ep, RCQ cq]) \<Longrightarrow>
      tidies E (attempt m f (\<lambda>(ep, cq). deferring (fold (close_res E) [REndpoint ep, RCQ cq]) (k ep cq)))"
proof -
  have k: "tidies E (case_prod k x)" for x
    using assms(2) by (cases x) simp
  have "(\<lambda>(ep, cq). deferring (close_res E (REndpoint ep)) (deferring (close_res E (RCQ cq)) (k ep cq))) =
      (\<lambda>x. deferring (fold (close_res E) (case x of (ep, cq) \<Rightarrow> [RCQ cq, REndpoint ep])) (case_prod k x))"
    by (simp add: fun_eq_iff deferring_def option.map_comp o_def split_def)
  then show "brackets E m (\<lambda>(ep, cq). [RCQ cq, REndpoint ep]) \<Longrightarrow>
      tidies E (attempt m f (\<lambda>(ep, cq). deferring (close_res E (REndpoint ep)) (deferring (close_res E (RCQ cq)) (k ep cq))))"
    using tidies_brackets [OF _ assms(1) k, of m "\<lambda>(ep, cq). [RCQ cq, REndpoint ep]"] by simp
  have "(\<lambda>(ep, cq). deferring (fold (close_res E) [REndpoint ep, RCQ cq]) (k ep cq)) =
      (\<lambda>x. deferring (fold (close_res E) (case x of (ep, cq) \<Rightarrow> [REndpoint ep, RCQ cq])) (case_prod k x))"
    by (auto simp: fun_eq_iff)
  then show "brackets E m (\<lambda>(ep, cq). [REndpoint ep, RCQ cq]) \<Longrightarrow>
      tidies E (attempt m f (\<lambda>(ep, cq). deferring (fold (close_res E) [REndpoint ep, RCQ cq]) (k ep cq)))"
    using tidies_brackets [OF _ assms(1) k, of m "\<lambda>(ep, cq). [REndpoint ep, RCQ cq]"] by simp
qed

lemma tidies_case: "plainly E m \<Longrightarrow> (\<And>x. tidies E (k x)) \<Longrightarrow> tidies E (\<lambda>w. case m w of (x, v) \<Rightarrow> k x v)"
  by (rule tidiesI) (metis (mono_tags, lifting) case_prod_conv plain_refl plain_tidy plainlyD prod.collapse tidiesD)

lemma plain_rma_refill: "plain E w (rma_refill remote w)"
  by (simp add: rma_refill_def Let_def plain_memory)

lemma tidies_rma_read: "tidies E (rma_read fuel E ex g domain ep cq addr remote)"
  unfolding rma_read_def
  by (intro tidies_pre [where g = "rma_refill remote"] tidies_region tidies_pre [where g = "go_make g n" for n]
      tidies_saying tidies_case plainly_controls tidies_awaiting tidies_saying_state tidies_ends
      plain_tidy plain_rma_refill plain_memory)
    (erule plain_blocking)

lemma tidies_rma_write: "tidies E k \<Longrightarrow> tidies E (rma_write fuel E ex ep cq addr local remote k)"
  unfolding rma_write_def
  by (intro tidies_saying tidies_case plainly_controls tidies_awaiting tidies_saying_state) (auto dest: plain_blocking)

lemma tidies_rma_transfer: "tidies E (rma_transfer fuel E ex g domain av ep cq target)"
  unfolding rma_transfer_def
  by (intro plain_tidies_attempt plainly_controls tidies_ends tidies_region tidies_rma_write tidies_rma_read)

lemma tidies_RMA: "tidies E (runRMAExample fuel E ex g d)"
proof (cases "Desc_EndpointType (hdr E) d = FI_EP_RDM (hdr E)")
  case True
  then have eq: "(Desc_EndpointType (hdr E) d \<noteq> FI_EP_RDM (hdr E)) = False" by simp
  show ?thesis
    unfolding runRMAExample_def eq if_False
    by (intro pure_fabrics.tidies_open pure_domains.tidies_open pure_vectors.tidies_open tidies_endpoints tidies_ends
        brackets_rma tidies_rma_transfer)
qed (simp add: runRMAExample_def)

lemma tidies_checked: "plainly E m \<Longrightarrow> tidies E k \<Longrightarrow> tidies E (checked m what k)"
  unfolding checked_def by (intro plain_tidies_do tidies_ends)

lemma tidies_MSG: "tidies E (runMSGExample fuel E ex g d)"
  unfolding runMSGExample_def
  apply (intro pure_fabrics.tidies_open pure_domains.tidies_open pure_compqs.tidies_open pure_endpoints.tidies_open
      tidies_checked plainly_controls tidies_awaiting)
   apply (erule plain_blocking)
  apply (intro tidies_pre [where g = "go_make g n" for n] plain_tidy plain_memory tidies_awaiting tidies_saying_state tidies_ends)
  apply (erule plain_blocking)
  done

lemma tidies_exchange:
  assumes "\<And>e. tidies E (f e)" and "tidies E k" and "\<And>w. plain E w (m w)"
  shows "tidies E (\<lambda>w. case exchange (send_thread E Ks ep dest cq) (recv_thread E Kr ep2 g cq2) sched Posting Posting (m w) of
      None \<Rightarrow> None
    | Some (Some e, w') \<Rightarrow> f e w'
    | Some (None, w') \<Rightarrow> k w')"
proof (rule tidiesI)
  fix w r w'
  assume run: "(case exchange (send_thread E Ks ep dest cq) (recv_thread E Kr ep2 g cq2) sched Posting Posting (m w) of
      None \<Rightarrow> None | Some (Some e, w') \<Rightarrow> f e w' | Some (None, w') \<Rightarrow> k w') = Some (r, w')"
  then obtain e v where x: "exchange (send_thread E Ks ep dest cq) (recv_thread E Kr ep2 g cq2) sched Posting Posting (m w) = Some (e, v)"
    by (auto split: option.splits)
  have "plain E w v" by (rule plain_trans [OF assms(3) plain_exchange [OF plain_threads x]])
  with run x show "tidy E w w'"
    by (auto split: option.splits intro: tidiesD [OF assms(1) _ plain_tidy] tidiesD [OF assms(2) _ plain_tidy])
qed

lemma tidies_RDM: "tidies E (runRDMExample sched E Ks Kr g d)"
  unfolding runRDMExample_def
  by (intro pure_fabrics.tidies_open pure_domains.tidies_open pure_vectors.tidies_open tidies_endpoints(2) tidies_ends
      brackets_switch plain_tidies_attempt plainly_controls tidies_saying tidies_exchange tidies_saying_state plain_memory)


section \<open>The main functions\<close>

definition ends_tidy :: "'p cenv \<Rightarrow> 'p program \<Rightarrow> bool" where
  "ends_tidy E k \<longleftrightarrow> (\<forall>w out w'. k w = Some ((Returned, out), w') \<longrightarrow> tidy E w w')"

lemma ends_tidyI: "(\<And>w out w'. k w = Some ((Returned, out), w') \<Longrightarrow> tidy E w w') \<Longrightarrow> ends_tidy E k"
  by (simp add: ends_tidy_def)

lemma ends_tidyD: "ends_tidy E k \<Longrightarrow> k v = Some ((Returned, out), w') \<Longrightarrow> tidy E w v \<Longrightarrow> tidy E w w'"
  unfolding ends_tidy_def using tidy_trans by blast

lemma ends_tidies: "tidies E k \<Longrightarrow> ends_tidy E k"
  by (auto simp: tidies_def ends_tidy_def)

lemma ends_fatal [simp]: "ends_tidy E (fatal what e)"
  by (simp add: ends_tidy_def fatal_def)

lemma ends_do:
  assumes "plainly E m" and "ends_tidy E k"
  shows "ends_tidy E (attempt_do m (\<lambda>e. fatal (what e) (f e)) k)"
proof (rule ends_tidyI)
  fix w out w' assume run: "attempt_do m (\<lambda>e. fatal (what e) (f e)) k w = Some ((Returned, out), w')"
  obtain e v where m: "m w = (e, v)" by fastforce
  with plainlyD [OF assms(1) plain_refl, of w] have "tidy E w v" by (simp add: plain_tidy)
  with run m show "tidy E w w'"
    by (cases e) (auto simp: attempt_do_def fatal_def intro: ends_tidyD [OF assms(2)])
qed

lemma ends_wait:
  assumes "\<And>w e v. m w = Some (e, v) \<Longrightarrow> plain E w v" and "ends_tidy E k"
  shows "ends_tidy E (fatal_wait m what k)"
proof (rule ends_tidyI)
  fix w out w' assume run: "fatal_wait m what k w = Some ((Returned, out), w')"
  then obtain v where "m w = Some (None, v)" "k v = Some ((Returned, out), w')"
    by (auto simp: fatal_wait_def fatal_def split: option.splits)
  with assms show "tidy E w w'" by (blast intro: ends_tidyD plain_tidy)
qed

lemma ends_pre: "(\<And>w. tidy E w (g w)) \<Longrightarrow> ends_tidy E k \<Longrightarrow> ends_tidy E (\<lambda>w. k (g w))"
  by (rule ends_tidyI) (blast intro: ends_tidyD)

context pure_opener
begin

lemma ends_open:
  assumes "\<And>x. ends_tidy E (k x)"
  shows "ends_tidy E (fatal_open E opn res what k)"
proof (rule ends_tidyI)
  fix w out w' assume run: "fatal_open E opn res what k w = Some ((Returned, out), w')"
  obtain y v where o: "opn w = (y, v)" by fastforce
  with run obtain x u where x: "y = Inr x" and u: "k x v = Some ((Returned, out), u)" "w' = fold (close_res E) [res x] u"
    by (cases y) (auto simp: fatal_open_def fatal_on_def attempt_def at_return_def fatal_def)
  from closed_after [OF opened [OF o [unfolded x]] ends_tidyD [OF assms u(1) tidy_refl]] u(2)
  show "tidy E w w'" by simp
qed

end

lemma ends_msg_session: "ends_tidy E (msg_session fuel E ex g d)"
  unfolding msg_session_def
  apply (intro pure_fabrics.ends_open pure_domains.ends_open pure_compqs.ends_open pure_endpoints.ends_open
      ends_do plainly_controls ends_wait)
   apply (erule plain_blocking)
  apply (intro ends_pre [where g = "go_make g n" for n] plain_tidy plain_memory ends_wait)
   apply (erule plain_blocking)
  apply (simp add: ends_tidy_def)
  done

lemma tidies_attempts: "tidies E (rma_attempts fuel E A ex g i lastErr ds)"
proof (induction ds arbitrary: i lastErr)
  case Nil
  show ?case by (rule tidiesI) (auto simp: fatal_def split: option.splits)
next
  case (Cons d ds)
  show ?case
  proof (rule tidiesI)
    fix w r w' assume "rma_attempts fuel E A ex g i lastErr (d # ds) w = Some (r, w')"
    then consider (skip) e r' where "rma_attempts fuel E A ex g (Suc i) (Some e) ds w = Some (r', w')"
      | (next_try) e out v r' where "runRMAExample fuel E (ex i) (g i) d w = Some ((Some e, out), v)"
          "rma_attempts fuel E A ex g (Suc i) (Some e) ds v = Some (r', w')"
      | (won) out where "runRMAExample fuel E (ex i) (g i) d w = Some ((None, out), w')"
      by (fastforce simp: Let_def split: if_splits option.splits prod.splits)
    then show "tidy E w w'"
    proof cases
      case skip
      then show ?thesis by (rule tidiesD [OF Cons.IH _ tidy_refl])
    next
      case next_try
      then show ?thesis by (blast intro: tidiesD [OF Cons.IH] tidiesD [OF tidies_RMA _ tidy_refl])
    next
      case won
      then show ?thesis by (rule tidiesD [OF tidies_RMA _ tidy_refl])
    qed
  qed
qed

text \<open>The discovery around a main function.\<close>

lemma mr_free_discovery:
  "mr_free E w (snd (DiscoverDescriptors E A opts w))" "mr_free E w (snd (Discovery_Close E d w))"
  by (simp_all add: mr_free_def DiscoverDescriptors_def Discovery_Close_def Let_def split_beta capi_GetInfo_def AllocInfo_def
      Info_Free_def split: option.split)

lemma tidy_discovery:
  assumes "DiscoverDescriptors E A opts w = (Inr d, v)" and "tidy E v u"
  shows "tidy E w (snd (Discovery_Close E d u))"
proof -
  have b: "borrows E (tally KInfo (il_ptr d)) w v" "il_owns d"
    using discovered [OF assms(1)] by (simp_all add: discovered_def)
  have free: "mr_free E w v" using mr_free_discovery(1) [of E w A opts] assms(1) by simp
  have "owed E v h = owed E w h + tally KInfo (il_ptr d) h" for h
    using b(1) free by (cases h) (simp add: owed_def borrows_def mr_free_def)
  moreover have "owed E (snd (Discovery_Close E d u)) h = owed E u h - tally KInfo (il_ptr d) h" for h
    using mr_free_discovery(2) [of E u d] b(2)
    by (simp add: owed_def mr_free_def) (simp add: Discovery_Close_def ledger_Info_Free)
  ultimately show ?thesis
    using assms(2) b(1) free mr_free_discovery(2) [of E u d]
    by (simp add: tidy_def mr_free_def borrows_def fun_eq_iff)
qed

lemma undiscovered_tidy: "DiscoverDescriptors E A opts w = (Inl e, v) \<Longrightarrow> tidy E w v"
  using undiscovered [of E A opts w e v] mr_free_discovery(1) [of E w A opts]
  by (auto simp: tidy_def quiet_def mr_free_def owed_def fun_eq_iff)

lemma ends_discovery:
  assumes "\<And>ds. ends_tidy E (k ds)"
  shows "ends_tidy E (fatal_on (DiscoverDescriptors E A opts) what (\<lambda>ds. at_return (\<lambda>w. snd (Discovery_Close E ds w)) (k ds)))"
proof (rule ends_tidyI)
  fix w out w'
  assume run: "fatal_on (DiscoverDescriptors E A opts) what (\<lambda>ds. at_return (\<lambda>w. snd (Discovery_Close E ds w)) (k ds)) w =
    Some ((Returned, out), w')"
  obtain y v where o: "DiscoverDescriptors E A opts w = (y, v)" by fastforce
  with run obtain ds u where x: "y = Inr ds" and u: "k ds v = Some ((Returned, out), u)" "w' = snd (Discovery_Close E ds u)"
    by (cases y) (auto simp: fatal_on_def attempt_def at_return_def fatal_def)
  from tidy_discovery [OF o [unfolded x] ends_tidyD [OF assms u(1) tidy_refl]] u(2) show "tidy E w w'" by simp
qed

lemma ends_run: "tidies E k \<Longrightarrow> ends_tidy E (run_or_fatal intro what k)"
  by (rule ends_tidyI) (auto simp: run_or_fatal_def split: option.splits intro: tidiesD [OF _ _ tidy_refl])

lemma ends_msg_main: "ends_tidy E (msg_main fuel E A ex g)"
  unfolding msg_main_def by (rule ends_discovery) (simp add: ends_msg_session split: option.split)

lemma ends_switch_main: "ends_tidy E (switch_main fuel sched E A Ks Kr ex g)"
  unfolding switch_main_def
  by (rule ends_discovery)
    (auto simp: ends_run tidies_RDM tidies_MSG split: prod.split option.split)

lemma ends_rma_main: "ends_tidy E (rma_main fuel E A ex g env)"
proof (rule ends_tidyI)
  fix w out w' assume run: "rma_main fuel E A ex g env w = Some ((Returned, out), w')"
  let ?opts = "[WithProvider (if env = '''' then ''sockets'' else env), WithCaps (FI_RMA (hdr E))]"
  obtain y v where disc: "discoverRMADescriptors E A ?opts w = (y, v)" by fastforce
  from run disc obtain d out' u where y: "y = Inr (Some d)"
    and att: "rma_attempts fuel E A ex g 0 None (orderDescriptors (Descriptors d)) v = Some ((Returned, out'), u)"
    and w': "w' = snd (Discovery_Close E d u)"
    by (auto simp: rma_main_def Let_def fatal_def split: sum.splits option.splits)
  from disc y obtain opts v0 where v0: "tidy E w v0" and found: "DiscoverDescriptors E A opts v0 = (Inr d, v)"
    by (auto simp: discoverRMADescriptors_def try_act_def split: prod.splits sum.splits if_splits
        intro: tidy_refl tidy_discovery [OF _ tidy_refl])
  have "tidy E v u" by (rule tidiesD [OF tidies_attempts att tidy_refl])
  from tidy_trans [OF v0 tidy_discovery [OF found this]] show "tidy E w w'" by (simp add: w')
qed


end
