(* ===== verification/Example_Shows.thy ===== *)
theory Example_Shows
  imports Example_Release
begin

text \<open>
  What the RMA example shows of its read: the buffer it prints is the one \<open>PostRead\<close> never fills.
\<close>

section \<open>An array nobody copies into\<close>

text \<open>
  \<open>inert g w\<close>: no completion context has data to copy back into array \<open>g\<close>. A context whose request
  named \<open>g\<close> but was posted on a region has no staging buffer, so it is inert.
\<close>

definition inert :: "nat \<Rightarrow> 'p world \<Rightarrow> bool" where
  "inert g w \<longleftrightarrow>
     (\<forall>c x s. ctxs w c = Some x \<and> cc_copyBack x = Some s \<and> sl_loc s = GoMem g \<longrightarrow> cc_buffer x = NULL)"

definition hushed :: "nat \<Rightarrow> ('p world \<Rightarrow> 'a \<times> 'p world) \<Rightarrow> bool" where
  "hushed g m \<longleftrightarrow> (\<forall>w. inert g w \<longrightarrow> inert g (snd (m w)) \<and> gomem (snd (m w)) g = gomem w g)"

lemma hushedD: "hushed g m \<Longrightarrow> m w = (x, v) \<Longrightarrow> inert g w \<Longrightarrow> inert g v \<and> gomem v g = gomem w g"
  unfolding hushed_def by (metis snd_conv)

lemma inert_cong: "ctxs w' = ctxs w \<Longrightarrow> inert g w' = inert g w"
  by (simp add: inert_def)

lemma hushed_frame:
  "(\<And>w. ctxs (snd (m w)) = ctxs w) \<Longrightarrow> (\<And>w. gomem (snd (m w)) = gomem w) \<Longrightarrow> hushed g m"
  by (simp add: hushed_def inert_def)

lemma hushed_try_act:
  fixes m :: "'p world \<Rightarrow> ('e + 'a) \<times> 'p world"
  assumes "hushed g m" and "\<And>e. hushed g (f e)" and "\<And>x. hushed g (k x)"
  shows "hushed g (try_act m f k)"
  unfolding hushed_def
proof (intro allI impI)
  fix w :: "'p world" assume w: "inert g w"
  obtain y v where m: "m w = (y, v)" by fastforce
  from hushedD [OF assms(1) m w] assms(2,3) m
  show "inert g (snd (try_act m f k w)) \<and> gomem (snd (try_act m f k w)) g = gomem w g"
    by (cases y) (auto simp: try_act_def hushed_def)
qed

lemma hushed_with_handle: "(\<And>p. hushed g (k p)) \<Longrightarrow> hushed g (with_handle i mk e k)"
  by (auto simp: hushed_def with_handle_def split: option.split)

text \<open>Releasing a context copies into its own target only.\<close>

lemma inert_release:
  fixes w :: "'p world"
  assumes "inert g w"
  shows "inert g (release_ctx c b r w) \<and> gomem (release_ctx c b r w) g = gomem w g"
proof (cases "ctxs w c")
  case (Some x)
  have copy: "gomem (Memcpy (sl_loc s) l n u) g = gomem u g"
    if "cc_copyBack x = Some s" "cc_buffer x \<noteq> NULL" for s l n and u :: "'p world"
    using assms Some that by (auto simp: inert_def Memcpy_def store_def split: option.split loc.split)
  show ?thesis
    using assms Some
    by (auto simp: release_ctx_def Let_def CompletionContextFree_def FreeBytes_def inert_def copy split: option.split)
qed (use assms in \<open>simp add: release_ctx_def\<close>)

lemma inert_registry [simp]: "inert g (w\<lparr>registry := rs\<rparr>) = inert g w"
  by (simp add: inert_def)

lemma hushed_resolve: "hushed g (resolveCompletion p)"
  by (simp add: hushed_def resolveCompletion_def inert_release split: option.split)

lemma hushed_read: "hushed g (CQ_ReadContext E cq)"
  by (rule hushed_frame) (simp_all add: CQ_ReadContext_def with_handle_def capi_ReadContext_def split_beta split: option.split)

lemma hushed_wait_loop:
  "wait_loop fuel E K cq target timeout want i w = Some (r, w') \<Longrightarrow> inert g w \<Longrightarrow> inert g w' \<and> gomem w' g = gomem w g"
proof (induction fuel arbitrary: i w)
  case (Suc fuel)
  note rd = hushedD [OF hushed_read] and rs = hushedD [OF hushed_resolve]
  from Suc.prems(1) show ?case
  proof (cases rule: wait_loop_cases)
    case (again w2)
    then have "inert g w2 \<and> gomem w2 g = gomem w g"
      unfolding polls_def using rd rs Suc.prems(2) by metis
    with Suc.IH [OF again(2)] show ?thesis by simp
  qed (use rd rs Suc.prems(2) in \<open>metis+\<close>)
qed simp

lemma hushed_wait:
  "waitForContext fuel E K cq target timeout w = Some (e, w') \<Longrightarrow> inert g w \<Longrightarrow> inert g w' \<and> gomem w' g = gomem w g"
  by (auto simp: waitForContext_def waitForCompletion_def split: option.splits if_splits dest!: hushed_wait_loop)

lemma hushed_sync:
  assumes "\<And>w x v. pst w = (x, v) \<Longrightarrow> inert g w \<Longrightarrow> inert g v \<and> gomem v g = gomem w g"
    and "sync fuel E K pst cq timeout w = Some (e, w')" and "inert g w"
  shows "inert g w' \<and> gomem w' g = gomem w g"
proof (cases cq)
  case (Some q)
  obtain y v where p: "pst w = (y, v)" by fastforce
  with assms(1) [OF p assms(3)] assms(2) Some show ?thesis
    by (auto simp: sync_def split: sum.splits dest!: hushed_wait)
qed (use assms in \<open>simp add: sync_def\<close>)

section \<open>Posts on a region\<close>

lemma hushed_Descriptor: "hushed g (region_Descriptor E r)"
  by (rule hushed_frame) (simp_all add: region_Descriptor_def capi_MR_Descriptor_def split_beta split: option.split)

lemma inert_finish:
  assumes "\<And>v. ctxs (snd (m v)) = ctxs v" and "\<And>v. gomem (snd (m v)) = gomem v" and "inert g v"
  shows "inert g (snd (finish_post Release c m v)) \<and> gomem (snd (finish_post Release c m v)) g = gomem v g"
proof -
  obtain e u where m: "m v = (e, u)" by fastforce
  with assms(1,2) [of v] assms(3) have "inert g u" "gomem u g = gomem v g" by (simp_all add: inert_def)
  with inert_release [of g u c False True] m show ?thesis
    by (auto simp: finish_post_def Release_def split: option.split)
qed

lemma capi_rma_frame:
  "ctxs (snd (capi_Read E p b n d a k off c w)) = ctxs w" "gomem (snd (capi_Read E p b n d a k off c w)) = gomem w"
  "ctxs (snd (capi_Write E p b n d a k off c w)) = ctxs w" "gomem (snd (capi_Write E p b n d a k off c w)) = gomem w"
  by (simp_all add: capi_Read_def capi_Write_def guarded_def)

text \<open>A new context has no staging buffer, and the region branch gives it none.\<close>

lemma use_region_hushed:
  assumes "inert g w" and "\<And>b d n v. inert g v \<Longrightarrow> ctxs v = ctxs w \<Longrightarrow> inert g (snd (k b d n v)) \<and> gomem (snd (k b d n v)) g = gomem v g"
  shows "inert g (snd (use_region E c r len t k w)) \<and> gomem (snd (use_region E c r len t k w)) g = gomem w g"
proof -
  obtain d v where d: "region_Descriptor E r w = (d, v)" by fastforce
  have "ctxs (snd (region_Descriptor E r w)) = ctxs w"
    by (simp add: region_Descriptor_def capi_MR_Descriptor_def split_beta split: option.split)
  with d hushedD [OF hushed_Descriptor d assms(1)] have v: "inert g v" "gomem v g = gomem w g" "ctxs v = ctxs w" by simp_all
  from assms(2) [OF v(1,3)] v inert_release [OF v(1), of c False True] inert_release [OF assms(1), of c False True] d
  show ?thesis by (simp add: use_region_def Let_def Release_def split: option.split)
qed

lemma new_context_bare:
  assumes "NewCompletionContext E w = (Inr c, v)"
  shows "\<exists>x. ctxs v c = Some x \<and> cc_buffer x = NULL"
  using assms by (auto simp: NewCompletionContext_def Let_def cc_new_def split: prod.splits if_splits)

lemma hushed_new: "hushed g (NewCompletionContext E)"
  by (auto simp: hushed_def NewCompletionContext_def Let_def CompletionContextAlloc_def split_beta inert_def cc_new_def)

lemma inert_setCopyBack:
  assumes "inert g v" and "ctxs v c = Some x" and "cc_buffer x = NULL"
  shows "inert g (setCopyBack c s v)" and "gomem (setCopyBack c s v) = gomem v"
  using assms by (auto simp: setCopyBack_def upd_ctx_def inert_def)

lemma region_read_inert:
  fixes E :: "'p cenv"
  assumes v: "inert g v" and x: "ctxs v c = Some x" "cc_buffer x = NULL"
    and pst: "\<And>buf desc n w. pst buf desc n w =
      finish_post Release c (capi_Read E p buf n desc a k off (Pointer c w)) w"
  shows "inert g (snd (use_region E c r len t (\<lambda>buf desc n w. pst buf desc n (if staged then setCopyBack c s w else w)) v)) \<and>
      gomem (snd (use_region E c r len t (\<lambda>buf desc n w. pst buf desc n (if staged then setCopyBack c s w else w)) v)) g =
        gomem v g"
proof (rule use_region_hushed [OF v])
  fix b d n and u :: "'p world" assume u: "inert g u" "ctxs u = ctxs v"
  let ?u = "if staged then setCopyBack c s u else u"
  have "ctxs u c = Some x" using x u by simp
  from inert_setCopyBack [OF u(1) this x(2)] u(1) have i: "inert g ?u" "gomem ?u = gomem u" by simp_all
  from inert_finish [where m = "capi_Read E p b n d a k off (Pointer c ?u)" and c = c, OF capi_rma_frame(1,2) i(1)]
  show "inert g (snd (pst b d n ?u)) \<and> gomem (snd (pst b d n ?u)) g = gomem u g"
    unfolding pst i(2) .
qed

lemma region_post_inert:
  assumes w: "inert g w" and reg: "rq_Region rq = Some r" "rq_Context rq = None"
  shows "inert g (snd (PostRead E ep (Some rq) w)) \<and> gomem (snd (PostRead E ep (Some rq) w)) g = gomem w g" (is ?posts_read)
    and "inert g (snd (PostWrite E ep (Some rq) w)) \<and> gomem (snd (PostWrite E ep (Some rq) w)) g = gomem w g" (is ?posts_write)
proof -
  obtain y v where n: "NewCompletionContext E w = (y, v)" by fastforce
  note v = hushedD [OF hushed_new n w]
  then have v1: "inert g v" "gomem v g = gomem w g" by simp_all
  have "?posts_read \<and> ?posts_write"
  proof (cases "handles w (ep_ref ep)")
    case (Some h)
    show ?thesis
    proof (cases y)
      case (Inl e)
      with Some n reg v show ?thesis
        by (simp add: PostRead_def PostWrite_def with_handle_def try_act_def ensureContext_def split: prod.split)
    next
      case (Inr c)
      obtain x where x: "ctxs v c = Some x" "cc_buffer x = NULL"
        using new_context_bare [of E w c v] n Inr by auto
      let ?rd = "\<lambda>buf desc n w. finish_post Release c
          (capi_Read E (snd h) buf n desc (rq_Address rq) (rq_Key rq) (rq_Offset rq) (Pointer c w)) w"
      let ?wr = "\<lambda>buf desc n w. finish_post Release c
          (capi_Write E (snd h) buf n desc (rq_Address rq) (rq_Key rq) (rq_Offset rq) (Pointer c w)) w"
      have eq: "PostRead E ep (Some rq) w =
          use_region E c r (sl_len (rq_Buffer rq)) ''libfabric: read length exceeds registered region''
            (\<lambda>buf desc n w. ?rd buf desc n (if 0 < sl_len (rq_Buffer rq) then setCopyBack c (rq_Buffer rq) w else w)) v"
        "PostWrite E ep (Some rq) w =
          use_region E c r (sl_len (rq_Buffer rq)) ''libfabric: write length exceeds registered region'' ?wr v"
        using Some n reg Inr
        by (simp_all add: PostRead_def PostWrite_def with_handle_def try_act_def ensureContext_def Let_def split: prod.split)
      have ?posts_write
        unfolding eq v1(2) [symmetric]
        by (rule use_region_hushed [OF v1(1)], rule inert_finish [OF capi_rma_frame(3,4)])
      moreover have ?posts_read
        unfolding eq v1(2) [symmetric]
        by (rule region_read_inert [where pst = ?rd, OF v1(1) x refl])
      ultimately show ?thesis by blast
    qed
  qed (use w in \<open>simp add: PostRead_def PostWrite_def with_handle_def\<close>)
  then show ?posts_read and ?posts_write by simp_all
qed


section \<open>The steps before the read\<close>

lemma hushed_simple:
  "hushed g (\<lambda>w. (x, w))" "hushed g (RegisterMemory E d buf access)" "hushed g (\<lambda>w. (x, rma_refill r w))"
  by (rule hushed_frame; simp add: RegisterMemory_def rma_refill_def Let_def region_Bytes_def nil_slice_def Memcpy_def store_def
      split: option.split)+

lemma hushed_opens:
  "hushed g (OpenFabric E d)" "hushed g (OpenDomain E d f)" "hushed g (OpenCompletionQueue E dm cqa)"
  "hushed g (OpenEndpoint E d dm)" "hushed g (OpenAddressVector E dm ava)"
  by (rule hushed_frame;
      simp add: OpenFabric_def OpenDomain_def OpenCompletionQueue_def OpenEndpoint_def OpenAddressVector_def with_handle_def
        try_act_def wrap_open_def new_wrapper_def capi_OpenFabric_def capi_OpenDomain_def capi_OpenEndpoint_def
        capi_OpenCompletionQueue_def capi_OpenAV_def split_beta split: option.split sum.split)+

lemma hushed_controls:
  "hushed g (BindCompletionQueue E e cq fl)" "hushed g (BindAddressVector E e av fl)" "hushed g (Endpoint_Enable E e)"
  "hushed g (region_Key E r)"
  by (rule hushed_frame;
      simp add: BindCompletionQueue_def BindAddressVector_def Endpoint_Enable_def capi_BindCompletionQueue_def
        capi_BindAddressVector_def capi_Bind_def capi_Enable_def guarded_def with_handle_def region_Key_def capi_MR_Key_def
        split_beta split: option.split)+

lemma hushed_address: "hushed g (RegisterAddress E e av fl)"
  by (rule hushed_frame;
      simp add: RegisterAddress_def Endpoint_Name_def capi_Endpoint_Name_def InsertRaw_def capi_AV_InsertRaw_def with_handle_def
        try_act_def AllocBytes_def FreeBytes_def split_beta split: option.split sum.split)

lemma close_res_frame [simp]: "ctxs (close_res E r w) = ctxs w" "gomem (close_res E r w) = gomem w"
  by (cases r; simp add: Fabric_Close_def Domain_Close_def CQ_Close_def EQ_Close_def Endpoint_Close_def AV_Close_def
      Passive_Close_def capi_Fabric_Close_def capi_Domain_Close_def capi_CQ_Close_def capi_EQ_Close_def capi_Endpoint_Close_def
      capi_AV_Close_def capi_Passive_Close_def close_wrapper_def close_native_def split_beta split: option.split)+

lemma close_res_fold [simp]: "ctxs (fold (close_res E) rs w) = ctxs w" "gomem (fold (close_res E) rs w) = gomem w"
  by (induction rs arbitrary: w) simp_all

lemma hushed_give_up: "hushed g (give_up E rs what e)"
  by (rule hushed_frame) (simp_all add: give_up_def)

lemma hushed_try_do:
  fixes m :: "'p world \<Rightarrow> 'e option \<times> 'p world"
  assumes "hushed g m" and "\<And>e. hushed g (f e)" and "hushed g k"
  shows "hushed g (try_do m f k)"
  unfolding hushed_def
proof (intro allI impI)
  fix w :: "'p world" assume w: "inert g w"
  obtain y v where m: "m w = (y, v)" by fastforce
  from hushedD [OF assms(1) m w] assms(2,3) m
  show "inert g (snd (try_do m f k w)) \<and> gomem (snd (try_do m f k w)) g = gomem w g"
    by (cases y) (auto simp: try_do_def hushed_def)
qed

lemma hushed_endpoint: "hushed g (rma_openEndpoint E domain d av label)"
  unfolding rma_openEndpoint_def Let_def
  by (intro hushed_try_act hushed_try_do hushed_opens hushed_controls hushed_give_up hushed_simple)

section \<open>What a successful run prints last\<close>

definition shows_zeros :: "nat \<Rightarrow> 'p body \<Rightarrow> bool" where
  "shows_zeros g k \<longleftrightarrow>
     (\<forall>w out w'. inert g w \<and> k w = Some ((None, out), w') \<longrightarrow>
        out \<noteq> [] \<and> last out = Quoted ''read returned '' (replicate (length read_payload) 0))"

lemma shows_zerosI:
  "(\<And>w out w'. inert g w \<Longrightarrow> k w = Some ((None, out), w') \<Longrightarrow>
     out \<noteq> [] \<and> last out = Quoted ''read returned '' (replicate (length read_payload) 0)) \<Longrightarrow> shows_zeros g k"
  unfolding shows_zeros_def by blast

lemma shows_zerosD:
  "shows_zeros g k \<Longrightarrow> k w = Some ((None, out), w') \<Longrightarrow> inert g w \<Longrightarrow>
     out \<noteq> [] \<and> last out = Quoted ''read returned '' (replicate (length read_payload) 0)"
  unfolding shows_zeros_def by blast

lemma shows_failure [simp]: "shows_zeros g (return_err (Some e))" "shows_zeros g (failing what e)"
  by (simp_all add: shows_zeros_def return_err_def failing_def)

lemma shows_attempt:
  assumes "hushed g m" and "\<And>e. shows_zeros g (f e)" and "\<And>x. shows_zeros g (k x)"
  shows "shows_zeros g (attempt m f k)"
proof (rule shows_zerosI)
  fix w out w' assume w: "inert g w" and run: "attempt m f k w = Some ((None, out), w')"
  obtain y v where m: "m w = (y, v)" by fastforce
  have v: "inert g v" using hushedD [OF assms(1) m w] by simp
  show "out \<noteq> [] \<and> last out = Quoted ''read returned '' (replicate (length read_payload) 0)"
  proof (cases y)
    case (Inl e)
    with run m shows_zerosD [OF assms(2) _ v] show ?thesis by (simp add: attempt_def)
  next
    case (Inr x)
    with run m shows_zerosD [OF assms(3) _ v] show ?thesis by (simp add: attempt_def)
  qed
qed

lemma shows_deferring: "shows_zeros g k \<Longrightarrow> shows_zeros g (deferring cl k)"
  unfolding shows_zeros_def deferring_def by auto

lemma shows_saying: "shows_zeros g k \<Longrightarrow> shows_zeros g (saying l k)"
  unfolding shows_zeros_def saying_def by fastforce

lemma shows_open: "hushed g opn \<Longrightarrow> (\<And>x. shows_zeros g (k x)) \<Longrightarrow> shows_zeros g (with_open E opn res what k)"
  unfolding with_open_def by (intro shows_attempt shows_deferring) simp_all

lemma shows_region: "(\<And>r. shows_zeros g (k r)) \<Longrightarrow> shows_zeros g (with_region E (RegisterMemory E d buf a) what k)"
  unfolding with_region_def by (intro shows_attempt shows_deferring hushed_simple) simp_all


lemma shows_case:
  assumes "hushed g m" and "\<And>x. shows_zeros g (k x)"
  shows "shows_zeros g (\<lambda>w. case m w of (x, v) \<Rightarrow> k x v)"
proof (rule shows_zerosI)
  fix w out w' assume w: "inert g w" and run: "(case m w of (x, v) \<Rightarrow> k x v) = Some ((None, out), w')"
  obtain x v where m: "m w = (x, v)" by fastforce
  with hushedD [OF assms(1) m w] run show "out \<noteq> [] \<and> last out = Quoted ''read returned '' (replicate (length read_payload) 0)"
    by (intro shows_zerosD [OF assms(2) [of x], of v]) simp_all
qed

lemma rma_sync_inert:
  "WriteSync fuel E ex ep (Some (rma_request buf r addr key)) cq t w = Some (e, w') \<Longrightarrow> inert g w \<Longrightarrow>
     inert g w' \<and> gomem w' g = gomem w g"
  "ReadSync fuel E ex ep (Some (rma_request buf r addr key)) cq t w = Some (e, w') \<Longrightarrow> inert g w \<Longrightarrow>
     inert g w' \<and> gomem w' g = gomem w g"
proof -
  let ?rq = "rma_request buf r addr key"
  have rq: "rq_Region ?rq = Some r" "rq_Context ?rq = None" by (simp_all add: rma_request_def)
  show "inert g w' \<and> gomem w' g = gomem w g" if "WriteSync fuel E ex ep (Some ?rq) cq t w = Some (e, w')" "inert g w"
    using that unfolding WriteSync_def
    by (rule hushed_sync [rotated]) (use region_post_inert(2) [OF _ rq] in \<open>metis snd_conv\<close>)
  show "inert g w' \<and> gomem w' g = gomem w g" if "ReadSync fuel E ex ep (Some ?rq) cq t w = Some (e, w')" "inert g w"
    using that unfolding ReadSync_def
    by (rule hushed_sync [rotated]) (use region_post_inert(1) [OF _ rq] in \<open>metis snd_conv\<close>)
qed

lemma shows_write:
  assumes "shows_zeros g k"
  shows "shows_zeros g (rma_write fuel E ex ep cq addr local remote k)"
  unfolding rma_write_def
proof (intro shows_saying shows_case hushed_controls shows_zerosI)
  fix key w out w'
  assume w: "inert g w" and run: "awaiting (WriteSync fuel E ex ep (Some (rma_request nil_slice local addr key)) (Some cq) one_second)
      (\<lambda>_. ''write sync'')
      (\<lambda>w. saying (Quoted ''remote buffer now contains '' (slice_bytes (region_Bytes remote w) w)) k w) w = Some ((None, out), w')"
  then obtain v where s: "WriteSync fuel E ex ep (Some (rma_request nil_slice local addr key)) (Some cq) one_second w = Some (None, v)"
    and k: "saying (Quoted ''remote buffer now contains '' (slice_bytes (region_Bytes remote v) v)) k v = Some ((None, out), w')"
    by (auto simp: awaiting_def failing_def return_err_def split: option.splits)
  from rma_sync_inert(1) [OF s w] show "out \<noteq> [] \<and> last out = Quoted ''read returned '' (replicate (length read_payload) 0)"
    by (intro shows_zerosD [OF shows_saying [OF assms] k]) simp
qed

lemma shows_read: "shows_zeros g (rma_read fuel E ex g domain ep cq addr remote)"
proof -
  have "shows_zeros g (\<lambda>w. saying (Say ''posting RMA read...'')
      (\<lambda>w. case region_Key E remote w of
         (key, w1) \<Rightarrow>
           awaiting (ReadSync fuel E ex ep (Some (rma_request \<lparr>sl_loc = GoMem g, sl_len = length read_payload\<rparr> rd addr key))
               (Some cq) one_second) (\<lambda>_. ''read sync'')
             (\<lambda>w. saying (Quoted ''read returned '' (gomem w g)) (return_err None) w) w1)
      (go_make g (length read_payload) w))" for rd
  proof (rule shows_zerosI)
    fix w out w'
    assume w: "inert g w" and run: "saying (Say ''posting RMA read...'')
      (\<lambda>w. case region_Key E remote w of
         (key, w1) \<Rightarrow>
           awaiting (ReadSync fuel E ex ep (Some (rma_request \<lparr>sl_loc = GoMem g, sl_len = length read_payload\<rparr> rd addr key))
               (Some cq) one_second) (\<lambda>_. ''read sync'')
             (\<lambda>w. saying (Quoted ''read returned '' (gomem w g)) (return_err None) w) w1)
      (go_make g (length read_payload) w) = Some ((None, out), w')"
    let ?w = "go_make g (length read_payload) w"
    have z: "inert g ?w" "gomem ?w g = replicate (length read_payload) 0"
      using w by (simp_all add: go_make_def inert_def)
    obtain key w1 where key: "region_Key E remote ?w = (key, w1)" by fastforce
    note w1 = hushedD [OF hushed_controls(4) key z(1)]
    from run key obtain v where
      s: "ReadSync fuel E ex ep (Some (rma_request \<lparr>sl_loc = GoMem g, sl_len = length read_payload\<rparr> rd addr key)) (Some cq) one_second w1
          = Some (None, v)"
      and out: "out = [Say ''posting RMA read...'', Quoted ''read returned '' (gomem v g)]"
      by (auto simp: saying_def awaiting_def failing_def return_err_def split: option.splits)
    from rma_sync_inert(2) [OF s] w1 z(2) out
    show "out \<noteq> [] \<and> last out = Quoted ''read returned '' (replicate (length read_payload) 0)" by simp
  qed
  then have "shows_zeros g (with_region E (RegisterMemory E domain (zeros (length read_payload)) (FI_MR_LOCAL (hdr E)))
       ''register read staging region''
       (\<lambda>rd w.
          saying (Say ''posting RMA read...'')
            (\<lambda>w. case region_Key E remote w of
               (key, w1) \<Rightarrow>
                 awaiting
                   (ReadSync fuel E ex ep
                      (Some (rma_request \<lparr>sl_loc = GoMem g, sl_len = length read_payload\<rparr> rd addr key)) (Some cq) one_second)
                   (\<lambda>_. ''read sync'')
                   (\<lambda>w. saying (Quoted ''read returned '' (gomem w g)) (return_err None) w) w1)
            (go_make g (length read_payload) w)))"
    (is "shows_zeros g ?body")
    by (rule shows_region)
  from shows_case [where k = "\<lambda>_. ?body", OF hushed_simple(3) [where r = remote and x = "()"] this]
  show ?thesis by (simp add: rma_read_def [abs_def])
qed

lemma shows_RMA: "shows_zeros g (runRMAExample fuel E ex g d)"
proof (cases "Desc_EndpointType (hdr E) d = FI_EP_RDM (hdr E)")
  case True
  then have eq: "(Desc_EndpointType (hdr E) d \<noteq> FI_EP_RDM (hdr E)) = False" by simp
  have "shows_zeros g (rma_transfer fuel E ex g domain av ep cq target)" for domain av ep cq target
    unfolding rma_transfer_def
    by (intro shows_attempt hushed_address shows_failure shows_region shows_write shows_read)
  then show ?thesis
    unfolding runRMAExample_def eq if_False
    by (intro shows_open hushed_opens shows_attempt hushed_endpoint shows_failure)
      (auto intro!: shows_deferring shows_attempt hushed_endpoint split: prod.split)
qed (simp add: runRMAExample_def)

end
