(* ===== verification/Example_Session.thy ===== *)
theory Example_Session
  imports Example_Shows
begin

text \<open>
  The property of the RMA example, and a run of it on a concrete provider, followed stage by stage.
\<close>

section \<open>The property\<close>

text \<open>
  Claim C30. What the RMA example prints of its read is independent of the provider: a run that
  succeeds ends by printing as many zero bytes as the payload is long, since a read posted on a
  region leaves the buffer of the request as \<open>make\<close> returned it. (The array \<open>g\<close> is fresh: no pending
  completion copies into it.)
\<close>

theorem rma_example_shows_zeros:
  assumes "inert g w" and "runRMAExample fuel E ex g d w = Some ((None, out), w')"
  shows "\<exists>lines. out = lines @ [Quoted ''read returned '' (replicate 22 0)]"
proof -
  have "length read_payload = 22" by (simp add: read_payload_def)
  with shows_zerosD [OF shows_RMA assms(2,1)] show ?thesis by (metis append_butlast_last_id)
qed


section \<open>A provider\<close>

text \<open>
  A provider that completes every transfer at once, and fills the buffer of a read with sevens. Its
  state is the next address and the contexts of the completions to report.
\<close>

definition rma_resp :: "call \<Rightarrow> ptr list \<Rightarrow> resp" where
  "rma_resp c pend =
     (case c of
        C_fabric _ \<Rightarrow> resp0\<lparr>r_ptr := 11\<rparr>
      | C_domain _ _ \<Rightarrow> resp0\<lparr>r_ptr := 12\<rparr>
      | C_endpoint _ _ \<Rightarrow> resp0\<lparr>r_ptr := 13\<rparr>
      | C_cq_open _ _ \<Rightarrow> resp0\<lparr>r_ptr := 14\<rparr>
      | C_av_open _ _ \<Rightarrow> resp0\<lparr>r_ptr := 15\<rparr>
      | C_mr_reg _ _ _ _ _ _ _ \<Rightarrow> resp0\<lparr>r_ptr := 16\<rparr>
      | C_getname _ _ _ _ \<Rightarrow> resp0\<lparr>r_len := 2\<rparr>
      | C_cq_read _ \<Rightarrow> (case pend of [] \<Rightarrow> resp0 | p # _ \<Rightarrow> resp0\<lparr>r_ret := 1, r_ctx := p\<rparr>)
      | _ \<Rightarrow> resp0)"

definition rma_next :: "call \<Rightarrow> ptr list \<Rightarrow> ptr list" where
  "rma_next c pend =
     (case c of
        C_read _ _ _ _ _ _ _ ctx \<Rightarrow> pend @ [ctx]
      | C_write _ _ _ _ _ _ _ ctx \<Rightarrow> pend @ [ctx]
      | C_cq_read _ \<Rightarrow> tl pend
      | _ \<Rightarrow> pend)"

definition rma_fill :: "call \<Rightarrow> ptr \<Rightarrow> byte list" where
  "rma_fill c p =
     (case c of
        C_read _ buf n _ _ _ _ _ \<Rightarrow> if p = buf then replicate n 7 else []
      | _ \<Rightarrow> [])"

definition rma_env :: "(nat \<times> ptr list) cenv" where
  "rma_env =
     \<lparr>hdr = linux_hdr,
      lib = (\<lambda>c h s. (rma_resp c (snd s), rma_fill c, (fst s, rma_next c (snd s)))),
      malloc = (\<lambda>n h s. case bump_malloc n h (fst s) of (p, bs, b) \<Rightarrow> (p, bs, (b, snd s)))\<rparr>"

definition rma_world :: "(nat \<times> ptr list) world" where
  "rma_world = \<lparr>heap = Map.empty, fault = False, native = (100, []), gomem = (\<lambda>_. []), handles = Map.empty,
     next_id = 0, registry = Map.empty, ctxs = Map.empty, regions = Map.empty, ran = [], calls = []\<rparr>"

definition rma_info :: fi_info where
  "rma_info = \<lparr>fi_caps = 0, fi_mode = 0, fi_ep_type = Some 3,
     fi_fabric_attr = Some \<lparr>fa_prov_name = None, fa_name = None, fa_prov_version = 0, fa_api_version = 0\<rparr>,
     fi_domain_attr = None, fi_inject_size = Some 64\<rparr>"

section \<open>A run, stage by stage\<close>

lemma provider_quiet: "provider_writes (\<lambda>_. []) h = h"
  by (auto simp: provider_writes_def fun_eq_iff split: option.split)

lemma ccall_rma: "ccall rma_env c w =
    (rma_resp c (snd (native w)),
     w\<lparr>heap := (case c of C_read _ buf n _ _ _ _ _ \<Rightarrow> provider_writes (\<lambda>p. if p = buf then replicate n 7 else []) (heap w) | _ \<Rightarrow> heap w),
       native := (fst (native w), rma_next c (snd (native w))), calls := calls w @ [(c, rma_resp c (snd (native w)))]\<rparr>)"
  by (cases c) (simp_all add: ccall_def rma_env_def rma_fill_def [abs_def] provider_quiet)

lemma malloc_rma: "c_malloc rma_env own n w =
   (if heap w (Suc (fst (native w))) = None then (Suc (fst (native w)),
      w\<lparr>native := (Suc (fst (native w)), snd (native w)), heap := (heap w)(Suc (fst (native w)) \<mapsto> \<lparr>blk_owner = own, blk_bytes = replicate n 0\<rparr>)\<rparr>)
    else (NULL, w))"
  by (simp add: c_malloc_def rma_env_def bump_malloc_def contents_def)


lemma hdr_rma: "hdr rma_env = linux_hdr" by (simp add: rma_env_def)

lemma status_ok: "ErrorFromStatus linux_hdr 0 op = None" "ErrorFromStatus linux_hdr 1 op = None"
 by (simp_all add: ErrorFromStatus_def linux_hdr_def)

lemma linux_formats: "FI_CQ_FORMAT_UNSPEC linux_hdr = 0" "FI_CQ_FORMAT_TAGGED linux_hdr = 4" "FI_CQ_FORMAT_MSG linux_hdr = 2" "FI_EP_RDM linux_hdr = 3"
  by (simp_all add: linux_hdr_def)

definition finishes :: "'p body \<Rightarrow> 'p world \<Rightarrow> bool" where
  "finishes k w \<longleftrightarrow> (\<exists>out w'. k w = Some ((None, out), w'))"

lemma finishes_steps:
  "m w = (Inr x, v) \<Longrightarrow> finishes (k x) v \<Longrightarrow> finishes (attempt m f k) w"
  "finishes b w \<Longrightarrow> finishes (deferring cl b) w"
  "finishes b w \<Longrightarrow> finishes (saying l b) w"
  "ms w = Some (None, v) \<Longrightarrow> finishes b v \<Longrightarrow> finishes (awaiting ms what b) w"
  "finishes (return_err None) w"
  "mx w = (y, v) \<Longrightarrow> finishes (kx y) v \<Longrightarrow> finishes (\<lambda>w. case mx w of (y, u) \<Rightarrow> kx y u) w"
  "finishes b w \<Longrightarrow> finishes (\<lambda>w. saying (ls w) b w) w"
  "finishes b (gs w) \<Longrightarrow> finishes (\<lambda>w. b (gs w)) w"
  by (auto simp: finishes_def attempt_def deferring_def saying_def awaiting_def return_err_def)

lemma finishes_open:
  "m w = (Inr x, v) \<Longrightarrow> finishes (k x) v \<Longrightarrow> finishes (with_open E m res what k) w"
  "reg w = (Inr r, v) \<Longrightarrow> finishes (k' r) v \<Longrightarrow> finishes (with_region E reg what k') w"
  unfolding with_open_def with_region_def by (intro finishes_steps(1,2); assumption)+

named_theorems stage_eval

lemmas [stage_eval] = rma_world_def rma_info_def
  OpenFabric_def OpenDomain_def OpenAddressVector_def capi_OpenFabric_def capi_OpenDomain_def capi_OpenAV_def MRMode_def MRKeySize_def MRIovLimit_def
  rma_openEndpoint_def try_act_def try_do_def OpenCompletionQueue_def with_handle_def wrap_open_def
   capi_OpenCompletionQueue_def open_call_def ccall_rma rma_resp_def rma_next_def status_ok hdr_rma resp0_def new_wrapper_def
   OpenEndpoint_def capi_OpenEndpoint_def BindCompletionQueue_def capi_BindCompletionQueue_def capi_Bind_def status_call_def guarded_def
   BindAddressVector_def capi_BindAddressVector_def Endpoint_Enable_def capi_Enable_def InjectSize_def capi_cq_format_def Let_def linux_formats

definition stage1 where
  "stage1 = snd (OpenFabric rma_env rma_info rma_world)"

lemma stage1: "OpenFabric rma_env rma_info rma_world = (Inr 0, stage1)" "heap stage1 = Map.empty" "native stage1 = (100, [])"
  "handles stage1 = [0 \<mapsto> (KFabric, 11)]" "next_id stage1 = 1" "ctxs stage1 = Map.empty" "regions stage1 = Map.empty" "registry stage1 = Map.empty"
  by (simp_all add: stage1_def prod_eq_iff stage_eval)

definition stage_domain :: godomain where
  "stage_domain = \<lparr>gd_ref = 1, gd_mrMode = 0, gd_mrKeySize = 0, gd_mrIovLimit = 0\<rparr>"

definition stage2 where
  "stage2 = snd (OpenDomain rma_env rma_info 0 stage1)"

lemma stage2: "OpenDomain rma_env rma_info 0 stage1 = (Inr stage_domain, stage2)" "heap stage2 = Map.empty" "native stage2 = (100, [])"
  "handles stage2 = [0 \<mapsto> (KFabric, 11), 1 \<mapsto> (KDomain, 12)]" "next_id stage2 = 2" "ctxs stage2 = Map.empty" "regions stage2 = Map.empty" "registry stage2 = Map.empty"
  by (simp_all add: stage2_def prod_eq_iff stage1 stage_eval stage_domain_def)

definition stage3 where
  "stage3 = snd (OpenAddressVector rma_env stage_domain None stage2)"

lemma stage3: "OpenAddressVector rma_env stage_domain None stage2 = (Inr 2, stage3)" "heap stage3 = Map.empty" "native stage3 = (100, [])"
  "handles stage3 = [0 \<mapsto> (KFabric, 11), 1 \<mapsto> (KDomain, 12), 2 \<mapsto> (KAV, 15)]" "next_id stage3 = 3" "ctxs stage3 = Map.empty" "regions stage3 = Map.empty" "registry stage3 = Map.empty"
  by (simp_all add: stage3_def prod_eq_iff stage2 stage_eval stage_domain_def numeral_eq_Suc)

definition stage_ep :: "nat \<Rightarrow> endpoint" where
  "stage_ep n = \<lparr>ep_ref = n, ep_injectLimit = 64, ep_supportsTagged = False\<rparr>"

definition stage_cq :: "nat \<Rightarrow> compq" where
  "stage_cq n = \<lparr>cq_ref = n, cq_format = 0\<rparr>"

definition stage4 where
  "stage4 = snd (rma_openEndpoint rma_env stage_domain rma_info 2 ''initiator'' stage3)"

lemma stage4: "rma_openEndpoint rma_env stage_domain rma_info 2 ''initiator'' stage3 = (Inr (stage_ep 4, stage_cq 3), stage4)" "heap stage4 = Map.empty" "native stage4 = (100, [])"
  "handles stage4 = [0 \<mapsto> (KFabric, 11), 1 \<mapsto> (KDomain, 12), 2 \<mapsto> (KAV, 15), 3 \<mapsto> (KCQ, 14), 4 \<mapsto> (KEndpoint, 13)]" "next_id stage4 = 5" "ctxs stage4 = Map.empty" "regions stage4 = Map.empty" "registry stage4 = Map.empty"
  by (simp_all add: stage4_def prod_eq_iff stage3 stage_eval stage_domain_def stage_ep_def stage_cq_def)

lemmas [stage_eval] = RegisterAddress_def Endpoint_Name_def capi_Endpoint_Name_def InsertRaw_def capi_AV_InsertRaw_def AllocBytes_def FreeBytes_def
  malloc_rma GoBytes_def load_def c_free_def Memcpy_def store_def

lemmas name_loop_six = name_loop.simps(2) [where attempts = 5, simplified]

definition stage5 where
  "stage5 = snd (rma_openEndpoint rma_env stage_domain rma_info 2 ''target'' stage4)"

lemma stage5: "rma_openEndpoint rma_env stage_domain rma_info 2 ''target'' stage4 = (Inr (stage_ep 6, stage_cq 5), stage5)" "heap stage5 = Map.empty" "native stage5 = (100, [])"
  "handles stage5 = [0 \<mapsto> (KFabric, 11), 1 \<mapsto> (KDomain, 12), 2 \<mapsto> (KAV, 15), 3 \<mapsto> (KCQ, 14), 4 \<mapsto> (KEndpoint, 13),
     5 \<mapsto> (KCQ, 14), 6 \<mapsto> (KEndpoint, 13)]" "next_id stage5 = 7" "ctxs stage5 = Map.empty" "regions stage5 = Map.empty" "registry stage5 = Map.empty"
  by (simp_all add: stage5_def prod_eq_iff stage4 stage_eval stage_domain_def stage_ep_def stage_cq_def)

definition stage6 where
  "stage6 = snd (RegisterAddress rma_env (stage_ep 6) 2 0 stage5)"

lemma stage6: "RegisterAddress rma_env (stage_ep 6) 2 0 stage5 = (Inr 0, stage6)" "heap stage6 = Map.empty" "native stage6 = (102, [])"
  "handles stage6 = handles stage5" "next_id stage6 = 7" "ctxs stage6 = Map.empty" "regions stage6 = Map.empty" "registry stage6 = Map.empty"
  by (simp_all add: stage6_def prod_eq_iff stage5 stage_eval stage_ep_def name_loop_six fun_eq_iff)

lemma payload_lengths [simp]: "length (text_bytes s) = length s" "length write_payload = 17" "length read_payload = 22"
  by (simp_all add: text_bytes_def write_payload_def read_payload_def)

definition stage_access :: "uint64 \<Rightarrow> uint64" where
  "stage_access a = effective_access linux_hdr stage_domain (Some \<lparr>ro_Access = a, ro_RequestedKey = 0, ro_Offset = 0, ro_Flags = 0\<rparr>)"

lemma stage_access_local: "has_bits (stage_access (FI_MR_LOCAL linux_hdr)) (FI_MR_LOCAL linux_hdr)"
  by (simp add: stage_access_def effective_access_def has_bits_def linux_hdr_def stage_domain_def Let_def RequiresMRMode_def)

lemma no_modes: "unsupported_modes linux_hdr stage_domain = 0"
  by (simp add: unsupported_modes_def stage_domain_def)

lemma stage_domain_ref [simp]: "gd_ref stage_domain = 1" "gd_mrKeySize stage_domain = 0" by (simp_all add: stage_domain_def)

lemmas [stage_eval] = RegisterMemory_def RegisterMemoryWithOptions_def capi_RegisterMemory_def new_region_def no_modes stage_access_def [symmetric]

definition stage_region where
  "stage_region b n a = \<lparr>mr_handle = Some 16, mr_buffer = b, mr_length = n, mr_access = a, mr_descSize = 0, mr_ownsBuf = True\<rparr>"

definition stage7 where
  "stage7 = snd (RegisterMemory rma_env stage_domain (text_slice write_payload) (FI_MR_LOCAL linux_hdr) stage6)"

lemma stage7: "RegisterMemory rma_env stage_domain (text_slice write_payload) (FI_MR_LOCAL linux_hdr) stage6 = (Inr 7, stage7)"
  "heap stage7 = [103 \<mapsto> \<lparr>blk_owner = ORegion 7, blk_bytes = text_bytes write_payload\<rparr>]" "native stage7 = (103, [])"
  "handles stage7 = handles stage5" "next_id stage7 = 8" "ctxs stage7 = Map.empty" "regions stage7 = [7 \<mapsto> stage_region 103 17 (stage_access (FI_MR_LOCAL linux_hdr))]" "registry stage7 = Map.empty"
  by (simp_all add: stage7_def prod_eq_iff stage6 stage5(4) stage_eval stage_region_def text_slice_def)

lemma zeros_load: "load (sl_loc (zeros n)) w = Some (replicate n 0)" "sl_len (zeros n) = n"
  by (simp_all add: zeros_def load_def)

definition remote_access :: uint64 where
  "remote_access = stage_access (FI_MR_LOCAL linux_hdr OR FI_REMOTE_READ linux_hdr OR FI_REMOTE_WRITE linux_hdr)"

definition stage8 where
  "stage8 = snd (RegisterMemory rma_env stage_domain (zeros 17) (FI_MR_LOCAL linux_hdr OR FI_REMOTE_READ linux_hdr OR FI_REMOTE_WRITE linux_hdr) stage7)"

lemma stage8: "RegisterMemory rma_env stage_domain (zeros 17) (FI_MR_LOCAL linux_hdr OR FI_REMOTE_READ linux_hdr OR FI_REMOTE_WRITE linux_hdr) stage7 = (Inr 8, stage8)"
  "heap stage8 = [103 \<mapsto> \<lparr>blk_owner = ORegion 7, blk_bytes = text_bytes write_payload\<rparr>, 104 \<mapsto> \<lparr>blk_owner = ORegion 8, blk_bytes = replicate 17 0\<rparr>]"
  "native stage8 = (104, [])" "handles stage8 = handles stage5" "next_id stage8 = 9" "ctxs stage8 = Map.empty"
  "regions stage8 = [7 \<mapsto> stage_region 103 17 (stage_access (FI_MR_LOCAL linux_hdr)), 8 \<mapsto> stage_region 104 17 remote_access]" "registry stage8 = Map.empty"
  by (simp_all add: stage8_def prod_eq_iff stage7 stage5(4) stage_eval stage_region_def zeros_def remote_access_def)

lemmas [stage_eval] = region_Key_def capi_MR_Key_def

definition stage9 where
  "stage9 = snd (region_Key rma_env 8 stage8)"

lemma stage9: "region_Key rma_env 8 stage8 = (0, stage9)" "heap stage9 = heap stage8" "native stage9 = (104, [])" "handles stage9 = handles stage5"
  "next_id stage9 = 9" "ctxs stage9 = Map.empty" "regions stage9 = regions stage8" "registry stage9 = Map.empty"
  by (simp_all add: stage9_def prod_eq_iff stage8 stage_eval stage_region_def)

lemmas wait_loop_four = wait_loop.simps(2) [where fuel = 3, simplified]
lemmas [stage_eval] = sync_def PostWrite_def PostRead_def ensureContext_def NewCompletionContext_def CompletionContextAlloc_def
  rma_request_def use_region_def ensureRegionAccess_def hasAccess_def region_Descriptor_def capi_MR_Descriptor_def region_Size_def
  finish_post_def capi_Write_def capi_Read_def Pointer_def cc_new_def waitForContext_def waitForCompletion_def wait_loop_four
  todo_def CQ_ReadContext_def capi_ReadContext_def read_result_def entry_result_def CompletionEvent_Resolve_def resolveCompletion_def
  release_ctx_def CompletionContextFree_def setCopyBack_def upd_ctx_def stage_access_local

definition stage10 where
  "stage10 = (case WriteSync 4 rma_env (\<lambda>_. False) (stage_ep 4) (Some (rma_request nil_slice 7 0 0)) (Some (stage_cq 3)) one_second stage9 of Some (_, w) \<Rightarrow> w | None \<Rightarrow> stage9)"

lemma stage10: "WriteSync 4 rma_env (\<lambda>_. False) (stage_ep 4) (Some (rma_request nil_slice 7 0 0)) (Some (stage_cq 3)) one_second stage9 = Some (None, stage10)"
  "heap stage10 = heap stage8" "native stage10 = (105, [])" "handles stage10 = handles stage5" "next_id stage10 = 10" 
  "\<forall>c \<ge> 10. ctxs stage10 c = None" "regions stage10 = regions stage8" "registry stage10 = Map.empty"
  by (simp_all add: stage10_def WriteSync_def stage9 stage8(2,7) stage5(4) stage_eval stage_region_def stage_ep_def stage_cq_def nil_slice_def fun_eq_iff)

definition stage11 where
  "stage11 = rma_refill 8 stage10"

lemma stage11: "heap stage11 = (heap stage8)(104 \<mapsto> \<lparr>blk_owner = ORegion 8, blk_bytes = take 17 (text_bytes read_payload)\<rparr>)"
  "native stage11 = (105, [])" "handles stage11 = handles stage5" "next_id stage11 = 10"
  "\<forall>c \<ge> 10. ctxs stage11 c = None" "regions stage11 = regions stage8" "registry stage11 = Map.empty"
  using stage10(6) by (simp_all add: stage11_def rma_refill_def region_Bytes_def stage10 stage8 stage_region_def Memcpy_def load_def store_def)

definition stage12 where
  "stage12 = snd (RegisterMemory rma_env stage_domain (zeros 22) (FI_MR_LOCAL linux_hdr) stage11)"

lemma stage12: "RegisterMemory rma_env stage_domain (zeros 22) (FI_MR_LOCAL linux_hdr) stage11 = (Inr 10, stage12)"
  "heap stage12 = (heap stage11)(106 \<mapsto> \<lparr>blk_owner = ORegion 10, blk_bytes = replicate 22 0\<rparr>)"
  "native stage12 = (106, [])" "handles stage12 = handles stage5" "next_id stage12 = 11" "\<forall>c \<ge> 11. ctxs stage12 c = None"
  "regions stage12 = (regions stage8)(10 \<mapsto> stage_region 106 22 (stage_access (FI_MR_LOCAL linux_hdr)))" "registry stage12 = Map.empty"
  using stage11(5) by (simp_all add: stage12_def prod_eq_iff stage11 stage8(2) stage5(4) stage_eval stage_region_def zeros_def)

definition stage13 where
  "stage13 = snd (region_Key rma_env 8 (go_make 0 22 stage12))"

lemma stage13: "region_Key rma_env 8 (go_make 0 22 stage12) = (0, stage13)" "heap stage13 = heap stage12" "native stage13 = (106, [])" "handles stage13 = handles stage5"
  "next_id stage13 = 11" "\<forall>c \<ge> 11. ctxs stage13 c = None" "regions stage13 = regions stage12" "registry stage13 = Map.empty"
  using stage12(6) by (simp_all add: stage13_def prod_eq_iff stage12(2-) stage8(7) stage_eval stage_region_def go_make_def)

definition stage_request where
  "stage_request = rma_request \<lparr>sl_loc = GoMem 0, sl_len = 22\<rparr> 10 0 0"

definition stage14 where
  "stage14 = (case ReadSync 4 rma_env (\<lambda>_. False) (stage_ep 4) (Some stage_request) (Some (stage_cq 3)) one_second stage13 of Some (_, w) \<Rightarrow> w | None \<Rightarrow> stage13)"

lemma stage14: "ReadSync 4 rma_env (\<lambda>_. False) (stage_ep 4) (Some stage_request) (Some (stage_cq 3)) one_second stage13 = Some (None, stage14)"
   by (simp add: stage14_def ReadSync_def stage13 stage12(2,7) stage11(1) stage8(2,7) stage5(4) stage_eval stage_region_def stage_ep_def stage_cq_def stage_request_def fun_eq_iff provider_writes_def)

lemma finishes_transfer: "finishes (rma_transfer 4 rma_env (\<lambda>_ _. False) 0 stage_domain 2 (stage_ep 4) (stage_cq 3) (stage_ep 6)) stage5"
  unfolding rma_transfer_def hdr_rma payload_lengths
  apply (rule finishes_steps(1), rule stage6(1))
  apply (rule finishes_open(2), rule stage7(1))
  apply (rule finishes_open(2), rule stage8(1))
  unfolding rma_write_def
  apply (rule finishes_steps(3))
  apply (rule finishes_steps(6), rule stage9(1))
  apply (rule finishes_steps(4), rule stage10(1))
  apply (rule finishes_steps(7))
  unfolding rma_read_def hdr_rma payload_lengths
  apply (rule finishes_steps(8) [where gs = "rma_refill 8"], fold stage11_def)
  apply (rule finishes_open(2), rule stage12(1))
  apply (rule finishes_steps(8) [where gs = "go_make 0 22"])
  apply (rule finishes_steps(3))
  apply (rule finishes_steps(6), rule stage13(1))
  apply (rule finishes_steps(4), rule stage14(1) [unfolded stage_request_def])
  apply (rule finishes_steps(7))
  apply (rule finishes_steps(5))
  done

lemma finishes_example: "finishes (runRMAExample 4 rma_env (\<lambda>_ _. False) 0 rma_info) rma_world"
proof -
  have "Desc_EndpointType (hdr rma_env) rma_info = FI_EP_RDM (hdr rma_env)"
    by (simp add: Desc_EndpointType_def entry_EndpointType_def hdr_rma rma_info_def linux_hdr_def)
  then have eq: "(Desc_EndpointType (hdr rma_env) rma_info \<noteq> FI_EP_RDM (hdr rma_env)) = False" by simp
  show ?thesis
    unfolding runRMAExample_def eq if_False
    apply (rule finishes_open(1), rule stage1(1))
    apply (rule finishes_open(1))
    apply (rule stage2(1))
    apply (rule finishes_open(1), rule stage3(1))
    apply (rule finishes_steps(1), rule stage4(1))
    apply (simp only: prod.case)
    apply (rule finishes_steps(2))+
    apply (rule finishes_steps(1), rule stage5(1))
    apply (simp only: prod.case)
    apply (rule finishes_steps(2))+
    apply (rule finishes_transfer)
    done
qed

theorem rma_example_shows_zeros_witness:
  "\<exists>lines w'. runRMAExample 4 rma_env (\<lambda>_ _. False) 0 rma_info rma_world =
     Some ((None, lines @ [Quoted ''read returned '' (replicate 22 0)]), w')"
proof -
  obtain out w' where run: "runRMAExample 4 rma_env (\<lambda>_ _. False) 0 rma_info rma_world = Some ((None, out), w')"
    using finishes_example unfolding finishes_def by blast
  have "inert 0 rma_world" by (simp add: inert_def rma_world_def)
  from rma_example_shows_zeros [OF this run] run show ?thesis by auto
qed

end
