(* ===== verification/Spec2Isabelle.thy ===== *)
theory Spec2Isabelle
  imports Names Measured Sessions Client_Delivery Descriptors Example_Session
begin

text \<open>
  \<^bold>\<open>libfabric-go in Isabelle/HOL.\<close>

  The repository has three Go packages, one on top of the other. \<open>internal/capi\<close> makes the C calls
  of libfabric, one function per call. \<open>fi\<close> wraps native objects in Go values that are closed once,
  maps the pointer libfabric returns with a completion back to a Go object, registers memory, posts
  transfers and waits for them. \<open>client\<close> opens a session (\<open>Dial\<close>, \<open>Connect\<close>, \<open>Listen\<close>,
  \<open>Accept\<close>), turns posts into futures, and runs one goroutine, the dispatcher, which reads the
  completion queue and finishes the operations. The theories follow that order; each definition
  carries the name of the Go function it translates, with the prefix \<open>capi_\<close> for a function of
  \<open>internal/capi\<close> whose name the \<open>fi\<close> package reuses.
\<close>

section \<open>The boundary\<close>

text \<open>
  libfabric, its provider and \<open>malloc\<close> are not under \<open>src/\<close>. They are the record \<open>cenv\<close> (World),
  the first argument of every operation: \<open>lib\<close> answers a \<open>call\<close> from the contents of the C heap
  and the provider's own state, which is a type variable, and may write to memory; \<open>malloc\<close> returns
  an address and the junk found there; \<open>hdr\<close> holds the constants of the C headers (Header). The
  version of the linked library is \<open>ver_api\<close> (Versions). \<open>world\<close> is the state of the program: C
  heap, Go arrays, wrappers, registry and records of completion contexts, memory regions, the state
  of the provider, and three observations that no operation reads: the log of calls, the log of
  callbacks, and \<open>fault\<close>, which is set by a \<open>free\<close> of memory that is not allocated and by a copy
  outside a block.

  What is assumed about the boundary is named and appears as a hypothesis where it is used:
  \<open>errno_spec\<close> and \<open>enum_spec\<close> (the header's constants are distinct and have their sign),
  \<open>malloc_spec\<close> (\<open>malloc\<close> returns memory that was not allocated), \<open>getname_spec\<close> (\<open>fi_getname\<close> and
  its status for a short buffer), \<open>drains\<close> (a queue that receives no more completions),
  \<open>connectionless\<close> (an endpoint of that kind needs its address vector before it is enabled),
  \<open>av_busy\<close> (\<open>fi_close\<close> refuses an address vector in use), \<open>registry_spec\<close> (a collector that is
  already registered has the same labels). Every theorem with such a hypothesis is followed by a
  witness on a concrete library. Nothing is assumed about the order, the number or the contents of
  completions.
\<close>

section \<open>Theories and code\<close>

text \<open>
  \<^item> Prelude: Go's integer types, the combinators for \<open>if err != nil { cleanup; return }\<close>, shared
    facts and lemma collections. Transitions: the contracts of state machines, as locales.
  \<^item> Errors (\<open>internal/capi/errors.go\<close>, \<open>fi/errors.go\<close>, \<open>translateErr\<close>, \<open>OperationError\<close>): error
    values, wrapping, \<open>errors.Is\<close>, and the translation of a status. Versions
    (\<open>internal/capi/version.go\<close>).
  \<^item> World, CMemory (\<open>internal/capi/memory.go\<close>, \<open>internal/capi/context.go\<close>), Handles (wrappers that
    drop their pointer at the first \<open>Close\<close>), Capi (\<open>fabric.go\<close>, \<open>endpoint.go\<close>, \<open>av.go\<close>, \<open>wait.go\<close>,
    \<open>tagged.go\<close>, \<open>rma.go\<close> of \<open>internal/capi\<close>), Names (the address query and its retries).
  \<^item> Discovery (\<open>internal/capi/info.go\<close>, \<open>fi/discover.go\<close>) and Descriptors (the queries of
    \<open>fi/discover.go\<close> on a descriptor, on its snapshot, on a domain).
  \<^item> Contexts, Context_Life (\<open>fi/context.go\<close>); Regions, Region_Life (\<open>internal/capi/mr.go\<close>,
    \<open>fi/memory.go\<close>); Pool (\<open>fi/memory_pool.go\<close>); Separation: contexts and regions in one heap.
  \<^item> Endpoints (\<open>fi/endpoint.go\<close>, \<open>fi/passive.go\<close>, \<open>fi/address_vector.go\<close>, wait sets); Messaging,
    Posting, Delivery (\<open>fi/messaging.go\<close>, \<open>fi/tagged.go\<close>, \<open>fi/rma.go\<close>); Waiting (\<open>fi/wait.go\<close> and the
    blocking helpers).
  \<^item> Telemetry, Client (\<open>client/client.go\<close>): observers, operations, futures, handlers, statistics,
    posting, the dispatcher, \<open>Close\<close>. Client_Life, Client_Runs: the client as an interleaving of
    steps. Client_Safety: its memory. Client_Delivery: from a post to the future. Dispatcher: the
    loop.
  \<^item> Metrics (\<open>client/metrics_labels.go\<close>, \<open>client/metrics_otel.go\<close>, \<open>client/metrics_prometheus.go\<close>)
    and Measured: what of a client's work reaches them.
  \<^item> Lifecycle (\<open>Dial\<close>, \<open>client/connect.go\<close>, \<open>client/listener.go\<close>), Resources (opening one after the
    other and cleaning up), Ownership (who holds and releases native objects), Sessions (the order
    of the calls against what libfabric documents).
  \<^item> Examples (\<open>examples/rma_basic\<close>, \<open>examples/msg_basic\<close>, \<open>examples/provider_switch\<close>): programs
    over the \<open>fi\<close> package with deferred closes, and one with a goroutine. Example_Runs: their steps,
    and a blocking call as a thread. Example_Release: what they close. Example_Shows,
    Example_Session: what the RMA example prints, and a run of it on a concrete provider.
\<close>

section \<open>How the state corresponds\<close>

text \<open>
  A Go pointer to an object whose identity matters is a number: a \<open>*CompletionContext\<close> indexes
  \<open>ctxs\<close>, a \<open>*MemoryRegion\<close> indexes \<open>regions\<close>, a wrapper (fabric, domain, endpoint, queue, vector)
  indexes \<open>handles\<close>, whose cell is emptied by \<open>Close\<close>; an \<open>*operation\<close> indexes \<open>cl_ops\<close>, and a
  future is the operation it tracks. A slice is a location (Go array, Go value or C memory) with a
  length, so that a copy can run past its block. Integers keep their width: words where Go converts
  or masks, \<open>int\<close> for Go's \<open>int\<close> where the code only compares and counts. Errors are the datatype
  \<open>goerr\<close>, a fallible function returns \<open>goerr + 'a\<close>.

  The steps of a client (\<open>client_step\<close>, \<open>client_use\<close>) are the pieces of its methods between which
  another goroutine can run: a post up to the native call, the binding of the operation to its
  context, one poll of the dispatcher with the handling of what it read, a registration of a
  callback, \<open>Close\<close>. Inside a piece the code holds a mutex or touches only its own data. In the
  same way the pool's \<open>Acquire\<close>, \<open>Release\<close> and \<open>Close\<close> are split at their channel operations. The
  goroutines a client starts for callbacks and handlers are recorded as values.
\<close>

section \<open>What is shown\<close>

text \<open>
  \<^item> Contexts and memory. Every interleaving of context operations with the rest of the program is
    free of faults and leaks no block; a context that is resolved runs its callbacks and cleanups
    exactly once and is then sealed. The same for regions. Both invariants hold together
    (Separation). The six posting functions are refined by the steps of contexts, registered
    regions stay as they were, and a post that fails leaves no context open.
  \<^item> Transfers. A send hands the provider the caller's bytes; a receive gives back the bytes the
    provider wrote, through the staging buffer. The exceptions, receives into a registered region,
    are stated as what the code does.
  \<^item> Waiting. It returns on cancellation, and after the deadline once the queue is empty; success
    means that the target was resolved, once; a queue that never runs dry, or another waiter on the
    same queue, defeats it, with proofs of both.
  \<^item> The client. It refines a machine of operations (post, complete, observe), from which follow
    exact counters, final results and callbacks that run once. All runs are free of memory faults,
    together with other users of the same world. An operation that is bound to its context is
    finished by the poll that reads its completion, and a receive without regions then delivers.
    The dispatcher returns once it is told to stop.
  \<^item> Sessions. A constructor that fails releases everything it opened, and \<open>Close\<close> of what it
    returned does the same, whatever libfabric answers. The handshake returns at its deadline.
  \<^item> Observers. OpenTelemetry and Prometheus hooks count the same calls under the same labels;
    statistics and metrics agree on every completion.
  \<^item> Examples. On every path the example programs close what they opened, whatever libfabric
    answers and whichever way the two goroutines of \<open>provider_switch\<close> interleave. The RMA example
    prints zeros for what it read.
  \<^item> Places where the code does not do what it means to are theorems too, about the definitions
    as they are: the address vector that \<open>Dial\<close> binds too late and \<open>Close\<close> closes too early, the
    error entry that disables a client, the completion that arrives before its operation is bound,
    the race between \<open>Release\<close> and \<open>Close\<close> of a pool, a listener that takes the domain of its
    clients along.

  The interfaces are locales, each interpreted on the definitions of the model:
  \<open>transition_invariant\<close>, \<open>sealed_view\<close> and \<open>simulation\<close> (Transitions) by contexts, regions, pool,
  separation, client and dispatcher; \<open>resource_table\<close> (Handles) by the wrappers; \<open>context_manager\<close>
  (Posting) by completion contexts; \<open>opener\<close> (Resources) by the eight open functions, and its
  extension \<open>pure_opener\<close> (Example_Runs) by the five that the examples use;
  \<open>metric_hook\<close> (Metrics) by both hooks.
\<close>

section \<open>Bounds and fuel\<close>

text \<open>
  The loops that may run for ever take fuel, and \<open>None\<close> means that they are still running:
  \<open>wait_loop\<close>, \<open>dispatch_loop\<close>, \<open>connect_loop\<close>, \<open>accept_loop\<close>. What such a loop reads of the
  outside in its i-th iteration (deadline passed, context cancelled, stop channel closed, listener
  closed) is a function of i. That a fuel exists with which they return is proved: for the wait
  after cancellation, or after the deadline with a queue that drains; for the dispatcher after its
  stop; for the handshake after its deadline. More fuel is never needed than the iteration in which
  the observation holds (plus, for the wait, the completions still queued). \<open>Accept\<close> has no deadline
  in the code, and none is claimed. \<open>exchange\<close> runs two goroutines by a list of turns, and the
  blocking calls of the examples take the fuel of \<open>wait_loop\<close>; a run that has not ended is \<open>None\<close>.
  The address query needs no fuel: it tries six buffer sizes.
\<close>

section \<open>Not modelled\<close>

text \<open>
  \<^item> \<open>examples/client_basic\<close>: two dialed clients in one process and a goroutine, with a sleep in
    place of synchronisation. The calls it makes are modelled; the program would need two
    dispatchers and two main threads scheduled over one world.
  \<^item> In \<open>examples/provider_switch\<close>, the goroutine that still receives after the function that
    started it has returned an error. In \<open>examples/rma_basic\<close>, lower case of letters outside ASCII.
  \<^item> \<open>*_test.go\<close>, \<open>integration/\<close>, build files.
  \<^item> \<open>internal/capi/caps.go\<close> and the blocks of constants in the other files: they name constants of
    the C headers, which are the parameter \<open>fi_hdr\<close>. \<open>doc.go\<close> files hold no code.
  \<^item> Text of errors that is only printed, where no code compares it, is a list of characters but
    not proved about; so are log messages.
  \<^item> Memory beyond blocks: a Go slice aliasing C memory that was freed is caught only where the
    program copies through it. A descriptor used after its discovery was closed is a value here and
    stays readable; the code would read freed memory.
  \<^item> Data races on plain fields. The steps are as large as the code's critical sections; the order
    in which Go iterates over a map of handlers is that of registration here, and the claims do not
    depend on it.
  \<^item> Nil receivers, which most methods check before anything else, where the model's type has no
    nil.
\<close>

end
